(* ===== verification/Prelude.thy ===== *)
theory Prelude
  imports Complex_Main "HOL-Library.Word" "HOL-Library.AList"
begin

section \<open>Shared vocabulary of the indexer's model\<close>

text \<open>
  Go values and effects that several components use: machine integers, panics, errors,
  read-write mutexes, bounded channels, and the decimal text of integers, with the lemmas
  the component theories share.

  \<^item> \<open>uint64\<close> values are \<^typ>\<open>64 word\<close>; \<open>int64\<close> values, \<open>time.Time\<close> and
    \<open>time.Duration\<close> (nanoseconds) are \<^typ>\<open>int\<close>, with \<open>wrap_i64\<close> written where the
    code can leave the range; \<open>*big.Int\<close> is \<^typ>\<open>int\<close>, and \<open>int option\<close> where nil
    is possible.
  \<^item> A function that can panic returns a \<open>go\<close> value.
  \<^item> A log line changes no state and is left out; a call that another component observes
    (a dispatched command, a spawned goroutine, a channel send) is part of the result.
\<close>

named_theorems heights \<open>conversions between uint64 heights, int64 values and integers\<close>
named_theorems frames \<open>fields an operation leaves unchanged\<close>
named_theorems alist_rules \<open>association lists that stand for Go maps\<close>

type_synonym u64 = "64 word"
type_synonym time = int
type_synonym duration = int

abbreviation second :: duration where
  "second \<equiv> 1000000000"

abbreviation millisecond :: duration where
  "millisecond \<equiv> 1000000"

abbreviation anvil_chain_id :: int where
  "anvil_chain_id \<equiv> 31337"

subsection \<open>Panics\<close>

datatype 'a go = Ret 'a | Panic

primrec go_bind :: "'a go \<Rightarrow> ('a \<Rightarrow> 'b go) \<Rightarrow> 'b go" where
  "go_bind (Ret a) f = f a"
| "go_bind Panic f = Panic"

lemma go_bind_eq_Ret [simp]: "go_bind m f = Ret b \<longleftrightarrow> (\<exists>a. m = Ret a \<and> f a = Ret b)"
  by (cases m) auto

lemma go_bind_eq_Panic [simp]: "go_bind m f = Panic \<longleftrightarrow> m = Panic \<or> (\<exists>a. m = Ret a \<and> f a = Panic)"
  by (cases m) auto

lemma go_bind_cong [fundef_cong]:
  "m = m' \<Longrightarrow> (\<And>a. m' = Ret a \<Longrightarrow> f a = g a) \<Longrightarrow> go_bind m f = go_bind m' g"
  by (cases m') auto

text \<open>A call that returned without a panic and without an error.\<close>

definition go_ok :: "('a \<times> 'e option) go \<Rightarrow> bool" where
  "go_ok m = (case m of Ret (a, None) \<Rightarrow> True | _ \<Rightarrow> False)"

lemma go_ok_iff: "go_ok m \<longleftrightarrow> (\<exists>a. m = Ret (a, None))"
  by (auto simp: go_ok_def split: go.splits option.splits)

subsection \<open>Errors\<close>

text \<open>
  The error values of the engine. \<open>ReorgError\<close> is the struct type the sequencer tests for
  with a type assertion, the others are sentinel values or the messages built by
  \<open>fmt.Errorf\<close>, of which the model keeps the wrapped error and the tag.
\<close>

datatype go_error =
    ErrReorgDetected
  | ErrReorgNeedRefetch
  | is_ReorgError: ReorgError (reorg_at: int)
  | ContextCanceled
  | ContextDeadlineExceeded
  | ErrBlockNotYetAvailable
  | NotFound string
  | OtherError string
  | Wrapped string go_error

subsection \<open>Machine integers\<close>

text \<open>\<open>wrap_i64\<close> is the value an \<open>int64\<close> holds after an operation with the exact result \<open>x\<close>.\<close>

definition wrap_i64 :: "int \<Rightarrow> int" where
  "wrap_i64 x = (x + 2 ^ 63) mod 2 ^ 64 - 2 ^ 63"

definition max_i64 :: int where
  "max_i64 = 9223372036854775807"

definition min_i64 :: int where
  "min_i64 = - 9223372036854775808"

abbreviation in_i64 :: "int \<Rightarrow> bool" where
  "in_i64 x \<equiv> min_i64 \<le> x \<and> x \<le> max_i64"

lemma wrap_i64_id [heights]: "in_i64 x \<Longrightarrow> wrap_i64 x = x"
  by (simp add: wrap_i64_def min_i64_def max_i64_def)

lemma wrap_i64_range: "in_i64 (wrap_i64 x)"
  using pos_mod_bound [of "2 ^ 64" "x + 2 ^ 63"] pos_mod_sign [of "2 ^ 64" "x + 2 ^ 63"]
  by (simp add: wrap_i64_def min_i64_def max_i64_def)

lemma uint_u64_bounds [heights]: "0 \<le> uint (w :: u64)" "uint (w :: u64) < 18446744073709551616"
  using uint_bounded [of w] by simp_all

lemma wrap_i64_u64 [heights]:
  assumes "uint (w :: u64) \<le> max_i64"
  shows "wrap_i64 (uint w) = uint w"
proof -
  have "min_i64 \<le> 0" by (simp add: min_i64_def)
  then have "min_i64 \<le> uint w" using uint_u64_bounds(1) by (rule order.trans)
  with assms show ?thesis by (rule wrap_i64_id [OF conjI, rotated])
qed

lemma u64_of_nat_uint [heights]: "0 \<le> n \<Longrightarrow> n < 18446744073709551616 \<Longrightarrow> uint (word_of_int n :: u64) = n"
  by (simp add: uint_word_of_int)

lemma uint_diff_le [heights]: "b \<le> a \<Longrightarrow> uint (a - b :: u64) = uint a - uint b"
  by (simp add: uint_minus_simple_alt word_le_def)

text \<open>\<open>int32\<close> arithmetic, and Go's integer division, which truncates towards zero.\<close>

definition wrap_i32 :: "int \<Rightarrow> int" where
  "wrap_i32 x = (x + 2 ^ 31) mod 2 ^ 32 - 2 ^ 31"

definition tdiv :: "int \<Rightarrow> int \<Rightarrow> int" where
  "tdiv a b = sgn a * sgn b * (\<bar>a\<bar> div \<bar>b\<bar>)"

lemma wrap_i32_id [heights]: "- 2147483648 \<le> x \<Longrightarrow> x \<le> 2147483647 \<Longrightarrow> wrap_i32 x = x"
  by (simp add: wrap_i32_def)

lemma tdiv_nonneg [heights]: "0 \<le> a \<Longrightarrow> 0 < b \<Longrightarrow> tdiv a b = a div b"
  by (cases "a = 0") (simp_all add: tdiv_def)

subsection \<open>Read-write mutexes\<close>

text \<open>
  Go's \<open>sync.RWMutex\<close> is not reentrant: \<open>Lock\<close> waits for every reader and writer to leave,
  \<open>RLock\<close> waits for the writer. The model of one goroutine that takes a lock it already
  holds is \<open>None\<close>: nobody else will release it, so the call never returns.
\<close>

datatype rwmutex = Unlocked | Readers nat | Writer

fun rw_lock :: "rwmutex \<Rightarrow> rwmutex option" where
  "rw_lock Unlocked = Some Writer"
| "rw_lock (Readers n) = (if n = 0 then Some Writer else None)"
| "rw_lock Writer = None"

fun rw_rlock :: "rwmutex \<Rightarrow> rwmutex option" where
  "rw_rlock Unlocked = Some (Readers 1)"
| "rw_rlock (Readers n) = Some (Readers (Suc n))"
| "rw_rlock Writer = None"

fun rw_runlock :: "rwmutex \<Rightarrow> rwmutex" where
  "rw_runlock (Readers n) = (if n \<le> 1 then Unlocked else Readers (n - 1))"
| "rw_runlock m = m"

fun rw_unlock :: "rwmutex \<Rightarrow> rwmutex" where
  "rw_unlock m = Unlocked"

subsection \<open>Bounded channels\<close>

text \<open>A buffered channel is the list of its elements, oldest first, and its capacity.\<close>

record 'a chan =
  items :: "'a list"
  capacity :: nat

definition chan_make :: "nat \<Rightarrow> 'a chan" where
  "chan_make n = \<lparr>items = [], capacity = n\<rparr>"

definition chan_len :: "'a chan \<Rightarrow> nat" where
  "chan_len c = length (items c)"

text \<open>The send of a \<open>select\<close> with a \<open>default\<close> branch: refused when the buffer is full.\<close>

definition chan_try_send :: "'a \<Rightarrow> 'a chan \<Rightarrow> 'a chan \<times> bool" where
  "chan_try_send x c =
     (if chan_len c < capacity c then (c\<lparr>items := items c @ [x]\<rparr>, True) else (c, False))"

definition chan_wf :: "'a chan \<Rightarrow> bool" where
  "chan_wf c \<longleftrightarrow> chan_len c \<le> capacity c"

lemma chan_try_send_wf: "chan_wf c \<Longrightarrow> chan_wf (fst (chan_try_send x c))"
  by (auto simp: chan_wf_def chan_try_send_def chan_len_def)

subsection \<open>Maps as association lists\<close>

lemma map_of_filter_key [alist_rules]:
  "map_of (filter (\<lambda>(k, v). P k) xs) k = (if P k then map_of xs k else None)"
  by (induction xs) auto

lemma length_delete_less [alist_rules]: "map_of xs k = Some v \<Longrightarrow> length (AList.delete k xs) < length xs"
proof (induction xs)
  case (Cons x xs)
  then show ?case
    by (cases x) (auto simp: le_imp_less_Suc length_filter_le AList.delete_eq split: if_splits)
qed simp

lemma dom_map_of_update [alist_rules]: "fst ` set (AList.update k v xs) = insert k (fst ` set xs)"
  by (simp add: dom_update)

lemma set_AList_update: "set (AList.update k v xs) \<subseteq> insert (k, v) (set xs)"
  by (induction xs) auto

lemma keys_delete [alist_rules]: "fst ` set (AList.delete k xs) = fst ` set xs - {k}"
  by (auto simp: AList.delete_eq)

lemma keys_filter [alist_rules]: "fst ` set (filter (\<lambda>(k, v). P k) xs) = {k \<in> fst ` set xs. P k}"
  by force

text \<open>The least key of a map, as the loops over \<open>range\<close> compute it.\<close>

fun least_key :: "int option \<Rightarrow> (int \<times> 'v) list \<Rightarrow> int option" where
  "least_key acc [] = acc"
| "least_key acc ((k, v) # xs) =
     least_key (case acc of None \<Rightarrow> Some k | Some m \<Rightarrow> if k < m then Some k else acc) xs"

lemma least_key_acc: "least_key (Some m) xs = Some (fold (\<lambda>(k, v) a. min k a) xs m)"
  by (induction xs arbitrary: m) (auto simp: min_def)

lemma fold_min_le: "fold (\<lambda>(k, v) a. min k a) xs (m :: int) \<le> m"
  by (induction xs arbitrary: m) (auto intro: order.trans [OF _ min.cobounded2])

lemma fold_min_lower: "k \<in> fst ` set xs \<Longrightarrow> fold (\<lambda>(k, v) a. min k a) xs (m :: int) \<le> k"
proof (induction xs arbitrary: m)
  case (Cons x xs)
  then show ?case
    using fold_min_le [of xs "min (fst x) m"] by (cases x) auto
qed simp

lemma fold_min_mem: "fold (\<lambda>(k, v) a. min k a) xs (m :: int) \<in> insert m (fst ` set xs)"
proof (induction xs arbitrary: m)
  case (Cons x xs)
  then show ?case
    using Cons [of "min (fst x) m"] by (cases x) (auto simp: min_def split: if_splits)
qed simp

lemma least_key_None [alist_rules]: "least_key None xs = None \<longleftrightarrow> xs = []"
  by (cases xs) (auto simp: least_key_acc)

lemma least_key_Some:
  assumes "least_key None xs = Some m"
  shows "m \<in> fst ` set xs" and "k \<in> fst ` set xs \<Longrightarrow> m \<le> k"
proof -
  from assms obtain k0 v0 ys where xs: "xs = (k0, v0) # ys"
    by (cases xs) auto
  with assms have m: "m = fold (\<lambda>(k, v) a. min k a) ys k0"
    by (simp add: least_key_acc)
  show "m \<in> fst ` set xs"
    using fold_min_mem [of ys k0] m xs by auto
  show "m \<le> k" if "k \<in> fst ` set xs"
    using that fold_min_lower [of k ys k0] fold_min_le [of ys k0] m xs by auto
qed

end
