(* ===== verification/Models.thy ===== *)
theory Models
  imports Prelude
begin

section \<open>The stored data (internal/models/types.go)\<close>

text \<open>
  \<open>BigInt\<close> wraps a nullable \<open>*big.Int\<close>, \<open>Uint256\<close> a 256-bit unsigned integer; \<open>Block\<close> and
  \<open>Transfer\<close> are the rows of the two tables. \<open>Value\<close> is what the driver stores in a NUMERIC
  column: the decimal text. The conversions of the third-party package
  \<open>holiman/uint256\<close> are the argument \<open>from_big\<close> of the functions that use them.
\<close>

type_synonym BigInt = "int option"
type_synonym u256 = "256 word"

record Block =
  Number :: int
  Hash :: string
  ParentHash :: string
  Timestamp :: u64
  GasLimit :: u64
  GasUsed :: u64
  BaseFeePerGas :: BigInt
  TransactionCount :: int

record Transfer =
  BlockNumber :: int
  TxHash :: string
  LogIndex :: u64
  From :: string
  To :: string
  TokenAddress :: string
  Symbol :: string
  Type :: string
  Amount :: u256

subsection \<open>Decimal text\<close>

text \<open>\<open>big.Int.String\<close> and \<open>big.Int.SetString(s, 10)\<close>.\<close>

definition digit_char :: "nat \<Rightarrow> char" where
  "digit_char d = char_of (48 + d)"

definition char_digit :: "char \<Rightarrow> nat option" where
  "char_digit c = (let n = of_char c :: nat in if 48 \<le> n \<and> n \<le> 57 then Some (n - 48) else None)"

fun dec_nat :: "nat \<Rightarrow> string" where
  "dec_nat n = (if n < 10 then [digit_char n] else dec_nat (n div 10) @ [digit_char (n mod 10)])"

declare dec_nat.simps [simp del]

definition big_string :: "int \<Rightarrow> string" where
  "big_string n = (if n < 0 then CHR ''-'' # dec_nat (nat (- n)) else dec_nat (nat n))"

fun parse_digits :: "nat \<Rightarrow> string \<Rightarrow> nat option" where
  "parse_digits acc [] = Some acc"
| "parse_digits acc (c # cs) =
     (case char_digit c of None \<Rightarrow> None | Some d \<Rightarrow> parse_digits (10 * acc + d) cs)"

definition parse_nat :: "string \<Rightarrow> nat option" where
  "parse_nat s = (if s = [] then None else parse_digits 0 s)"

definition SetString10 :: "string \<Rightarrow> int option" where
  "SetString10 s =
     (case s of
        [] \<Rightarrow> None
      | c # cs \<Rightarrow>
          if c = CHR ''-'' then map_option (\<lambda>n. - int n) (parse_nat cs)
          else if c = CHR ''+'' then map_option int (parse_nat cs)
          else map_option int (parse_nat s))"

subsection \<open>Constructors and column values\<close>

definition NewBigInt :: "int \<Rightarrow> BigInt" where
  "NewBigInt n = Some n"

definition NewBigIntFromString :: "string \<Rightarrow> BigInt \<times> bool" where
  "NewBigIntFromString s = (SetString10 s, SetString10 s \<noteq> None)"

definition BigInt_Value :: "BigInt \<Rightarrow> string" where
  "BigInt_Value b = (case b of None \<Rightarrow> ''0'' | Some n \<Rightarrow> big_string n)"

definition NewUint256 :: "u64 \<Rightarrow> u256" where
  "NewUint256 n = ucast n"

definition NewUint256FromBigInt :: "(int \<Rightarrow> u256 \<times> bool) \<Rightarrow> int option \<Rightarrow> u256" where
  "NewUint256FromBigInt from_big b =
     (case b of
        None \<Rightarrow> 0
      | Some n \<Rightarrow> (let (u, overflow) = from_big n in if overflow then - 1 else u))"

definition Uint256_String :: "u256 option \<Rightarrow> string" where
  "Uint256_String u = (case u of None \<Rightarrow> ''0'' | Some w \<Rightarrow> dec_nat (unat w))"

subsection \<open>Lemmas\<close>

lemma of_char_digit_char: "d < 10 \<Longrightarrow> (of_char (digit_char d) :: nat) = 48 + d"
  by (simp add: digit_char_def)

lemma char_digit_digit_char [simp]: "d < 10 \<Longrightarrow> char_digit (digit_char d) = Some d"
  by (simp add: char_digit_def of_char_digit_char)

lemma parse_digits_append:
  "parse_digits acc (xs @ ys) =
     (case parse_digits acc xs of None \<Rightarrow> None | Some n \<Rightarrow> parse_digits n ys)"
  by (induction xs arbitrary: acc) (auto split: option.splits)

lemma dec_nat_not_Nil [simp]: "dec_nat n \<noteq> []"
  by (subst dec_nat.simps) simp

lemma parse_digits_dec_nat: "parse_digits 0 (dec_nat n) = Some n"
proof (induction n rule: dec_nat.induct)
  case (1 n)
  show ?case
  proof (cases "n < 10")
    case True
    then show ?thesis by (subst dec_nat.simps) simp
  next
    case False
    with 1 have "parse_digits 0 (dec_nat (n div 10)) = Some (n div 10)" by simp
    with False show ?thesis
      by (subst dec_nat.simps) (simp add: parse_digits_append)
  qed
qed

lemma hd_dec_nat: "\<exists>d < 10. hd (dec_nat n) = digit_char d"
proof (induction n rule: dec_nat.induct)
  case (1 n)
  show ?case
  proof (cases "n < 10")
    case True
    then show ?thesis by (subst dec_nat.simps) auto
  next
    case False
    with 1 show ?thesis by (subst dec_nat.simps) simp
  qed
qed

lemma digit_char_no_sign: "d < 10 \<Longrightarrow> digit_char d \<noteq> CHR ''-'' \<and> digit_char d \<noteq> CHR ''+''"
  using of_char_digit_char [of d] by fastforce

lemma SetString10_big_string [simp]: "SetString10 (big_string n) = Some n"
proof (cases "n < 0")
  case True
  then show ?thesis
    by (simp add: big_string_def SetString10_def parse_nat_def parse_digits_dec_nat)
next
  case False
  obtain c cs where s: "dec_nat (nat n) = c # cs" by (cases "dec_nat (nat n)") auto
  with hd_dec_nat [of "nat n"] have "c \<noteq> CHR ''-'' \<and> c \<noteq> CHR ''+''"
    using digit_char_no_sign by (metis list.sel(1))
  with False s show ?thesis
    using parse_digits_dec_nat [of "nat n"] by (simp add: big_string_def SetString10_def parse_nat_def)
qed

lemma big_string_inj: "big_string m = big_string n \<longleftrightarrow> m = n"
  by (metis SetString10_big_string option.inject)

end
