(* ===== verification/Chain_Data.thy ===== *)
theory Chain_Data
  imports Models
begin

section \<open>What travels through the pipeline\<close>

text \<open>
  The values the fetcher hands to the sequencer, the sequencer to the processor and the
  processor to the writer. Blocks, transactions and logs are go-ethereum types; the records
  below hold what their accessors return (\<open>Block.Number()\<close>, \<open>Tx.To()\<close>, \<open>Log.Topics\<close>), with
  hashes and addresses as their hex text.
\<close>

record Tx =
  tx_Hash :: string
  tx_To :: "string option"
  tx_Value :: int
  tx_Gas :: u64
  tx_GasPrice :: int

record EthBlock =
  eb_Number :: int
  eb_Hash :: string
  eb_ParentHash :: string
  eb_Time :: u64
  eb_GasLimit :: u64
  eb_GasUsed :: u64
  eb_BaseFee :: "int option"
  eb_Transactions :: "Tx list"

record Log =
  log_Address :: string
  log_Topics :: "string list"
  log_Data :: "8 word list"
  log_BlockNumber :: u64
  log_TxHash :: string
  log_Index :: u64

record BlockData =
  bd_Number :: "int option"
  bd_RangeEnd :: "int option"
  bd_Block :: "EthBlock option"
  bd_Err :: "go_error option"
  bd_Logs :: "Log list"

record FetchJob =
  job_Start :: int
  job_End :: int

record PersistTask =
  task_Height :: u64
  task_Block :: Block
  task_Transfers :: "Transfer list"
  task_Sequence :: u64

definition getBlockNum :: "BlockData \<Rightarrow> int option" where
  "getBlockNum d =
     (case bd_Number d of
        Some n \<Rightarrow> Some n
      | None \<Rightarrow> (case bd_Block d of Some b \<Rightarrow> Some (eb_Number b) | None \<Rightarrow> None))"

text \<open>\<open>big.Int.Uint64\<close> of a block number.\<close>

definition num_u64 :: "int \<Rightarrow> u64" where
  "num_u64 n = word_of_int n"

lemma uint_num_u64 [heights]: "0 \<le> n \<Longrightarrow> n < 18446744073709551616 \<Longrightarrow> uint (num_u64 n) = n"
  by (simp add: num_u64_def u64_of_nat_uint)

text \<open>The text of an error, \<open>err.Error()\<close>.\<close>

fun error_text :: "go_error \<Rightarrow> string" where
  "error_text ErrReorgDetected = ''reorg detected: parent hash mismatch''"
| "error_text ErrReorgNeedRefetch = ''reorg detected: need to refetch from common ancestor''"
| "error_text (ReorgError n) = ''reorg detected at block '' @ big_string n"
| "error_text ContextCanceled = ''context canceled''"
| "error_text ContextDeadlineExceeded = ''context deadline exceeded''"
| "error_text ErrBlockNotYetAvailable = ''block not yet available''"
| "error_text (NotFound s) = s @ ''not found''"
| "error_text (OtherError s) = s"
| "error_text (Wrapped s e) = s @ '': '' @ error_text e"

end
