(* ===== verification/Go_Utils.thy ===== *)
theory Go_Utils
  imports Prelude
begin

section \<open>Overflow-safe height arithmetic (internal/engine/utils.go)\<close>

text \<open>
  Heights are \<open>uint64\<close>, lags are \<open>int64\<close>. The two helpers below are what every component
  uses to go from one to the other; both saturate.
\<close>

definition SafeInt64Diff :: "u64 \<Rightarrow> u64 \<Rightarrow> int" where
  "SafeInt64Diff a b =
     (if a \<ge> b then
        (let diff = a - b in
         if diff > 9223372036854775807 then 9223372036854775807 else wrap_i64 (uint diff))
      else
        (let diff = b - a in
         if diff > 9223372036854775808 then - 9223372036854775808
         else wrap_i64 (- wrap_i64 (uint diff))))"

definition SafeUint64ToInt64 :: "u64 \<Rightarrow> int" where
  "SafeUint64ToInt64 v =
     (if v > 9223372036854775807 then 9223372036854775807 else wrap_i64 (uint v))"

lemma SafeUint64ToInt64_eq [heights]: "SafeUint64ToInt64 v = min max_i64 (uint v)"
proof (cases "v > 9223372036854775807")
  case True
  then have "uint v > 9223372036854775807" by (simp add: word_less_def)
  with True show ?thesis by (simp add: SafeUint64ToInt64_def max_i64_def)
next
  case False
  then have "uint v \<le> 9223372036854775807" by (simp add: word_less_def)
  with False show ?thesis
    by (simp add: SafeUint64ToInt64_def wrap_i64_id max_i64_def min_i64_def
        order.trans [OF _ uint_u64_bounds(1)])
qed

lemma SafeInt64Diff_ge:
  assumes "b \<le> a"
  shows "SafeInt64Diff a b = min max_i64 (uint a - uint b)"
proof -
  have d: "uint (a - b) = uint a - uint b" using assms by (rule uint_diff_le)
  have "SafeInt64Diff a b = SafeUint64ToInt64 (a - b)"
    using assms by (simp add: SafeInt64Diff_def SafeUint64ToInt64_def Let_def)
  with d show ?thesis by (simp add: SafeUint64ToInt64_eq)
qed

lemma SafeInt64Diff_less:
  assumes "a < b"
  shows "SafeInt64Diff a b = max min_i64 (uint a - uint b)"
proof -
  have d: "uint (b - a) = uint b - uint a" using assms by (simp add: uint_diff_le)
  have pos: "0 < uint b - uint a" using assms by (simp add: word_less_def)
  have na: "\<not> b \<le> a" using assms by simp
  show ?thesis
  proof (cases "b - a > 9223372036854775808")
    case True
    then have "uint b - uint a > 9223372036854775808" by (simp add: word_less_def d)
    with True na show ?thesis by (simp add: SafeInt64Diff_def min_i64_def)
  next
    case False
    then have le: "uint b - uint a \<le> 9223372036854775808" by (simp add: word_less_def d)
    consider "uint b - uint a = 9223372036854775808" | "uint b - uint a \<le> 9223372036854775807"
      using le by linarith
    then show ?thesis
    proof cases
      case 1
      with False na d show ?thesis by (simp add: SafeInt64Diff_def wrap_i64_def min_i64_def)
    next
      case 2
      with False na d pos show ?thesis
        by (simp add: SafeInt64Diff_def wrap_i64_id max_i64_def min_i64_def)
    qed
  qed
qed

lemma SafeInt64Diff_clamp [heights]:
  "SafeInt64Diff a b = max min_i64 (min max_i64 (uint a - uint b))"
proof (cases "b \<le> a")
  case True
  then have "0 \<le> uint a - uint b" by (simp add: word_le_def)
  with True show ?thesis by (simp add: SafeInt64Diff_ge min_i64_def max_i64_def)
next
  case False
  then have "uint a - uint b \<le> 0" by (simp add: word_le_def)
  with False show ?thesis by (simp add: SafeInt64Diff_less min_i64_def max_i64_def)
qed

subsection \<open>ASCII case (package strings)\<close>

text \<open>\<open>strings.ToLower\<close> and \<open>strings.EqualFold\<close> on the ASCII text of addresses and hashes.\<close>

definition lower_char :: "char \<Rightarrow> char" where
  "lower_char c = (let n = of_char c :: nat in if 65 \<le> n \<and> n \<le> 90 then char_of (n + 32) else c)"

definition ToLower :: "string \<Rightarrow> string" where
  "ToLower s = map lower_char s"

definition EqualFold :: "string \<Rightarrow> string \<Rightarrow> bool" where
  "EqualFold a b \<longleftrightarrow> ToLower a = ToLower b"

text \<open>\<open>strings.Contains\<close>.\<close>

definition contains :: "string \<Rightarrow> string \<Rightarrow> bool" where
  "contains s sub \<longleftrightarrow> (\<exists>i \<in> {0..length s}. take (length sub) (drop i s) = sub)"

lemma lower_char_idem [simp]: "lower_char (lower_char c) = lower_char c"
  by (simp add: lower_char_def Let_def)

lemma ToLower_idem [simp]: "ToLower (ToLower s) = ToLower s"
  by (simp add: ToLower_def)

lemma length_ToLower [simp]: "length (ToLower s) = length s"
  by (simp add: ToLower_def)

lemma EqualFold_length: "EqualFold a b \<Longrightarrow> length a = length b"
  unfolding EqualFold_def by (metis length_ToLower)

end
