(* ===== verification/Fetcher.thy ===== *)
theory Fetcher
  imports Chain_Data Go_Utils
begin

section \<open>The fetcher (internal/engine/fetcher\_*.go)\<close>

text \<open>
  \<open>Schedule\<close> cuts a range into jobs, the workers fetch the logs of a job's range and report
  every block of it on the result channel.

  \<^item> \<open>f_jobs\<close> and \<open>f_Results\<close> are the two channels. The blocking sends are resolved by an
    argument that says for each send which branch of its \<open>select\<close> fires; the consumers of the
    channels run concurrently, so an operation returns what it has sent.
  \<^item> The RPC pool (\<open>pool_logs\<close>, \<open>pool_block\<close>, \<open>pool_header\<close>) and the limiters of
    \<open>golang.org/x/time/rate\<close> (\<open>wait_n\<close>) are arguments, indexed by the attempt.
  \<^item> \<open>fetch_cmd\<close> lists the commands dispatched to the orchestrator.
\<close>

text \<open>A limiter of \<open>golang.org/x/time/rate\<close>: its limit (\<open>None\<close> is \<open>rate.Inf\<close>) and burst.\<close>

record rate_limiter =
  rl_limit :: "rat option"
  rl_burst :: int

record Fetcher =
  f_concurrency :: nat
  f_jobs :: "FetchJob chan"
  f_Results :: "BlockData chan"
  f_limiter :: rate_limiter
  f_throughput :: rate_limiter
  f_bpsLimiter :: rate_limiter
  f_paused :: bool
  f_stopped :: bool
  f_headerOnlyMode :: bool
  f_watchedAddresses :: "string list"
  f_sequencer :: "nat option"

definition QueueDepth :: "Fetcher \<Rightarrow> nat" where
  "QueueDepth f = chan_len (f_jobs f)"

definition Fetcher_ResultsDepth :: "Fetcher \<Rightarrow> nat" where
  "Fetcher_ResultsDepth f = chan_len (f_Results f)"

definition JobsCapacity :: "Fetcher \<Rightarrow> nat" where
  "JobsCapacity f = capacity (f_jobs f)"

definition ResultsCapacity :: "Fetcher \<Rightarrow> nat" where
  "ResultsCapacity f = capacity (f_Results f)"

definition Fetcher_ClearJobs :: "Fetcher \<Rightarrow> Fetcher" where
  "Fetcher_ClearJobs f = f\<lparr>f_jobs := (f_jobs f)\<lparr>items := []\<rparr>\<rparr>"

definition SetHeaderOnlyMode :: "bool \<Rightarrow> Fetcher \<Rightarrow> Fetcher" where
  "SetHeaderOnlyMode b f = f\<lparr>f_headerOnlyMode := b\<rparr>"

definition getFetcherResultsChannelSize :: "string \<Rightarrow> nat" where
  "getFetcherResultsChannelSize val =
     (if val = [] then 15000
      else case SetString10 val of
        None \<Rightarrow> 15000
      | Some n \<Rightarrow> if n \<le> 0 \<or> n > max_i64 then 15000 else nat n)"

definition unlimited :: rate_limiter where
  "unlimited = \<lparr>rl_limit = None, rl_burst = 0\<rparr>"

definition NewFetcherWithLimiter :: "nat \<Rightarrow> rate_limiter \<Rightarrow> int \<Rightarrow> string \<Rightarrow> Fetcher" where
  "NewFetcherWithLimiter conc industrial burst env_size =
     \<lparr>f_concurrency = conc, f_jobs = chan_make (conc * 10),
      f_Results = chan_make (getFetcherResultsChannelSize env_size),
      f_limiter = (if burst > 0 then industrial\<lparr>rl_burst := burst\<rparr> else industrial),
      f_throughput = unlimited, f_bpsLimiter = unlimited, f_paused = False, f_stopped = False,
      f_headerOnlyMode = False, f_watchedAddresses = [], f_sequencer = None\<rparr>"

definition Fetcher_SetWatchedAddresses :: "(string \<Rightarrow> string) \<Rightarrow> string list \<Rightarrow> Fetcher \<Rightarrow> Fetcher" where
  "Fetcher_SetWatchedAddresses hexToAddress addrs f =
     f\<lparr>f_watchedAddresses := map hexToAddress (filter (\<lambda>a. a \<noteq> []) addrs)\<rparr>"

text \<open>\<open>tps\<close> is \<open>None\<close> for NaN.\<close>

definition SetThroughputLimit :: "rat option \<Rightarrow> Fetcher \<Rightarrow> Fetcher" where
  "SetThroughputLimit tps f =
     (case tps of
        None \<Rightarrow> f\<lparr>f_throughput := unlimited, f_bpsLimiter := unlimited\<rparr>
      | Some t \<Rightarrow>
          if t \<le> 0 then f\<lparr>f_throughput := unlimited, f_bpsLimiter := unlimited\<rparr>
          else let burst = min 10000 (max 1 \<lfloor>t\<rfloor>)
            in f\<lparr>f_throughput := \<lparr>rl_limit = Some t, rl_burst = burst\<rparr>,
                 f_bpsLimiter := \<lparr>rl_limit = Some (t * 10), rl_burst = burst * 10\<rparr>\<rparr>)"

subsection \<open>Control (fetcher\_control.go)\<close>

definition Fetcher_Stop :: "Fetcher \<Rightarrow> Fetcher" where
  "Fetcher_Stop f = (if f_stopped f then f else f\<lparr>f_stopped := True, f_jobs := (f_jobs f)\<lparr>items := []\<rparr>\<rparr>)"

definition Pause :: "Fetcher \<Rightarrow> Fetcher" where
  "Pause f = (if \<not> f_paused f then f\<lparr>f_paused := True\<rparr> else f)"

definition Resume :: "Fetcher \<Rightarrow> Fetcher" where
  "Resume f = (if f_paused f then f\<lparr>f_paused := False\<rparr> else f)"

definition IsPaused :: "Fetcher \<Rightarrow> bool" where
  "IsPaused f = f_paused f"

definition SetRateLimit :: "int \<Rightarrow> int \<Rightarrow> Fetcher \<Rightarrow> Fetcher" where
  "SetRateLimit rps burst f = f\<lparr>f_limiter := \<lparr>rl_limit = Some (of_int rps), rl_burst = burst\<rparr>\<rparr>"

subsection \<open>Scheduling (fetcher\_schedule.go)\<close>

datatype send_choice = Sent | CtxFired go_error | StopFired

text \<open>The loop of \<open>Schedule\<close>; \<open>pick i\<close> is the branch taken by the \<open>select\<close> of job \<open>i\<close>.\<close>

function schedule_loop :: "(nat \<Rightarrow> send_choice) \<Rightarrow> nat \<Rightarrow> int \<Rightarrow> int \<Rightarrow> FetchJob list \<times> go_error option" where
  "schedule_loop pick i current end' =
     (if current \<le> end' then
        (let batchEnd = (if current + 50 > end' then end' else current + 50)
         in case pick i of
              CtxFired e \<Rightarrow> ([], Some e)
            | StopFired \<Rightarrow> ([], Some (OtherError ''fetcher stopped''))
            | Sent \<Rightarrow>
                (let (jobs, r) = schedule_loop pick (Suc i) (batchEnd + 1) end'
                 in (\<lparr>job_Start = current, job_End = batchEnd\<rparr> # jobs, r)))
      else ([], None))"
  by pat_completeness auto
termination
  by (relation "measure (\<lambda>(pick, i, current, end'). nat (end' + 1 - current))") (auto split: if_splits)

declare schedule_loop.simps [simp del]

definition Schedule :: "u64 \<Rightarrow> (nat \<Rightarrow> send_choice) \<Rightarrow> int \<Rightarrow> int \<Rightarrow> Fetcher \<Rightarrow> FetchJob list \<times> go_error option" where
  "Schedule latest pick start end0 f =
     (let chainHeight = SafeUint64ToInt64 latest in
      if start > chainHeight then ([], Some ErrBlockNotYetAvailable)
      else
        let end' = (if end0 > chainHeight then chainHeight else end0) in
        if start > end' then ([], None)
        else if chan_len (f_jobs f) > capacity (f_jobs f) * 90 div 100
        then ([], Some (OtherError ''fetcher jobs queue backpressure''))
        else if chan_len (f_Results f) > capacity (f_Results f) * 90 div 100
        then ([], Some (OtherError ''fetcher results channel backpressure''))
        else if (case f_sequencer f of None \<Rightarrow> False | Some n \<Rightarrow> n > 2000)
        then ([], Some (OtherError ''sequencer buffer backpressure''))
        else schedule_loop pick 0 start end')"

subsection \<open>Fetching a range (fetcher\_block.go)\<close>

datatype fetch_cmd = FetchSuccess | FetchFailed | NotifyFetched u64 | NotifyFetchProgress u64

text \<open>The test on the error's text.\<close>

definition isNotFound :: "go_error option \<Rightarrow> bool" where
  "isNotFound err =
     (case err of
        None \<Rightarrow> False
      | Some e \<Rightarrow> contains (ToLower (error_text e)) ''not found'' \<or> contains (ToLower (error_text e)) ''404'')"

text \<open>
  The retry loop shared by \<open>FilterLogs\<close> and \<open>BlockByNumber\<close>: \<open>k\<close> attempts are left and \<open>last_err\<close>
  is the result so far; \<open>ctx_done i\<close> says that the context fires during the backoff of attempt
  \<open>i\<close>. The result is \<open>None\<close> when the worker returns, else the last answer; \<open>on_ok\<close> are the commands
  dispatched on success.
\<close>

fun elegant_retry ::
    "(nat \<Rightarrow> go_error + 'a) \<Rightarrow> (nat \<Rightarrow> bool) \<Rightarrow> fetch_cmd list \<Rightarrow> nat \<Rightarrow> nat \<Rightarrow> go_error + 'a
      \<Rightarrow> (go_error + 'a) option \<times> fetch_cmd list" where
  "elegant_retry call ctx_done on_ok i 0 last_res = (Some last_res, [])"
| "elegant_retry call ctx_done on_ok i (Suc k) last_res =
     (case call i of
        Inr v \<Rightarrow> (Some (Inr v), on_ok)
      | Inl e \<Rightarrow>
          if isNotFound (Some e)
          then (if ctx_done i then (None, [FetchFailed])
                else let (r, cs) = elegant_retry call ctx_done on_ok (Suc i) k (Inl e) in (r, FetchFailed # cs))
          else (Some (Inl e), []))"

record fetch_env =
  pool_logs :: "nat \<Rightarrow> go_error + Log list"
  pool_block :: "int \<Rightarrow> nat \<Rightarrow> go_error + EthBlock"
  logs_ctx :: "nat \<Rightarrow> bool"
  block_ctx :: "int \<Rightarrow> nat \<Rightarrow> bool"
  send_ok :: "int \<Rightarrow> bool"
  wait_n :: "rate_limiter \<Rightarrow> nat \<Rightarrow> int \<Rightarrow> bool"

text \<open>\<open>sendResult\<close>: throughput tokens, pacemaker (never refuses), then the blocking send.\<close>

definition sendResult :: "fetch_env \<Rightarrow> Fetcher \<Rightarrow> BlockData \<Rightarrow> int \<Rightarrow> bool" where
  "sendResult E f d bn =
     (let tokens = (if length (bd_Logs d) = 0 then 1 else length (bd_Logs d))
      in wait_n E (f_throughput f) tokens bn \<and> send_ok E bn)"

definition logs_of :: "Log list \<Rightarrow> int \<Rightarrow> Log list" where
  "logs_of logs bn = filter (\<lambda>v. log_BlockNumber v = num_u64 bn) logs"

text \<open>One block of the range: \<open>None\<close> when the worker gives up on the whole job.\<close>

definition fetch_one ::
    "fetch_env \<Rightarrow> Log list \<Rightarrow> int \<Rightarrow> int \<Rightarrow> BlockData option \<times> fetch_cmd list" where
  "fetch_one E logs end' bn =
     (let blockLogs = logs_of logs bn;
          base = \<lparr>bd_Number = Some bn, bd_RangeEnd = Some end', bd_Block = None, bd_Err = None, bd_Logs = blockLogs\<rparr>
      in if blockLogs \<noteq> [] \<or> bn = end'
         then (case elegant_retry (pool_block E bn) (block_ctx E bn) [FetchSuccess] 0 5 (Inl (OtherError [])) of
                 (None, cs) \<Rightarrow> (None, cs)
               | (Some (Inr b), cs) \<Rightarrow> (Some (base\<lparr>bd_Block := Some b\<rparr>), cs)
               | (Some (Inl e), cs) \<Rightarrow> (Some (base\<lparr>bd_Err := Some e\<rparr>), cs))
         else (Some base, []))"

fun report_range ::
    "fetch_env \<Rightarrow> Fetcher \<Rightarrow> Log list \<Rightarrow> int \<Rightarrow> int list \<Rightarrow> BlockData list \<times> fetch_cmd list" where
  "report_range E f logs end' [] = ([], [])"
| "report_range E f logs end' (bn # bns) =
     (case fetch_one E logs end' bn of
        (None, cs) \<Rightarrow> ([], cs)
      | (Some d, cs) \<Rightarrow>
          if sendResult E f d bn
          then (let (ds, cs') = report_range E f logs end' bns
                in (d # ds, cs @ NotifyFetchProgress (num_u64 bn) # cs'))
          else ([], cs))"

definition fetchRangeWithLogs ::
    "fetch_env \<Rightarrow> Fetcher \<Rightarrow> int \<Rightarrow> int \<Rightarrow> BlockData list \<times> fetch_cmd list" where
  "fetchRangeWithLogs E f start end' =
     (case elegant_retry (pool_logs E) (logs_ctx E) [FetchSuccess, NotifyFetched (num_u64 end')] 0 5 (Inl (OtherError [])) of
        (None, cs) \<Rightarrow> ([], cs)
      | (Some (Inl e), cs) \<Rightarrow>
          ((if send_ok E start
            then [\<lparr>bd_Number = Some start, bd_RangeEnd = Some end', bd_Block = None, bd_Err = Some e, bd_Logs = []\<rparr>]
            else []), cs)
      | (Some (Inr logs), cs) \<Rightarrow>
          (let (ds, cs') = report_range E f logs end' [start..end'] in (ds, cs @ cs')))"

text \<open>One job of a worker; \<open>limiter_err\<close> is the result of the rate limiter's \<open>Wait\<close>.\<close>

definition worker_job ::
    "fetch_env \<Rightarrow> go_error option \<Rightarrow> Fetcher \<Rightarrow> FetchJob \<Rightarrow> BlockData list \<times> fetch_cmd list" where
  "worker_job E limiter_err f j =
     (if f_stopped f then ([], [])
      else case limiter_err of
        Some e \<Rightarrow>
          ((if send_ok E (job_Start j)
            then [\<lparr>bd_Number = Some (job_Start j), bd_RangeEnd = Some (job_End j), bd_Block = None,
                   bd_Err = Some e, bd_Logs = []\<rparr>]
            else []), [])
      | None \<Rightarrow> fetchRangeWithLogs E f (job_Start j) (job_End j))"

end
