(* ===== verification/Fetcher_Props.thy ===== *)
theory Fetcher_Props
  imports Fetcher
begin

section \<open>What the fetcher promises\<close>

text \<open>
  Scheduling covers a range exactly and never asks for a block beyond the chain head; a worker
  reports a range in order without repetition; a throughput limit makes it drop blocks.
\<close>

subsection \<open>Scheduling\<close>

abbreviation job_range :: "FetchJob \<Rightarrow> int list" where
  "job_range j \<equiv> [job_Start j..job_End j]"

lemma schedule_loop_covers:
  "schedule_loop pick i current end' = (jobs, r) \<Longrightarrow>
     (\<exists>m. m \<le> max end' (current - 1) \<and> current - 1 \<le> m \<and> concat (map job_range jobs) = [current..m]
        \<and> (r = None \<longrightarrow> m = max end' (current - 1)))
     \<and> (\<forall>j \<in> set jobs. job_Start j \<le> job_End j \<and> job_End j \<le> job_Start j + 50)"
proof (induction pick i current end' arbitrary: jobs r rule: schedule_loop.induct)
  case (1 pick i current end')
  show ?case
  proof (cases "current \<le> end' \<and> pick i = Sent")
    case False
    with 1(2) have "jobs = []" "r = None \<Longrightarrow> \<not> current \<le> end'"
      by (auto simp: schedule_loop.simps [of pick i current end'] Let_def split: if_splits send_choice.splits)
    then show ?thesis by (intro conjI exI [of _ "current - 1"]) auto
  next
    case True
    define b where "b = (if current + 50 > end' then end' else current + 50)"
    have b: "current \<le> b" "b \<le> end'" "b \<le> current + 50" using True by (auto simp: b_def)
    obtain js r' where js: "schedule_loop pick (Suc i) (b + 1) end' = (js, r')" by fastforce
    have jobs: "jobs = \<lparr>job_Start = current, job_End = b\<rparr> # js" "r = r'"
      using 1(2) True js by (auto simp: schedule_loop.simps [of pick i current end'] b_def Let_def)
    obtain m where m: "m \<le> end'" "b \<le> m" "concat (map job_range js) = [b + 1..m]" "r' = None \<longrightarrow> m = end'"
        "\<forall>j \<in> set js. job_Start j \<le> job_End j \<and> job_End j \<le> job_Start j + 50"
      using 1(1) [OF _ b_def _ js] True b by auto
    have "[current..b] @ [b + 1..m] = [current..m]"
      using b m upto_split2 [of current b m] by simp
    with jobs m b True show ?thesis by (intro conjI exI [of _ m]) auto
  qed
qed

lemma schedule_loop_sent: "snd (schedule_loop (\<lambda>_. Sent) i current end') = None"
proof (induction "nat (end' + 1 - current)" arbitrary: i current rule: less_induct)
  case less
  show ?case
  proof (cases "current \<le> end'")
    case True
    define b where "b = (if current + 50 > end' then end' else current + 50)"
    have "nat (end' + 1 - (b + 1)) < nat (end' + 1 - current)" using True by (auto simp: b_def)
    from less.hyps [OF this] True show ?thesis
      by (subst schedule_loop.simps) (simp add: Let_def b_def split_beta)
  qed (subst schedule_loop.simps, simp)
qed

lemma schedule_range:
  assumes "Schedule latest pick start end0 f = (jobs, r)"
  shows "(\<exists>m \<le> min end0 (SafeUint64ToInt64 latest). concat (map job_range jobs) = [start..m])
    \<and> (r = None \<longrightarrow> concat (map job_range jobs) = [start..min end0 (SafeUint64ToInt64 latest)])
    \<and> (\<forall>j \<in> set jobs. job_Start j \<le> job_End j \<and> job_End j \<le> job_Start j + 50)"
proof -
  let ?e = "min end0 (SafeUint64ToInt64 latest)"
  consider (empty) "jobs = []" "r = None \<longrightarrow> ?e < start"
    | (loop) "schedule_loop pick 0 start ?e = (jobs, r)" "start \<le> ?e"
    using assms unfolding Schedule_def Let_def min_def
    by (auto split: if_splits option.splits)
  then show ?thesis
  proof cases
    case empty
    then show ?thesis by (auto intro: exI [of _ "min (start - 1) ?e"])
  next
    case loop
    with schedule_loop_covers [OF loop(1)] show ?thesis by auto
  qed
qed

text \<open>
  (C11) Scheduling covers the requested range, truncated to the chain head, exactly: read one
  after the other, the ranges of the jobs are the block numbers from the start on, in order,
  without gap, overlap or block beyond the head, all of them when \<open>Schedule\<close> returns no error
  (an initial part when it is interrupted); no job is empty or spans more than 51 blocks.
\<close>

theorem schedule_covers_range:
  assumes "Schedule latest pick start end0 f = (jobs, r)"
  shows "(\<exists>m \<le> min end0 (SafeUint64ToInt64 latest). concat (map job_range jobs) = [start..m])
    \<and> (r = None \<longrightarrow> concat (map job_range jobs) = [start..min end0 (SafeUint64ToInt64 latest)])
    \<and> (\<forall>j \<in> set jobs. job_Start j \<le> job_End j \<and> job_End j \<le> job_Start j + 50)"
  by (rule schedule_range [OF assms])

theorem schedule_covers_range_witness:
  "let f = NewFetcherWithLimiter 4 unlimited 0 []
   in \<exists>jobs. Schedule 120 (\<lambda>_. Sent) 10 500 f = (jobs, None) \<and> concat (map job_range jobs) = [10..120]"
proof -
  let ?f = "NewFetcherWithLimiter 4 unlimited 0 []"
  obtain jobs r where s: "Schedule 120 (\<lambda>_. Sent) 10 500 ?f = (jobs, r)" by fastforce
  have h: "SafeUint64ToInt64 120 = 120" by (simp add: SafeUint64ToInt64_eq max_i64_def)
  have "snd (Schedule 120 (\<lambda>_. Sent) 10 500 ?f) = None"
    by (simp add: Schedule_def h NewFetcherWithLimiter_def chan_make_def chan_len_def schedule_loop_sent)
  with s schedule_covers_range [OF s] h show ?thesis by (simp add: Let_def)
qed

subsection \<open>Reporting a range\<close>

lemma fetch_one_number:
  "fetch_one E logs end' bn = (Some d, cs) \<Longrightarrow>
     bd_Number d = Some bn \<and> bd_RangeEnd d = Some end' \<and> bd_Logs d = logs_of logs bn
     \<and> (bd_Block d = None \<and> bd_Err d = None \<longleftrightarrow> logs_of logs bn = [] \<and> bn \<noteq> end')"
  by (auto simp: fetch_one_def Let_def split: if_splits prod.splits option.splits sum.splits)

lemma report_range_prefix:
  "report_range E f logs end' bns = (ds, cs) \<Longrightarrow>
     \<exists>rest. bns = map (the \<circ> bd_Number) ds @ rest
       \<and> (\<forall>d \<in> set ds. bd_Number d \<noteq> None \<and> bd_Logs d = logs_of logs (the (bd_Number d))
            \<and> (bd_Block d = None \<and> bd_Err d = None \<longleftrightarrow> bd_Logs d = [] \<and> bd_Number d \<noteq> Some end')
            \<and> sendResult E f d (the (bd_Number d)))"
proof (induction bns arbitrary: ds cs)
  case (Cons bn bns)
  obtain d0 cs0 where one: "fetch_one E logs end' bn = (d0, cs0)" by fastforce
  show ?case
  proof (cases "\<exists>d. d0 = Some d \<and> sendResult E f d bn")
    case False
    with Cons.prems one have "ds = []" by (auto split: option.splits if_splits prod.splits)
    then show ?thesis by simp
  next
    case True
    then obtain d where d: "d0 = Some d" "sendResult E f d bn" by blast
    obtain ds' cs' where rest: "report_range E f logs end' bns = (ds', cs')" by fastforce
    have ds: "ds = d # ds'" using Cons.prems one d rest by simp
    have "bd_Number d = Some bn" "bd_Logs d = logs_of logs bn"
        "bd_Block d = None \<and> bd_Err d = None \<longleftrightarrow> bd_Logs d = [] \<and> bd_Number d \<noteq> Some end'"
      using fetch_one_number [of E logs end' bn d cs0] one d(1) by auto
    with Cons.IH [OF rest] ds d(2) show ?thesis by auto
  qed
qed simp

lemma upto_prefix: "[i..j] = xs @ ys \<Longrightarrow> xs = [i..i + int (length xs) - 1]"
proof (induction xs arbitrary: i)
  case (Cons x xs)
  then have "i \<le> j" by (metis append_is_Nil_conv list.discI upto_Nil2 linorder_not_less)
  then have "[i..j] = i # [i + 1..j]" by (rule upto_rec1)
  with Cons.prems have "x = i" "[i + 1..j] = xs @ ys" by auto
  with Cons.IH [of "i + 1"] show ?case by (simp add: upto_rec1 [of i "i + int (length xs)"] add.commute add.left_commute)
qed simp

lemma elegant_retry_returns:
  "\<forall>j. \<not> ctx_done j \<Longrightarrow> fst (elegant_retry call ctx_done on_ok i k last_res) \<noteq> None"
  by (induction call ctx_done on_ok i k last_res rule: elegant_retry.induct)
    (auto split: sum.splits prod.splits)

lemma report_range_complete:
  assumes "\<forall>n i. \<not> block_ctx E n i" and "\<forall>d n. sendResult E f d n"
  shows "length (fst (report_range E f logs end' bns)) = length bns"
proof (induction bns)
  case (Cons bn bns)
  have "fst (elegant_retry (pool_block E bn) (block_ctx E bn) [FetchSuccess] 0 5 (Inl (OtherError []))) \<noteq> None"
    using assms(1) by (intro elegant_retry_returns) simp
  then obtain r cs0 where "elegant_retry (pool_block E bn) (block_ctx E bn) [FetchSuccess] 0 5 (Inl (OtherError []))
      = (Some r, cs0)" by (metis prod.collapse option.exhaust)
  then have "fst (fetch_one E logs end' bn) \<noteq> None"
    by (cases r) (simp_all add: fetch_one_def Let_def)
  then obtain d cs where "fetch_one E logs end' bn = (Some d, cs)" by (metis prod.collapse option.exhaust)
  with Cons assms(2) show ?case by (auto split: prod.splits)
qed simp

text \<open>
  (C12) A worker that has the logs of its range reports consecutive blocks from the start of the
  range on, in order and once each, every one with exactly its own logs; a block without logs
  that is not the last of the range is reported without its block object. When neither the
  context nor a send fails, all blocks of the range are reported.
\<close>

theorem range_reported_in_order:
  assumes "fetchRangeWithLogs E f start end' = (ds, cs)"
    and "fst (elegant_retry (pool_logs E) (logs_ctx E) [FetchSuccess, NotifyFetched (num_u64 end')] 0 5 (Inl (OtherError [])))
      = Some (Inr logs)"
  shows "map bd_Number ds = map Some [start..start + int (length ds) - 1] \<and> length ds \<le> nat (end' - start + 1)
    \<and> (\<forall>d \<in> set ds. bd_Logs d = filter (\<lambda>v. log_BlockNumber v = num_u64 (the (bd_Number d))) logs
         \<and> (bd_Block d = None \<and> bd_Err d = None \<longleftrightarrow> bd_Logs d = [] \<and> bd_Number d \<noteq> Some end'))
    \<and> ((\<forall>n i. \<not> block_ctx E n i) \<and> (\<forall>d n. sendResult E f d n) \<longrightarrow> length ds = nat (end' - start + 1))"
proof -
  obtain cs1 where run: "report_range E f logs end' [start..end'] = (ds, cs1)"
    using assms by (auto simp: fetchRangeWithLogs_def Let_def split: prod.splits option.splits sum.splits)
  from report_range_prefix [OF run] obtain rest where
    pre: "[start..end'] = map (the \<circ> bd_Number) ds @ rest"
    and all: "\<forall>d \<in> set ds. bd_Number d \<noteq> None \<and> bd_Logs d = logs_of logs (the (bd_Number d))
       \<and> (bd_Block d = None \<and> bd_Err d = None \<longleftrightarrow> bd_Logs d = [] \<and> bd_Number d \<noteq> Some end')"
    by blast
  have "map bd_Number ds = map Some (map (the \<circ> bd_Number) ds)" using all by auto
  also have "\<dots> = map Some [start..start + int (length ds) - 1]"
    using upto_prefix [OF pre] by simp
  finally have nums: "map bd_Number ds = map Some [start..start + int (length ds) - 1]" .
  have "length ds \<le> length [start..end']" using arg_cong [OF pre, of length] by simp
  then have "length ds \<le> nat (end' - start + 1)" by simp
  moreover have "length ds = nat (end' - start + 1)"
    if "\<forall>n i. \<not> block_ctx E n i" and "\<forall>d n. sendResult E f d n"
    using report_range_complete [OF that, of logs end' "[start..end']"] run by simp
  ultimately show ?thesis using nums all unfolding logs_of_def by blast
qed

definition sample_fetcher :: Fetcher where
  "sample_fetcher =
     \<lparr>f_concurrency = 1, f_jobs = chan_make 1, f_Results = chan_make 1, f_limiter = unlimited,
      f_throughput = unlimited, f_bpsLimiter = unlimited, f_paused = False, f_stopped = False,
      f_headerOnlyMode = False, f_watchedAddresses = [], f_sequencer = None\<rparr>"

definition sample_fetch_env :: fetch_env where
  "sample_fetch_env =
     \<lparr>pool_logs = (\<lambda>i. Inr []),
      pool_block = (\<lambda>n i. Inr \<lparr>eb_Number = n, eb_Hash = ''h'', eb_ParentHash = ''p'', eb_Time = 0, eb_GasLimit = 0,
        eb_GasUsed = 0, eb_BaseFee = None, eb_Transactions = []\<rparr>),
      logs_ctx = (\<lambda>i. False), block_ctx = (\<lambda>n i. False), send_ok = (\<lambda>n. True),
      wait_n = (\<lambda>l n t. rl_limit l = None \<or> int n \<le> rl_burst l)\<rparr>"

theorem range_reported_in_order_witness:
  "map bd_Number (fst (fetchRangeWithLogs sample_fetch_env sample_fetcher 5 7))
     = [Some 5, Some 6, Some 7]"
proof -
  let ?f = "sample_fetcher"
  obtain ds cs where run: "fetchRangeWithLogs sample_fetch_env ?f 5 7 = (ds, cs)" by fastforce
  have ok: "(\<forall>n i. \<not> block_ctx sample_fetch_env n i) \<and> (\<forall>d n. sendResult sample_fetch_env ?f d n)"
    by (simp add: sample_fetch_env_def sample_fetcher_def sendResult_def unlimited_def)
  have logs: "fst (elegant_retry (pool_logs sample_fetch_env) (logs_ctx sample_fetch_env)
      [FetchSuccess, NotifyFetched (num_u64 7)] 0 5 (Inl (OtherError []))) = Some (Inr [])"
    by (simp add: sample_fetch_env_def eval_nat_numeral)
  from range_reported_in_order [OF run logs] ok run show ?thesis by (simp add: upto_rec1)
qed

text \<open>
  Under a throughput limit a worker drops data: \<open>WaitN\<close> refuses at once a request above the
  burst, so a block with more logs than the configured rate ends its job - neither it nor any
  later block of the range is reported, and no error is. (\<open>refuses\<close> is the documented
  behaviour of \<open>rate.Limiter.WaitN\<close>.)
\<close>

lemma throughput_limit_drops_blocks:
  assumes refuses: "\<forall>l n t. rl_limit l \<noteq> None \<and> rl_burst l < int n \<longrightarrow> \<not> wait_n E l n t"
    and "0 < tps" and "min 10000 (max 1 \<lfloor>tps\<rfloor>) < int (length (logs_of logs bn))"
    and "fetchRangeWithLogs E (SetThroughputLimit (Some tps) f) start end' = (ds, cs)"
    and "fst (elegant_retry (pool_logs E) (logs_ctx E) [FetchSuccess, NotifyFetched (num_u64 end')] 0 5 (Inl (OtherError [])))
      = Some (Inr logs)"
    and "start \<le> bn"
  shows "\<forall>d \<in> set ds. \<exists>n. bd_Number d = Some n \<and> n < bn"
proof -
  let ?f = "SetThroughputLimit (Some tps) f"
  obtain cs1 where "report_range E ?f logs end' [start..end'] = (ds, cs1)"
    using assms(4,5) by (auto simp: fetchRangeWithLogs_def Let_def split: prod.splits option.splits sum.splits)
  from report_range_prefix [OF this] obtain rest where
    pre: "[start..end'] = map (the \<circ> bd_Number) ds @ rest"
    and all: "\<forall>d \<in> set ds. bd_Number d \<noteq> None \<and> bd_Logs d = logs_of logs (the (bd_Number d))
       \<and> sendResult E ?f d (the (bd_Number d))" by blast
  have "bn \<notin> (the \<circ> bd_Number) ` set ds"
  proof
    assume "bn \<in> (the \<circ> bd_Number) ` set ds"
    then obtain d where d: "d \<in> set ds" "bn = the (bd_Number d)" by auto
    then have "bd_Logs d = logs_of logs bn" "sendResult E ?f d bn" using all by auto
    moreover have "\<not> wait_n E (f_throughput ?f) (length (logs_of logs bn)) bn"
      using refuses assms(2,3) by (simp add: SetThroughputLimit_def Let_def)
    moreover have "logs_of logs bn \<noteq> []" using assms(3) by auto
    ultimately show False by (simp add: sendResult_def Let_def)
  qed
  moreover have nums: "map (the \<circ> bd_Number) ds = [start..start + int (length ds) - 1]"
    using upto_prefix [OF pre] by simp
  ultimately have below: "start + int (length ds) - 1 < bn"
    using assms(6) by (metis atLeastAtMost_iff linorder_not_less set_map set_upto)
  show ?thesis
  proof
    fix d
    assume d: "d \<in> set ds"
    then have "the (bd_Number d) \<in> set (map (the \<circ> bd_Number) ds)" by auto
    then have "the (bd_Number d) < bn" using below unfolding nums by simp
    then show "\<exists>n. bd_Number d = Some n \<and> n < bn" using all d by auto
  qed
qed

end
