(* ===== verification/Global_State.thy ===== *)
theory Global_State
  imports Go_Utils
begin

section \<open>The process-wide state snapshot (internal/engine/global_state.go)\<close>

text \<open>
  \<open>GlobalState\<close> is guarded by one \<open>sync.RWMutex\<close>. The model keeps the mutex as a field: an
  operation takes and releases it as the code does, and returns \<open>None\<close> when the calling
  goroutine would wait for a lock that it holds itself.
\<close>

datatype SystemStateEnum =
    SystemStateUnknown
  | SystemStateIdle
  | SystemStateActive
  | SystemStateCatchingUp
  | SystemStateStalled
  | SystemStateHealing
  | SystemStateDegraded
  | SystemStateRunning
  | SystemStateOptimizing
  | SystemStateThrottled

fun SystemState_String :: "SystemStateEnum \<Rightarrow> string" where
  "SystemState_String SystemStateIdle = ''idle''"
| "SystemState_String SystemStateActive = ''active''"
| "SystemState_String SystemStateCatchingUp = ''catching_up''"
| "SystemState_String SystemStateStalled = ''stalled''"
| "SystemState_String SystemStateHealing = ''healing''"
| "SystemState_String SystemStateDegraded = ''degraded''"
| "SystemState_String SystemStateRunning = ''running''"
| "SystemState_String SystemStateOptimizing = ''optimizing''"
| "SystemState_String SystemStateThrottled = ''throttled''"
| "SystemState_String SystemStateUnknown = ''unknown''"

record Snapshot =
  OnChainHeight :: u64
  DBCursor :: u64
  TotalTransfers :: u64
  SnapSystemState :: SystemStateEnum
  PipelineDepth :: int
  QuotaUsage :: rat
  LastUpdate :: time
  JobsQueueDepth :: int
  ResultsQueueDepth :: int
  SequencerBuffer :: int

record GlobalState =
  mu :: rwmutex
  onChainHeight :: u64
  dbCursor :: u64
  totalTransfers :: u64
  systemState :: SystemStateEnum
  pipelineDepth :: int
  quotaUsage :: rat
  lastUpdate :: time
  maxJobsCapacity :: int
  maxResultsCapacity :: int
  maxSequencerBuffer :: int
  jobsQueueDepth :: int
  resultsDepth :: int
  sequencerBuffer :: int
  gs_subscribers :: "Snapshot chan list"

definition initGlobalState :: "time \<Rightarrow> GlobalState" where
  "initGlobalState now =
     \<lparr>mu = Unlocked, onChainHeight = 0, dbCursor = 0, totalTransfers = 0,
      systemState = SystemStateUnknown, pipelineDepth = 0, quotaUsage = 0, lastUpdate = now,
      maxJobsCapacity = 200, maxResultsCapacity = 5000, maxSequencerBuffer = 1000,
      jobsQueueDepth = 0, resultsDepth = 0, sequencerBuffer = 0, gs_subscribers = []\<rparr>"

text \<open>The struct copy of \<open>Snapshot()\<close>, and \<open>Snapshot()\<close> itself under the read lock.\<close>

definition read_snapshot :: "GlobalState \<Rightarrow> Snapshot" where
  "read_snapshot s =
     \<lparr>OnChainHeight = onChainHeight s, DBCursor = dbCursor s, TotalTransfers = totalTransfers s,
      SnapSystemState = systemState s, PipelineDepth = pipelineDepth s, QuotaUsage = quotaUsage s,
      LastUpdate = lastUpdate s, JobsQueueDepth = jobsQueueDepth s,
      ResultsQueueDepth = resultsDepth s, SequencerBuffer = sequencerBuffer s\<rparr>"

definition GlobalState_Snapshot :: "GlobalState \<Rightarrow> (GlobalState \<times> Snapshot) option" where
  "GlobalState_Snapshot s =
     (case rw_rlock (mu s) of
        None \<Rightarrow> None
      | Some m \<Rightarrow> Some (s\<lparr>mu := rw_runlock m\<rparr>, read_snapshot s))"

definition notifySubscribers :: "GlobalState \<Rightarrow> GlobalState option" where
  "notifySubscribers s =
     (case GlobalState_Snapshot s of
        None \<Rightarrow> None
      | Some (s', snap) \<Rightarrow>
          Some (s'\<lparr>gs_subscribers := map (\<lambda>ch. fst (chan_try_send snap ch)) (gs_subscribers s')\<rparr>))"

text \<open>\<open>s.mu.Lock(); defer s.mu.Unlock()\<close> around a body.\<close>

definition with_lock :: "GlobalState \<Rightarrow> (GlobalState \<Rightarrow> GlobalState option) \<Rightarrow> GlobalState option" where
  "with_lock s body =
     (case rw_lock (mu s) of
        None \<Rightarrow> None
      | Some m \<Rightarrow>
          (case body (s\<lparr>mu := m\<rparr>) of
             None \<Rightarrow> None
           | Some s' \<Rightarrow> Some (s'\<lparr>mu := rw_unlock (mu s')\<rparr>)))"

definition GlobalState_UpdateChainHead :: "time \<Rightarrow> u64 \<Rightarrow> GlobalState \<Rightarrow> GlobalState option" where
  "GlobalState_UpdateChainHead now height s = with_lock s (\<lambda>s.
     if height > onChainHeight s
     then notifySubscribers (s\<lparr>onChainHeight := height, lastUpdate := now\<rparr>)
     else Some s)"

definition GlobalState_AdvanceDBCursor :: "time \<Rightarrow> u64 \<Rightarrow> GlobalState \<Rightarrow> GlobalState option" where
  "GlobalState_AdvanceDBCursor now newCursor s = with_lock s (\<lambda>s.
     if newCursor > dbCursor s
     then notifySubscribers (s\<lparr>dbCursor := newCursor, lastUpdate := now\<rparr>)
     else Some s)"

definition GlobalState_IncrementTransfers :: "time \<Rightarrow> u64 \<Rightarrow> GlobalState \<Rightarrow> GlobalState option" where
  "GlobalState_IncrementTransfers now count s = with_lock s (\<lambda>s.
     Some (s\<lparr>totalTransfers := totalTransfers s + count, lastUpdate := now\<rparr>))"

definition GlobalState_SetSystemState :: "time \<Rightarrow> SystemStateEnum \<Rightarrow> GlobalState \<Rightarrow> GlobalState option" where
  "GlobalState_SetSystemState now st s = with_lock s (\<lambda>s.
     if systemState s \<noteq> st
     then notifySubscribers (s\<lparr>systemState := st, lastUpdate := now\<rparr>)
     else Some s)"

definition UpdatePipelineDepth :: "time \<Rightarrow> int \<Rightarrow> int \<Rightarrow> int \<Rightarrow> GlobalState \<Rightarrow> GlobalState option" where
  "UpdatePipelineDepth now jobs results seqbuf s = with_lock s (\<lambda>s.
     Some (s\<lparr>jobsQueueDepth := jobs, resultsDepth := results, sequencerBuffer := seqbuf,
             lastUpdate := now, pipelineDepth := wrap_i32 (wrap_i32 (jobs + results) + seqbuf)\<rparr>))"

definition RecordQuota :: "time \<Rightarrow> rat \<Rightarrow> GlobalState \<Rightarrow> GlobalState option" where
  "RecordQuota now usage s = with_lock s (\<lambda>s. Some (s\<lparr>quotaUsage := usage, lastUpdate := now\<rparr>))"

definition GlobalState_Subscribe :: "GlobalState \<Rightarrow> GlobalState option" where
  "GlobalState_Subscribe s = with_lock s (\<lambda>s.
     Some (s\<lparr>gs_subscribers := gs_subscribers s @ [chan_make 100]\<rparr>))"

definition GetCapacity :: "GlobalState \<Rightarrow> int \<times> int \<times> int" where
  "GetCapacity s = (maxJobsCapacity s, maxResultsCapacity s, maxSequencerBuffer s)"

definition SetCapacity :: "int \<Rightarrow> int \<Rightarrow> int \<Rightarrow> GlobalState \<Rightarrow> GlobalState option" where
  "SetCapacity j r q s = with_lock s (\<lambda>s.
     Some (s\<lparr>maxJobsCapacity := j, maxResultsCapacity := r, maxSequencerBuffer := q\<rparr>))"

definition GlobalState_GetSyncLag :: "GlobalState \<Rightarrow> int" where
  "GlobalState_GetSyncLag s =
     (let snap = read_snapshot s in
      if OnChainHeight snap = 0 then 0 else SafeInt64Diff (OnChainHeight snap) (DBCursor snap))"

definition GlobalState_IsStalled :: "GlobalState \<Rightarrow> bool" where
  "GlobalState_IsStalled s = (SnapSystemState (read_snapshot s) = SystemStateStalled)"

subsection \<open>Which updates return\<close>

lemmas global_defs = with_lock_def notifySubscribers_def GlobalState_Snapshot_def

lemma with_lock_unlocked:
  "mu s = Unlocked \<Longrightarrow> with_lock s body =
     map_option (\<lambda>s'. s'\<lparr>mu := Unlocked\<rparr>) (body (s\<lparr>mu := Writer\<rparr>))"
  by (simp add: with_lock_def split: option.splits)

lemma notifySubscribers_writer [simp]: "mu s = Writer \<Longrightarrow> notifySubscribers s = None"
  by (simp add: global_defs)

lemma UpdatePipelineDepth_unlocked:
  assumes "mu s = Unlocked"
  shows "UpdatePipelineDepth now jobs results seqbuf s =
    Some (s\<lparr>mu := Unlocked, jobsQueueDepth := jobs, resultsDepth := results,
      sequencerBuffer := seqbuf, lastUpdate := now,
      pipelineDepth := wrap_i32 (wrap_i32 (jobs + results) + seqbuf)\<rparr>)"
  using assms by (simp add: UpdatePipelineDepth_def with_lock_unlocked)

text \<open>
  (C38) Every update of the global state that should reach its subscribers blocks forever: the
  notification takes the read lock while the same goroutine holds the write lock. Exactly the
  calls that change nothing return.
\<close>

theorem global_state_updates_deadlock:
  assumes "mu s = Unlocked"
  shows "(GlobalState_UpdateChainHead now h s = None \<longleftrightarrow> h > onChainHeight s)
    \<and> (GlobalState_AdvanceDBCursor now c s = None \<longleftrightarrow> c > dbCursor s)
    \<and> (GlobalState_SetSystemState now st s = None \<longleftrightarrow> st \<noteq> systemState s)"
  using assms
  by (auto simp: GlobalState_UpdateChainHead_def GlobalState_AdvanceDBCursor_def GlobalState_SetSystemState_def
      with_lock_unlocked)

theorem global_state_updates_deadlock_witness:
  "GlobalState_UpdateChainHead 5 100 (initGlobalState 0) = None"
proof -
  have "mu (initGlobalState 0) = Unlocked" by (simp add: initGlobalState_def)
  from global_state_updates_deadlock [OF this, of 5 100] show ?thesis by (simp add: initGlobalState_def)
qed

end
