(* ===== verification/Orchestrator.thy ===== *)
theory Orchestrator
  imports Chain_Data Global_State "HOL-Library.Multiset"
begin

section \<open>The coordinator actor (internal/engine/orchestrator_*.go)\<close>

text \<open>
  The orchestrator owns the coordinator state. Other components send commands over
  \<open>cmdChan\<close>; the actor loop takes them one at a time (\<open>process\<close>), and three tickers run the
  decision engine, merge chain-height updates and log telemetry. A few administrative calls
  (\<open>SnapToReality\<close>, \<open>ForceSetCursors\<close>, \<open>ResetToZero\<close>, the self-healer) write the state
  directly under the mutex.

  Clock readings are the argument \<open>now\<close>; the percentages, \<open>float64\<close> in the code, are exact
  rationals. \<open>data interface{}\<close> is the datatype \<open>MsgData\<close>, so a failed type assertion is a
  constructor that does not match.
\<close>

subsection \<open>Messages and state (orchestrator_types.go)\<close>

datatype MsgType =
    CmdUpdateChainHeight
  | CmdCommitBatch
  | CmdCommitDisk
  | CmdResetCursor
  | CmdIncrementTransfers
  | CmdToggleEcoMode
  | CmdSetSystemState
  | CmdFetchFailed
  | CmdFetchSuccess
  | CmdNotifyFetched
  | CmdNotifyFetchProgress
  | CmdLogEvent
  | ReqGetStatus
  | ReqGetSnapshot
  | CmdRecordUserActivity

fun MsgType_String :: "MsgType \<Rightarrow> string" where
  "MsgType_String CmdUpdateChainHeight = ''UpdateChainHeight''"
| "MsgType_String CmdCommitBatch = ''CommitBatch''"
| "MsgType_String CmdCommitDisk = ''CommitDisk''"
| "MsgType_String CmdResetCursor = ''ResetCursor''"
| "MsgType_String CmdIncrementTransfers = ''IncrementTransfers''"
| "MsgType_String CmdToggleEcoMode = ''ToggleEcoMode''"
| "MsgType_String CmdSetSystemState = ''SetSystemState''"
| "MsgType_String CmdFetchFailed = ''FetchFailed''"
| "MsgType_String CmdFetchSuccess = ''FetchSuccess''"
| "MsgType_String CmdNotifyFetched = ''NotifyFetched''"
| "MsgType_String CmdNotifyFetchProgress = ''NotifyFetchProgress''"
| "MsgType_String CmdLogEvent = ''LogEvent''"
| "MsgType_String ReqGetStatus = ''GetStatus''"
| "MsgType_String ReqGetSnapshot = ''GetSnapshot''"
| "MsgType_String CmdRecordUserActivity = ''Unknown''"

record LogEvent =
  ev_level :: string
  ev_msg :: string
  ev_ts :: time
  ev_details :: "string list"

datatype MsgData =
    DNil
  | DUint64 u64
  | DString string
  | DBool bool
  | DSystemState SystemStateEnum
  | DTask PersistTask
  | DLog LogEvent

record Message =
  msg_Type :: MsgType
  msg_Data :: MsgData
  msg_Reply :: bool
  msg_Sequence :: u64

record CoordinatorState =
  LatestHeight :: u64
  TargetHeight :: u64
  FetchedHeight :: u64
  SyncedCursor :: u64
  TransferCount :: u64
  IsEcoMode :: bool
  Progress :: rat
  SystemState :: SystemStateEnum
  UpdatedAt :: time
  LastUserActivity :: time
  SafetyBuffer :: u64
  SuccessCount :: u64
  JobsDepth :: int
  ResultsDepth :: int
  LogEntry :: "LogEvent option"

text \<open>
  \<open>asyncWriter\<close> is the writer's task channel and \<open>fetcher\<close> the fetcher's job channel with the
  depth of its result channel; \<open>None\<close> is the nil reference. \<open>broadcastDropped\<close> is the metric
  counter of \<open>updateProgressAndSnapshot\<close>.
\<close>

record Orchestrator =
  cmdChan :: "Message chan"
  ostate :: CoordinatorState
  snapshot :: CoordinatorState
  msgSeq :: u64
  ctxDone :: bool
  broadcastCh :: "CoordinatorState chan"
  subscribers :: "CoordinatorState chan list"
  pendingHeightUpdate :: "u64 option"
  lastHeightMergeTime :: time
  asyncWriter :: "PersistTask chan option"
  fetcher :: "(FetchJob chan \<times> nat) option"
  initialSafetyBuffer :: "u64 option"
  broadcastDropped :: nat

abbreviation upd_state :: "(CoordinatorState \<Rightarrow> CoordinatorState) \<Rightarrow> Orchestrator \<Rightarrow> Orchestrator" where
  "upd_state f o' \<equiv> o'\<lparr>ostate := f (ostate o')\<rparr>"

subsection \<open>Construction and administrative writes (orchestrator\_core.go)\<close>

definition fresh_state :: "time \<Rightarrow> u64 \<Rightarrow> CoordinatorState" where
  "fresh_state now buf =
     \<lparr>LatestHeight = 0, TargetHeight = 0, FetchedHeight = 0, SyncedCursor = 0, TransferCount = 0,
      IsEcoMode = False, Progress = 0, SystemState = SystemStateUnknown, UpdatedAt = now,
      LastUserActivity = now, SafetyBuffer = buf, SuccessCount = 0, JobsDepth = 0,
      ResultsDepth = 0, LogEntry = None\<rparr>"

definition zero_state :: CoordinatorState where
  "zero_state = (fresh_state 0 0)"

definition newOrchestrator :: "time \<Rightarrow> Orchestrator" where
  "newOrchestrator now =
     \<lparr>cmdChan = chan_make 50000, ostate = fresh_state now 1, snapshot = zero_state, msgSeq = 0,
      ctxDone = False, broadcastCh = chan_make 1000, subscribers = [], pendingHeightUpdate = None,
      lastHeightMergeTime = now, asyncWriter = None, fetcher = None, initialSafetyBuffer = None,
      broadcastDropped = 0\<rparr>"

definition Orchestrator_Init :: "(FetchJob chan \<times> nat) option \<Rightarrow> u64 \<Rightarrow> Orchestrator \<Rightarrow> Orchestrator" where
  "Orchestrator_Init f buf o' =
     upd_state (\<lambda>s. s\<lparr>SafetyBuffer := buf\<rparr>) (o'\<lparr>fetcher := f, initialSafetyBuffer := Some buf\<rparr>)"

text \<open>
  \<open>LoadInitialState\<close>: the two queries are arguments, \<open>None\<close> for a failed one. The cursor is the
  checkpoint, or the highest stored block where the checkpoint is missing or \<open>''0''\<close>.
\<close>

definition LoadInitialState :: "string option \<Rightarrow> int option \<Rightarrow> Orchestrator \<Rightarrow> Orchestrator" where
  "LoadInitialState checkpoint maxInDB o' =
     (let last = (case checkpoint of None \<Rightarrow> '''' | Some c \<Rightarrow> c);
          last = (if checkpoint = None \<or> last = '''' \<or> last = ''0'' then
                    (case maxInDB of
                       Some m \<Rightarrow> if m > 0 then big_string m else last
                     | None \<Rightarrow> last)
                  else last)
      in if last \<noteq> '''' \<and> last \<noteq> ''0'' then
           (case SetString10 last of
              None \<Rightarrow> o'
            | Some height \<Rightarrow>
                (let st = (ostate o')\<lparr>SyncedCursor := num_u64 height\<rparr>
                 in o'\<lparr>ostate := st, snapshot := st\<rparr>))
         else o')"

definition SetAsyncWriter :: "PersistTask chan \<Rightarrow> Orchestrator \<Rightarrow> Orchestrator" where
  "SetAsyncWriter w o' = o'\<lparr>asyncWriter := Some w\<rparr>"

definition RestoreState :: "CoordinatorState \<Rightarrow> Orchestrator \<Rightarrow> Orchestrator" where
  "RestoreState st o' = o'\<lparr>ostate := st, snapshot := st\<rparr>"

definition set_cursors :: "u64 \<Rightarrow> CoordinatorState \<Rightarrow> CoordinatorState" where
  "set_cursors h s = s\<lparr>LatestHeight := h, FetchedHeight := h, SyncedCursor := h, TargetHeight := h\<rparr>"

definition ClearJobs :: "FetchJob chan \<Rightarrow> FetchJob chan" where
  "ClearJobs jobs = jobs\<lparr>items := []\<rparr>"

definition clear_fetcher :: "Orchestrator \<Rightarrow> Orchestrator" where
  "clear_fetcher o' = o'\<lparr>fetcher := map_option (\<lambda>(jobs, r). (ClearJobs jobs, r)) (fetcher o')\<rparr>"

definition SnapToReality :: "u64 \<Rightarrow> Orchestrator \<Rightarrow> Orchestrator" where
  "SnapToReality rpcHeight o' =
     (if LatestHeight (ostate o') > rpcHeight + 1000
      then (let st = set_cursors rpcHeight (ostate o') in o'\<lparr>ostate := st, snapshot := st\<rparr>)
      else o')"

definition ForceSetCursors :: "u64 \<Rightarrow> Orchestrator \<Rightarrow> Orchestrator" where
  "ForceSetCursors height o' =
     (let st = set_cursors height (ostate o')
      in clear_fetcher (o'\<lparr>ostate := st, snapshot := st\<rparr>))"

definition ResetToZero :: "Orchestrator \<Rightarrow> Orchestrator" where
  "ResetToZero o' =
     (let st = (ostate o')\<lparr>SyncedCursor := 0, FetchedHeight := 0, LatestHeight := 0, TargetHeight := 0\<rparr>
      in clear_fetcher (o'\<lparr>ostate := st, snapshot := st\<rparr>))"

definition Orchestrator_Reset :: "time \<Rightarrow> Orchestrator \<Rightarrow> Orchestrator" where
  "Orchestrator_Reset now o' =
     (let st = fresh_state now (case initialSafetyBuffer o' of None \<Rightarrow> 1 | Some b \<Rightarrow> b)
      in o'\<lparr>ostate := st, snapshot := st\<rparr>)"

subsection \<open>Message handlers (orchestrator\_loop.go)\<close>

definition handleUpdateChainHeight :: "time \<Rightarrow> MsgData \<Rightarrow> Orchestrator \<Rightarrow> Orchestrator" where
  "handleUpdateChainHeight now d o' =
     (case d of
        DUint64 h \<Rightarrow>
          if h > LatestHeight (ostate o')
          then upd_state (\<lambda>s. s\<lparr>TargetHeight :=
                 (if h > SafetyBuffer s then h - SafetyBuffer s else 0)\<rparr>)
               (o'\<lparr>pendingHeightUpdate := Some h, lastHeightMergeTime := now\<rparr>)
          else o'
      | _ \<Rightarrow> o')"

definition handleFetchFailed :: "MsgData \<Rightarrow> Orchestrator \<Rightarrow> Orchestrator" where
  "handleFetchFailed d o' =
     (case d of
        DString e \<Rightarrow>
          if e = ''not_found''
          then upd_state (\<lambda>s. s\<lparr>SuccessCount := 0,
                 SafetyBuffer := (if SafetyBuffer s < 20 then SafetyBuffer s + 1 else SafetyBuffer s)\<rparr>) o'
          else o'
      | _ \<Rightarrow> o')"

definition handleFetchSuccess :: "Orchestrator \<Rightarrow> Orchestrator" where
  "handleFetchSuccess o' =
     upd_state (\<lambda>s. let c = SuccessCount s + 1 in
       if c \<ge> 50 \<and> SafetyBuffer s > 1
       then s\<lparr>SafetyBuffer := SafetyBuffer s - 1, SuccessCount := 0\<rparr>
       else s\<lparr>SuccessCount := c\<rparr>) o'"

definition handleNotifyFetch :: "MsgData \<Rightarrow> Orchestrator \<Rightarrow> Orchestrator" where
  "handleNotifyFetch d o' =
     (case d of
        DUint64 h \<Rightarrow> if h > FetchedHeight (ostate o') then upd_state (\<lambda>s. s\<lparr>FetchedHeight := h\<rparr>) o' else o'
      | _ \<Rightarrow> o')"

definition handleLogEvent :: "time \<Rightarrow> MsgData \<Rightarrow> Orchestrator \<Rightarrow> Orchestrator" where
  "handleLogEvent now d o' =
     (case d of
        DLog l \<Rightarrow> upd_state (\<lambda>s. s\<lparr>LogEntry := Some l, UpdatedAt := now\<rparr>) o'
      | _ \<Rightarrow> o')"

definition handleCommitBatch :: "MsgData \<Rightarrow> Orchestrator \<Rightarrow> Orchestrator" where
  "handleCommitBatch d o' =
     (case d of
        DTask t \<Rightarrow>
          (case asyncWriter o' of
             None \<Rightarrow> o'
           | Some ch \<Rightarrow> o'\<lparr>asyncWriter := Some (fst (chan_try_send t ch))\<rparr>)
      | _ \<Rightarrow> o')"

definition handleCommitDisk :: "MsgData \<Rightarrow> Orchestrator \<Rightarrow> Orchestrator" where
  "handleCommitDisk d o' =
     (case d of
        DUint64 h \<Rightarrow> if h > SyncedCursor (ostate o') then upd_state (\<lambda>s. s\<lparr>SyncedCursor := h\<rparr>) o' else o'
      | _ \<Rightarrow> o')"

definition handleResetCursor :: "MsgData \<Rightarrow> Orchestrator \<Rightarrow> Orchestrator" where
  "handleResetCursor d o' =
     (case d of DUint64 h \<Rightarrow> upd_state (\<lambda>s. s\<lparr>SyncedCursor := h\<rparr>) o' | _ \<Rightarrow> o')"

definition handleIncrementTransfers :: "MsgData \<Rightarrow> Orchestrator \<Rightarrow> Orchestrator" where
  "handleIncrementTransfers d o' =
     (case d of DUint64 c \<Rightarrow> upd_state (\<lambda>s. s\<lparr>TransferCount := TransferCount s + c\<rparr>) o' | _ \<Rightarrow> o')"

definition handleToggleEcoMode :: "MsgData \<Rightarrow> Orchestrator \<Rightarrow> Orchestrator" where
  "handleToggleEcoMode d o' =
     (case d of DBool b \<Rightarrow> upd_state (\<lambda>s. s\<lparr>IsEcoMode := b\<rparr>) o' | _ \<Rightarrow> o')"

definition handleSetSystemState :: "MsgData \<Rightarrow> Orchestrator \<Rightarrow> Orchestrator" where
  "handleSetSystemState d o' =
     (case d of DSystemState st \<Rightarrow> upd_state (\<lambda>s. s\<lparr>SystemState := st\<rparr>) o' | _ \<Rightarrow> o')"

definition updateProgressAndSnapshot :: "time \<Rightarrow> Orchestrator \<Rightarrow> Orchestrator" where
  "updateProgressAndSnapshot now o' =
     (let s = ostate o';
          s = (if LatestHeight s > 0 then
                 (let p = (rat_of_int (uint (SyncedCursor s)) / rat_of_int (uint (LatestHeight s))) * 100
                  in s\<lparr>Progress := (if p > 100 then 100 else p)\<rparr>)
               else s);
          s = s\<lparr>UpdatedAt := now\<rparr>;
          (ch, sent) = chan_try_send s (broadcastCh o')
      in o'\<lparr>ostate := s, snapshot := s, broadcastCh := ch,
            broadcastDropped := (if sent then broadcastDropped o' else Suc (broadcastDropped o'))\<rparr>)"

text \<open>
  The \<open>switch\<close> of \<open>process\<close>, and \<open>process\<close> itself: it returns the new orchestrator and what
  \<open>handleGetStatus\<close> put on the reply channel.
\<close>

definition handle_msg :: "time \<Rightarrow> Message \<Rightarrow> Orchestrator \<Rightarrow> Orchestrator" where
  "handle_msg now m o' =
     (let d = msg_Data m in
      case msg_Type m of
        CmdUpdateChainHeight \<Rightarrow> handleUpdateChainHeight now d o'
      | CmdFetchFailed \<Rightarrow> handleFetchFailed d o'
      | CmdFetchSuccess \<Rightarrow> handleFetchSuccess o'
      | CmdNotifyFetched \<Rightarrow> handleNotifyFetch d o'
      | CmdNotifyFetchProgress \<Rightarrow> handleNotifyFetch d o'
      | CmdLogEvent \<Rightarrow> handleLogEvent now d o'
      | CmdCommitBatch \<Rightarrow> handleCommitBatch d o'
      | CmdCommitDisk \<Rightarrow> handleCommitDisk d o'
      | CmdResetCursor \<Rightarrow> handleResetCursor d o'
      | CmdIncrementTransfers \<Rightarrow> handleIncrementTransfers d o'
      | CmdToggleEcoMode \<Rightarrow> handleToggleEcoMode d o'
      | CmdSetSystemState \<Rightarrow> handleSetSystemState d o'
      | ReqGetStatus \<Rightarrow> o'
      | ReqGetSnapshot \<Rightarrow> o'
      | CmdRecordUserActivity \<Rightarrow> upd_state (\<lambda>s. s\<lparr>LastUserActivity := now\<rparr>) o')"

definition handleGetStatus :: "Message \<Rightarrow> Orchestrator \<Rightarrow> CoordinatorState option" where
  "handleGetStatus m o' =
     (if msg_Type m \<in> {ReqGetStatus, ReqGetSnapshot} \<and> msg_Reply m then Some (ostate o') else None)"

definition process :: "time \<Rightarrow> Message \<Rightarrow> Orchestrator \<Rightarrow> Orchestrator \<times> CoordinatorState option" where
  "process now m o' = (updateProgressAndSnapshot now (handle_msg now m o'), handleGetStatus m o')"

subsection \<open>Ticker handlers (orchestrator\_loop.go)\<close>

text \<open>\<open>int32(uint32(d) \& 0x7FFFFFFF)\<close> of a channel length.\<close>

definition depth_i32 :: "int \<Rightarrow> int" where
  "depth_i32 d = d mod 2147483648"

definition evaluateSystemState :: "time \<Rightarrow> Orchestrator \<times> GlobalState \<Rightarrow> (Orchestrator \<times> GlobalState) option" where
  "evaluateSystemState now og =
     (let (o', gs) = og;
          (jobs, results, o1) =
            (case fetcher o' of
               None \<Rightarrow> (0, 0, o')
             | Some (ch, r) \<Rightarrow>
                 (int (chan_len ch), int r,
                  upd_state (\<lambda>s. s\<lparr>JobsDepth := int (chan_len ch), ResultsDepth := int r\<rparr>) o'))
      in case UpdatePipelineDepth now (depth_i32 jobs) (depth_i32 results) 0 gs of
           None \<Rightarrow> None
         | Some gs1 \<Rightarrow>
             (case GlobalState_Snapshot gs1 of
                None \<Rightarrow> None
              | Some (gs2, snap) \<Rightarrow>
                  if ResultsQueueDepth snap > tdiv (wrap_i32 (PipelineDepth snap * 80)) 100
                  then Some (upd_state (\<lambda>s. s\<lparr>SystemState := SystemStateThrottled\<rparr>) o1, gs2)
                  else if SafetyBuffer (ostate o1) > 1
                  then Some (upd_state (\<lambda>s. s\<lparr>SystemState := SystemStateOptimizing\<rparr>) o1, gs2)
                  else if SystemState (ostate o1) \<in> {SystemStateOptimizing, SystemStateThrottled, SystemStateUnknown}
                  then Some (upd_state (\<lambda>s. s\<lparr>SystemState := SystemStateRunning\<rparr>) o1, gs2)
                  else Some (o1, gs2)))"

definition evaluateEcoMode :: "time \<Rightarrow> Orchestrator \<Rightarrow> Orchestrator" where
  "evaluateEcoMode now o' =
     (let lag = LatestHeight (ostate o') - SyncedCursor (ostate o');
          idleTime = now - LastUserActivity (ostate o');
          shouldBeEco = (lag \<le> 10 \<and> idleTime \<ge> 120 * second)
      in if IsEcoMode (ostate o') \<noteq> shouldBeEco
         then upd_state (\<lambda>s. s\<lparr>IsEcoMode := shouldBeEco\<rparr>) o' else o')"

definition flushPendingHeightUpdate :: "Orchestrator \<Rightarrow> Orchestrator" where
  "flushPendingHeightUpdate o' =
     (case pendingHeightUpdate o' of
        None \<Rightarrow> o'
      | Some h \<Rightarrow>
          (if h > LatestHeight (ostate o') then upd_state (\<lambda>s. s\<lparr>LatestHeight := h\<rparr>) o' else o')
            \<lparr>pendingHeightUpdate := None\<rparr>)"

subsection \<open>Callers' side (orchestrator\_api.go, self\_healing.go)\<close>

text \<open>
  The \<open>select\<close> of \<open>Dispatch\<close> takes the send when the channel has room; \<open>prefer_done\<close> is Go's
  choice when the context is done as well. A full channel drops the message.
\<close>

definition Dispatch :: "bool \<Rightarrow> MsgType \<Rightarrow> MsgData \<Rightarrow> Orchestrator \<Rightarrow> Orchestrator \<times> u64" where
  "Dispatch prefer_done t d o' =
     (let seq = msgSeq o' + 1;
          m = \<lparr>msg_Type = t, msg_Data = d, msg_Reply = False, msg_Sequence = seq\<rparr>;
          o1 = o'\<lparr>msgSeq := seq\<rparr>
      in if ctxDone o1 \<and> (prefer_done \<or> \<not> chan_len (cmdChan o1) < capacity (cmdChan o1))
         then (o1, seq)
         else (o1\<lparr>cmdChan := fst (chan_try_send m (cmdChan o1))\<rparr>, seq))"

definition UpdateChainHead :: "bool \<Rightarrow> u64 \<Rightarrow> Orchestrator \<Rightarrow> Orchestrator" where
  "UpdateChainHead pd height o' = fst (Dispatch pd CmdUpdateChainHeight (DUint64 height) o')"

definition AdvanceDBCursor :: "bool \<Rightarrow> u64 \<Rightarrow> Orchestrator \<Rightarrow> Orchestrator" where
  "AdvanceDBCursor pd height o' = fst (Dispatch pd CmdCommitDisk (DUint64 height) o')"

definition Orchestrator_SetSystemState :: "bool \<Rightarrow> SystemStateEnum \<Rightarrow> Orchestrator \<Rightarrow> Orchestrator" where
  "Orchestrator_SetSystemState pd st o' = fst (Dispatch pd CmdSetSystemState (DSystemState st) o')"

definition RecordUserActivity :: "bool \<Rightarrow> Orchestrator \<Rightarrow> Orchestrator" where
  "RecordUserActivity pd o' = fst (Dispatch pd CmdRecordUserActivity DNil o')"

definition GetSnapshot :: "Orchestrator \<Rightarrow> CoordinatorState" where
  "GetSnapshot o' = snapshot o'"

definition GetSyncLag :: "Orchestrator \<Rightarrow> int" where
  "GetSyncLag o' =
     (let snap = GetSnapshot o' in
      if LatestHeight snap = 0 then 0
      else let lag = wrap_i64 (wrap_i64 (uint (LatestHeight snap)) - wrap_i64 (uint (SyncedCursor snap)))
        in if lag < 0 then 0 else lag)"

definition Subscribe :: "Orchestrator \<Rightarrow> Orchestrator" where
  "Subscribe o' = o'\<lparr>subscribers := subscribers o' @ [chan_make 100]\<rparr>"

definition broadcastSnapshot :: "CoordinatorState \<Rightarrow> Orchestrator \<Rightarrow> Orchestrator" where
  "broadcastSnapshot snap o' =
     o'\<lparr>subscribers := map (\<lambda>ch. fst (chan_try_send snap ch)) (subscribers o')\<rparr>"

definition auditAndHeal :: "Orchestrator \<Rightarrow> Orchestrator" where
  "auditAndHeal o' =
     (let s = ostate o';
          s = (if FetchedHeight s < SyncedCursor s then s\<lparr>FetchedHeight := SyncedCursor s\<rparr> else s);
          s = (if LatestHeight s > 0 \<and> LatestHeight s < SyncedCursor s
               then s\<lparr>SystemState := SystemStateStalled\<rparr> else s)
      in o'\<lparr>ostate := s\<rparr>)"

end
