(* ===== verification/Tail_Follow.thy ===== *)
theory Tail_Follow
  imports Fetcher_Props Orchestrator
begin

section \<open>Following the head of the chain (cmd/indexer/main\_services.go, service\_manager.go)\<close>

text \<open>
  \<open>continuousTailFollow\<close> asks for the head on every tick, reports it to the orchestrator, and
  schedules the blocks after the last scheduled one up to the target of the orchestrator's
  snapshot plus a window, at most to the head.

  \<^item> A tick is described by \<open>tail_env\<close>: the node's answer, the target height of the snapshot the
    tick reads, the latest height of the snapshot \<open>Schedule\<close> reads a moment later, the branches
    its sends take, and the fetcher at that time.
  \<^item> The result keeps the scheduled jobs and the errors that \<open>Schedule\<close> returned. The orchestrator
    receives the head through its channel; both snapshots are whatever it has published.
\<close>

record tail_env =
  te_tip :: "go_error + int"
  te_target :: u64
  te_head :: u64
  te_pick :: "nat \<Rightarrow> send_choice"
  te_fetcher :: Fetcher

definition schedulingWindow :: "int \<Rightarrow> int" where
  "schedulingWindow chainID = (if chainID = anvil_chain_id then 100 else 10)"

definition tail_tick :: "int \<Rightarrow> tail_env \<Rightarrow> int \<Rightarrow> int \<times> FetchJob list \<times> go_error list" where
  "tail_tick chainID E lastScheduled =
     (case te_tip E of
        Inl e \<Rightarrow> (lastScheduled, [], [])
      | Inr tip \<Rightarrow>
          (let targetHeight = wrap_i64 (uint (te_target E)) in
           if targetHeight > lastScheduled then
             (let nextBlock = lastScheduled + 1;
                  window = targetHeight + schedulingWindow chainID;
                  aggressiveTarget = (if window > tip then tip else window)
              in if nextBlock \<le> aggressiveTarget
                 then (case Schedule (te_head E) (te_pick E) nextBlock aggressiveTarget (te_fetcher E) of
                         (jobs, None) \<Rightarrow> (aggressiveTarget, jobs, [])
                       | (jobs, Some e) \<Rightarrow> (lastScheduled, jobs, [e]))
                 else (lastScheduled, [], []))
           else (lastScheduled, [], [])))"

fun tail_ticks :: "int \<Rightarrow> tail_env list \<Rightarrow> int \<Rightarrow> int \<times> FetchJob list \<times> go_error list" where
  "tail_ticks chainID [] lastScheduled = (lastScheduled, [], [])"
| "tail_ticks chainID (E # Es) lastScheduled =
     (let (l1, jobs, errs) = tail_tick chainID E lastScheduled;
          (l2, jobs', errs') = tail_ticks chainID Es l1
      in (l2, jobs @ jobs', errs @ errs'))"

definition continuousTailFollow :: "int \<Rightarrow> tail_env list \<Rightarrow> int \<Rightarrow> int \<times> FetchJob list \<times> go_error list" where
  "continuousTailFollow chainID Es startBlock = tail_ticks chainID Es (startBlock - 1)"

text \<open>
  The catch-up of \<open>StartTailFollow\<close>: the range it schedules when the first block leaves a gap above
  the highest stored one; \<open>maxInDB\<close> is \<open>None\<close> when the query fails.
\<close>

definition catchup_range :: "int option \<Rightarrow> int \<Rightarrow> (int \<times> int) option" where
  "catchup_range maxInDB startBlock =
     (case maxInDB of
        None \<Rightarrow> None
      | Some m \<Rightarrow>
          (let startNum = wrap_i64 startBlock in
           if m > 0 \<and> startNum > wrap_i64 (m + 1) then Some (wrap_i64 (m + 1), startNum - 1) else None))"

subsection \<open>Contiguous scheduling\<close>

abbreviation scheduled_numbers :: "FetchJob list \<Rightarrow> int list" where
  "scheduled_numbers jobs \<equiv> concat (map job_range jobs)"

text \<open>The heights a tick knows are consistent: the snapshot that \<open>Schedule\<close> reads has the tip.\<close>

definition fresh_head :: "tail_env \<Rightarrow> bool" where
  "fresh_head E \<longleftrightarrow> (\<forall>tip. te_tip E = Inr tip \<longrightarrow> tip \<le> SafeUint64ToInt64 (te_head E))"

lemma tail_tick_cases [consumes 1, case_names idle advanced failed]:
  assumes "tail_tick chain E lst = (lst', jobs, errs)"
  obtains "lst' = lst" "jobs = []" "errs = []"
    | tip b where "te_tip E = Inr tip" "lst < wrap_i64 (uint (te_target E))"
        "b = min tip (wrap_i64 (uint (te_target E)) + schedulingWindow chain)" "lst < b"
        "Schedule (te_head E) (te_pick E) (lst + 1) b (te_fetcher E) = (jobs, None)" "lst' = b" "errs = []"
    | tip b e where "te_tip E = Inr tip" "lst < b" "b \<le> tip"
        "Schedule (te_head E) (te_pick E) (lst + 1) b (te_fetcher E) = (jobs, Some e)" "lst' = lst" "errs = [e]"
proof -
  consider "lst' = lst \<and> jobs = [] \<and> errs = []"
    | tip where "te_tip E = Inr tip" "lst < wrap_i64 (uint (te_target E))"
        "lst < min tip (wrap_i64 (uint (te_target E)) + schedulingWindow chain)"
        "(case Schedule (te_head E) (te_pick E) (lst + 1) (min tip (wrap_i64 (uint (te_target E)) + schedulingWindow chain)) (te_fetcher E) of
            (jobs, None) \<Rightarrow> (min tip (wrap_i64 (uint (te_target E)) + schedulingWindow chain), jobs, [])
          | (jobs, Some e) \<Rightarrow> (lst, jobs, [e])) = (lst', jobs, errs)"
    using assms unfolding tail_tick_def Let_def min_def by (auto split: sum.splits if_splits)
  then show thesis
  proof cases
    case 1
    then show thesis by (intro that(1)) auto
  next
    case (2 tip)
    let ?b = "min tip (wrap_i64 (uint (te_target E)) + schedulingWindow chain)"
    obtain js r where sched: "Schedule (te_head E) (te_pick E) (lst + 1) ?b (te_fetcher E) = (js, r)" by fastforce
    show thesis
    proof (cases r)
      case None
      with 2 sched show thesis by (intro that(2) [of tip ?b]) auto
    next
      case (Some e)
      with 2 sched show thesis by (intro that(3) [of tip ?b e]) auto
    qed
  qed
qed

lemma schedule_numbers:
  assumes "Schedule head pick a b f = (jobs, r)"
  shows "set (scheduled_numbers jobs) \<subseteq> {a..min b (SafeUint64ToInt64 head)}"
    and "r = None \<Longrightarrow> scheduled_numbers jobs = [a..min b (SafeUint64ToInt64 head)]"
  using schedule_range [OF assms] by force+

lemma tail_tick_covers:
  assumes "tail_tick chain E lst = (lst', jobs, errs)" and "fresh_head E"
  shows "lst \<le> lst' \<and> {lst + 1..lst'} \<subseteq> set (scheduled_numbers jobs) \<and> set (scheduled_numbers jobs) \<subseteq> {lst + 1..}
    \<and> (\<forall>n \<in> set (scheduled_numbers jobs). \<exists>tip. te_tip E = Inr tip \<and> n \<le> tip)
    \<and> (errs = [] \<longrightarrow> scheduled_numbers jobs = [lst + 1..lst'])"
  using assms(1)
proof (cases rule: tail_tick_cases)
  case (advanced tip b)
  have "b \<le> SafeUint64ToInt64 (te_head E)" using advanced(1,3) assms(2) by (auto simp: fresh_head_def)
  then have "scheduled_numbers jobs = [lst + 1..b]" using schedule_numbers(2) [OF advanced(5)] by (simp add: min_absorb1)
  with advanced show ?thesis by auto
next
  case (failed tip b e)
  then show ?thesis using schedule_numbers(1) [OF failed(4)] by fastforce
qed simp

lemma tail_ticks_covers:
  "tail_ticks chain Es lst = (lst', jobs, errs) \<Longrightarrow> \<forall>E \<in> set Es. fresh_head E \<Longrightarrow>
     lst \<le> lst' \<and> {lst + 1..lst'} \<subseteq> set (scheduled_numbers jobs) \<and> set (scheduled_numbers jobs) \<subseteq> {lst + 1..}
     \<and> (\<forall>n \<in> set (scheduled_numbers jobs). \<exists>E \<in> set Es. \<exists>tip. te_tip E = Inr tip \<and> n \<le> tip)
     \<and> (errs = [] \<longrightarrow> scheduled_numbers jobs = [lst + 1..lst'])"
proof (induction Es arbitrary: lst lst' jobs errs)
  case (Cons E Es)
  obtain l1 j1 e1 where one: "tail_tick chain E lst = (l1, j1, e1)" by (cases "tail_tick chain E lst") auto
  obtain j2 e2 where two: "tail_ticks chain Es l1 = (lst', j2, e2)" and jobs: "jobs = j1 @ j2" "errs = e1 @ e2"
    using Cons.prems(1) one by (auto split: prod.splits)
  have A: "lst \<le> l1 \<and> {lst + 1..l1} \<subseteq> set (scheduled_numbers j1) \<and> set (scheduled_numbers j1) \<subseteq> {lst + 1..}
    \<and> (\<forall>n \<in> set (scheduled_numbers j1). \<exists>tip. te_tip E = Inr tip \<and> n \<le> tip)
    \<and> (e1 = [] \<longrightarrow> scheduled_numbers j1 = [lst + 1..l1])"
    by (rule tail_tick_covers [OF one]) (use Cons.prems(2) in simp)
  have B: "l1 \<le> lst' \<and> {l1 + 1..lst'} \<subseteq> set (scheduled_numbers j2) \<and> set (scheduled_numbers j2) \<subseteq> {l1 + 1..}
     \<and> (\<forall>n \<in> set (scheduled_numbers j2). \<exists>E \<in> set Es. \<exists>tip. te_tip E = Inr tip \<and> n \<le> tip)
     \<and> (e2 = [] \<longrightarrow> scheduled_numbers j2 = [l1 + 1..lst'])"
    by (rule Cons.IH [OF two]) (use Cons.prems(2) in simp)
  have set: "{lst + 1..lst'} = {lst + 1..l1} \<union> {l1 + 1..lst'}" using A B by auto
  have app: "[lst + 1..l1] @ [l1 + 1..lst'] = [lst + 1..lst']"
    using A B upto_split2 [of "lst + 1" l1 lst'] by (cases "lst = l1") auto
  have nums: "set (scheduled_numbers jobs) = set (scheduled_numbers j1) \<union> set (scheduled_numbers j2)"
    "scheduled_numbers jobs = scheduled_numbers j1 @ scheduled_numbers j2" by (simp_all add: jobs)
  have "{lst + 1..lst'} \<subseteq> set (scheduled_numbers jobs)" unfolding set nums(1) using A B by blast
  moreover have "set (scheduled_numbers jobs) \<subseteq> {lst + 1..}" unfolding nums(1) using A B by fastforce
  moreover have "\<forall>n \<in> set (scheduled_numbers jobs). \<exists>E' \<in> set (E # Es). \<exists>tip. te_tip E' = Inr tip \<and> n \<le> tip"
    unfolding nums(1) using A B by fastforce
  moreover have "scheduled_numbers jobs = [lst + 1..lst']" if "errs = []"
    unfolding nums(2) using A B that jobs(2) app by simp
  ultimately show ?case using A B by simp
qed simp

text \<open>
  (C7) Following the head leaves no gap: while the snapshots that \<open>Schedule\<close> reads have the head the
  tick has seen, all blocks from the first one up to the last scheduled one have been given
  to the fetcher and nothing below the first or beyond a reported head; as long as no call of
  \<open>Schedule\<close> fails, exactly once each and in order.
\<close>

theorem tail_follow_leaves_no_gap:
  assumes "continuousTailFollow chain Es start = (lst, jobs, errs)" and "\<forall>E \<in> set Es. fresh_head E"
  shows "start - 1 \<le> lst \<and> {start..lst} \<subseteq> set (scheduled_numbers jobs) \<and> set (scheduled_numbers jobs) \<subseteq> {start..}
    \<and> (\<forall>n \<in> set (scheduled_numbers jobs). \<exists>E \<in> set Es. \<exists>tip. te_tip E = Inr tip \<and> n \<le> tip)
    \<and> (errs = [] \<longrightarrow> scheduled_numbers jobs = [start..lst])"
  using tail_ticks_covers [of chain Es "start - 1" lst jobs errs] assms by (simp add: continuousTailFollow_def)

definition sample_tick :: "int \<Rightarrow> u64 \<Rightarrow> u64 \<Rightarrow> tail_env" where
  "sample_tick tip target head =
     \<lparr>te_tip = Inr tip, te_target = target, te_head = head, te_pick = (\<lambda>_. Sent), te_fetcher = sample_fetcher\<rparr>"

lemma sample_schedule: "start \<le> min b (SafeUint64ToInt64 head) \<Longrightarrow> snd (Schedule head (\<lambda>_. Sent) start b sample_fetcher) = None"
  by (auto simp: Schedule_def Let_def sample_fetcher_def chan_make_def chan_len_def schedule_loop_sent)

theorem tail_follow_leaves_no_gap_witness:
  "\<exists>jobs. continuousTailFollow 1 [sample_tick 105 104 105, sample_tick 125 124 125] 90 = (125, jobs, [])
     \<and> scheduled_numbers jobs = [90..125]"
proof -
  have h: "SafeUint64ToInt64 105 = 105" "SafeUint64ToInt64 125 = 125" "wrap_i64 104 = 104" "wrap_i64 124 = 124"
    by (simp_all add: SafeUint64ToInt64_eq max_i64_def wrap_i64_def)
  have "snd (Schedule 105 (\<lambda>_. Sent) 90 105 sample_fetcher) = None" using h by (intro sample_schedule) simp
  then obtain j1 where j1: "Schedule 105 (\<lambda>_. Sent) 90 105 sample_fetcher = (j1, None)" by (metis prod.collapse)
  have "snd (Schedule 125 (\<lambda>_. Sent) 106 125 sample_fetcher) = None" using h by (intro sample_schedule) simp
  then obtain j2 where j2: "Schedule 125 (\<lambda>_. Sent) 106 125 sample_fetcher = (j2, None)" by (metis prod.collapse)
  have run: "continuousTailFollow 1 [sample_tick 105 104 105, sample_tick 125 124 125] 90 = (125, j1 @ j2, [])"
    using j1 j2 h by (simp add: continuousTailFollow_def tail_tick_def sample_tick_def schedulingWindow_def)
  have "\<forall>E \<in> set [sample_tick 105 104 105, sample_tick 125 124 125]. fresh_head E"
    using h by (simp add: fresh_head_def sample_tick_def)
  from tail_follow_leaves_no_gap [OF run this] run show ?thesis by simp
qed

subsection \<open>A head the snapshot does not have yet\<close>

lemma head_notice_not_visible [simp]: "GetSnapshot (UpdateChainHead pd h o') = GetSnapshot o'"
  by (simp add: GetSnapshot_def UpdateChainHead_def Dispatch_def Let_def)

lemma tail_ticks_above:
  "tail_ticks chain Es lst = (lst', jobs, errs) \<Longrightarrow> lst \<le> lst' \<and> set (scheduled_numbers jobs) \<subseteq> {lst + 1..}"
proof (induction Es arbitrary: lst lst' jobs errs)
  case (Cons E Es)
  obtain l1 j1 e1 where one: "tail_tick chain E lst = (l1, j1, e1)" by (cases "tail_tick chain E lst") auto
  obtain j2 e2 where two: "tail_ticks chain Es l1 = (lst', j2, e2)" "jobs = j1 @ j2"
    using Cons.prems one by (auto split: prod.splits)
  have "lst \<le> l1 \<and> set (scheduled_numbers j1) \<subseteq> {lst + 1..}"
    using one
  proof (cases rule: tail_tick_cases)
    case (advanced tip b)
    then show ?thesis using schedule_numbers(1) [OF advanced(5)] by fastforce
  next
    case (failed tip b e)
    then show ?thesis using schedule_numbers(1) [OF failed(4)] by fastforce
  qed simp
  with Cons.IH [OF two(1)] two(2) show ?case by fastforce
qed simp

text \<open>
  (C36) A head that the orchestrator has not published yet makes the tail follower skip blocks: the
  tick reads the snapshot right after handing over the new head \<open>tip\<close>, \<open>Schedule\<close> cuts the range at the
  head of that snapshot and reports success, and the cursor moves past the cut. The blocks
  between are not scheduled in this tick nor in any later one.
\<close>

theorem stale_head_skips_blocks:
  assumes "te_tip E = Inr tip"
    and "te_target E = TargetHeight (GetSnapshot (UpdateChainHead pd (num_u64 tip) o'))"
    and "te_head E = LatestHeight (GetSnapshot (UpdateChainHead pd (num_u64 tip) o'))"
    and "lst < uint (TargetHeight (GetSnapshot o'))" and "uint (TargetHeight (GetSnapshot o')) \<le> max_i64"
    and "snd (Schedule (te_head E) (te_pick E) (lst + 1)
           (min tip (uint (TargetHeight (GetSnapshot o')) + schedulingWindow chain)) (te_fetcher E)) = None"
    and "uint (LatestHeight (GetSnapshot o')) < n" and "n \<le> min tip (uint (TargetHeight (GetSnapshot o')) + schedulingWindow chain)"
    and "lst < n" and "tail_ticks chain (E # Es) lst = (lst', jobs, errs)"
  shows "n \<le> lst' \<and> n \<notin> set (scheduled_numbers jobs)"
proof -
  let ?t = "uint (TargetHeight (GetSnapshot o'))" and ?h = "uint (LatestHeight (GetSnapshot o'))"
  let ?b = "min tip (?t + schedulingWindow chain)"
  have w: "wrap_i64 ?t = ?t" using assms(5) by (rule wrap_i64_u64)
  obtain j1 where sched: "Schedule (te_head E) (te_pick E) (lst + 1) ?b (te_fetcher E) = (j1, None)"
    using assms(6) by (metis prod.collapse)
  have one: "tail_tick chain E lst = (?b, j1, [])"
    using assms(1-4,8,9) sched w by (auto simp: tail_tick_def Let_def min_def)
  obtain j2 where two: "tail_ticks chain Es ?b = (lst', j2, errs)" "jobs = j1 @ j2"
    using assms(10) one by (auto split: prod.splits)
  have "SafeUint64ToInt64 (te_head E) < n" using assms(3,7) by (simp add: SafeUint64ToInt64_eq)
  then have "n \<notin> {lst + 1..min ?b (SafeUint64ToInt64 (te_head E))}" by simp
  then have "n \<notin> set (scheduled_numbers j1)" using schedule_numbers(1) [OF sched] by blast
  moreover have "n \<notin> set (scheduled_numbers j2)" "n \<le> lst'"
    using tail_ticks_above [OF two(1)] assms(8) by fastforce+
  ultimately show ?thesis using two(2) by simp
qed

definition lagging_orchestrator :: Orchestrator where
  "lagging_orchestrator = (newOrchestrator 0)\<lparr>snapshot := (fresh_state 0 1)\<lparr>LatestHeight := 100, TargetHeight := 99\<rparr>\<rparr>"

theorem stale_head_skips_blocks_witness:
  "let (l, jobs, errs) = tail_ticks 1 [sample_tick 105 99 100] 98 in 103 \<le> l \<and> 103 \<notin> set (scheduled_numbers jobs)"
proof -
  let ?o = lagging_orchestrator
  obtain l jobs errs where run: "tail_ticks 1 [sample_tick 105 99 100] 98 = (l, jobs, errs)"
    by (cases "tail_ticks 1 [sample_tick 105 99 100] 98") auto
  have snap: "TargetHeight (GetSnapshot ?o) = 99" "LatestHeight (GetSnapshot ?o) = 100"
    by (simp_all add: GetSnapshot_def lagging_orchestrator_def)
  have h: "SafeUint64ToInt64 100 = 100" by (simp add: SafeUint64ToInt64_eq max_i64_def)
  have ok: "snd (Schedule (te_head (sample_tick 105 99 100)) (te_pick (sample_tick 105 99 100)) (98 + 1)
        (min 105 (uint (TargetHeight (GetSnapshot ?o)) + schedulingWindow 1)) (te_fetcher (sample_tick 105 99 100))) = None"
    using sample_schedule [of 99 105 100] h by (simp add: snap sample_tick_def schedulingWindow_def)
  have "103 \<le> l \<and> 103 \<notin> set (scheduled_numbers jobs)"
    by (rule stale_head_skips_blocks [where o' = ?o and tip = 105, OF _ _ _ _ _ ok _ _ _ run])
      (simp_all add: snap sample_tick_def schedulingWindow_def max_i64_def)
  with run show ?thesis by simp
qed

end
