(* ===== verification/Enricher.thy ===== *)
theory Enricher
  imports Go_Utils
begin

section \<open>The metadata enricher (internal/engine/metadata\_enricher.go)\<close>

text \<open>
  Token symbols are fetched asynchronously: \<open>GetSymbol\<close> answers from the cache or queues the
  address, a worker takes up to \<open>batchSize\<close> addresses per tick and asks a Multicall contract.
  An address (\<open>common.Address\<close>) is its checksummed hex text, of 42 characters. The two
  \<open>sync.Map\<close>s are association lists; the decoders of the ABI package are the arguments
  \<open>unpack_symbol\<close> and \<open>unpack_decimals\<close>, and the reply of the contract is an input.
\<close>

record TokenMetadata =
  meta_Symbol :: string
  meta_Decimals :: nat
  meta_Name :: string

record MetadataEnricher =
  cache :: "(string \<times> TokenMetadata) list"
  queue :: "string chan"
  inflight :: "(string \<times> bool) list"
  saved :: "(string \<times> TokenMetadata) list"
  batchSize :: nat

definition zero_address :: string where
  "zero_address = ''0x0000000000000000000000000000000000000000''"

text \<open>
  \<open>LoadAllMetadata\<close> lowercases the address of every row; \<open>NewMetadataEnricher\<close> stores what it
  returns in the cache. \<open>rows\<close> is \<open>None\<close> when there is no database or the query fails.
\<close>

definition LoadAllMetadata :: "(string \<times> TokenMetadata) list \<Rightarrow> (string \<times> TokenMetadata) list" where
  "LoadAllMetadata rows = fold (\<lambda>(a, m) acc. AList.update (ToLower a) m acc) rows []"

definition NewMetadataEnricher ::
    "int \<Rightarrow> (string \<times> TokenMetadata) list option \<Rightarrow> MetadataEnricher" where
  "NewMetadataEnricher queueCap rows =
     \<lparr>cache = (case rows of None \<Rightarrow> [] | Some rs \<Rightarrow> LoadAllMetadata rs),
      queue = chan_make (if queueCap \<le> 0 then 1000 else nat queueCap),
      inflight = [], saved = [], batchSize = 50\<rparr>"

definition short_form :: "string \<Rightarrow> string" where
  "short_form a = take 10 a @ ''...''"

definition GetSymbol :: "string \<Rightarrow> MetadataEnricher \<Rightarrow> MetadataEnricher \<times> string" where
  "GetSymbol addr me =
     (if addr = zero_address then (me, ''ETH'')
      else case map_of (cache me) addr of
        Some meta \<Rightarrow> (me, meta_Symbol meta)
      | None \<Rightarrow>
          (if map_of (inflight me) addr \<noteq> None then (me, short_form addr)
           else
             let me1 = me\<lparr>inflight := AList.update addr True (inflight me)\<rparr>;
                 (q, sent) = chan_try_send addr (queue me1)
             in if sent then (me1\<lparr>queue := q\<rparr>, short_form addr)
                else case items (queue me1) of
                       [] \<Rightarrow> (me1, short_form addr)
                     | old # rest \<Rightarrow>
                         (me1\<lparr>queue := (queue me1)\<lparr>items := rest @ [addr]\<rparr>\<rparr>, short_form addr)))"

definition GetDecimals :: "string \<Rightarrow> MetadataEnricher \<Rightarrow> nat" where
  "GetDecimals addr me =
     (if addr = zero_address then 18
      else case map_of (cache me) addr of Some meta \<Rightarrow> meta_Decimals meta | None \<Rightarrow> 18)"

type_synonym bytes = "8 word list"

record MultiResult =
  Success :: bool
  ReturnData :: bytes

text \<open>
  \<open>processBatch\<close>. \<open>reply\<close> is \<open>None\<close> when packing, the call or the unpacking of the reply fails
  (the early returns); the results of address \<open>i\<close> are at \<open>2 i\<close> and \<open>2 i + 1\<close>, and a shorter
  reply is an index out of range.
\<close>

definition decode_meta ::
    "(bytes \<Rightarrow> string option) \<Rightarrow> (bytes \<Rightarrow> nat option) \<Rightarrow> MultiResult \<Rightarrow> MultiResult
      \<Rightarrow> TokenMetadata \<times> bool" where
  "decode_meta unpack_symbol unpack_decimals rs rd =
     (let sym = (if Success rs \<and> length (ReturnData rs) \<ge> 64 then unpack_symbol (ReturnData rs) else None);
          dec = (if Success rd \<and> length (ReturnData rd) \<ge> 32 then unpack_decimals (ReturnData rd) else None)
      in (\<lparr>meta_Symbol = (case sym of Some s \<Rightarrow> s | None \<Rightarrow> ''UNKNOWN''),
           meta_Decimals = (case dec of Some d \<Rightarrow> d | None \<Rightarrow> 18), meta_Name = []\<rparr>,
          sym \<noteq> None \<or> dec \<noteq> None))"

fun apply_results ::
    "(bytes \<Rightarrow> string option) \<Rightarrow> (bytes \<Rightarrow> nat option) \<Rightarrow> string list \<Rightarrow> MultiResult list
      \<Rightarrow> MetadataEnricher \<Rightarrow> MetadataEnricher go" where
  "apply_results us ud [] res me = Ret me"
| "apply_results us ud (a # as) res me =
     (case res of
        rs # rd # res' \<Rightarrow>
          (let (meta, found) = decode_meta us ud rs rd;
               me1 = (if found then me\<lparr>cache := AList.update a meta (cache me),
                                       saved := AList.update (ToLower a) meta (saved me)\<rparr> else me)
           in apply_results us ud as res' (me1\<lparr>inflight := AList.delete a (inflight me1)\<rparr>))
      | _ \<Rightarrow> Panic)"

definition processBatch ::
    "(bytes \<Rightarrow> string option) \<Rightarrow> (bytes \<Rightarrow> nat option) \<Rightarrow> MultiResult list option
      \<Rightarrow> string list \<Rightarrow> MetadataEnricher \<Rightarrow> MetadataEnricher go" where
  "processBatch us ud reply addresses me =
     (case reply of None \<Rightarrow> Ret me | Some res \<Rightarrow> apply_results us ud addresses res me)"

text \<open>One tick of \<open>batchWorker\<close>.\<close>

definition batch_tick ::
    "(bytes \<Rightarrow> string option) \<Rightarrow> (bytes \<Rightarrow> nat option) \<Rightarrow> MultiResult list option
      \<Rightarrow> MetadataEnricher \<Rightarrow> MetadataEnricher go" where
  "batch_tick us ud reply me =
     (let batch = take (batchSize me) (items (queue me));
          me1 = me\<lparr>queue := (queue me)\<lparr>items := drop (batchSize me) (items (queue me))\<rparr>\<rparr>
      in if batch = [] then Ret me1 else processBatch us ud reply batch me1)"

definition GetCacheStats :: "MetadataEnricher \<Rightarrow> nat" where
  "GetCacheStats me = length (cache me)"

subsection \<open>Deduplication and bounds\<close>

definition enricher_inv :: "MetadataEnricher \<Rightarrow> bool" where
  "enricher_inv me \<longleftrightarrow> distinct (items (queue me)) \<and> chan_wf (queue me) \<and> capacity (queue me) > 0
     \<and> set (items (queue me)) \<subseteq> fst ` set (inflight me)"

text \<open>What an address that is asked for goes through while the enricher is used.\<close>

inductive enricher_step :: "MetadataEnricher \<Rightarrow> MetadataEnricher \<Rightarrow> bool" where
  ask: "enricher_step me (fst (GetSymbol a me))"
| tick: "batch_tick us ud reply me = Ret me' \<Longrightarrow> enricher_step me me'"

text \<open>An address whose request was lost: marked in flight, but neither queued nor cached.\<close>

definition lost :: "string \<Rightarrow> MetadataEnricher \<Rightarrow> bool" where
  "lost a me \<longleftrightarrow> map_of (inflight me) a \<noteq> None \<and> a \<notin> set (items (queue me)) \<and> map_of (cache me) a = None"

lemma apply_results_frame:
  "apply_results us ud as res me = Ret me' \<Longrightarrow>
     queue me' = queue me \<and> batchSize me' = batchSize me
     \<and> fst ` set (inflight me') = fst ` set (inflight me) - set as
     \<and> (\<forall>a. a \<notin> set as \<longrightarrow> map_of (cache me') a = map_of (cache me) a \<and> map_of (inflight me') a = map_of (inflight me) a)"
proof (induction us ud as res me rule: apply_results.induct)
  case (2 us ud a as res me)
  from 2(2) obtain rs rd res' where res: "res = rs # rd # res'"
    by (auto split: list.splits)
  obtain meta found where dm: "decode_meta us ud rs rd = (meta, found)" by fastforce
  define me1 where "me1 = (if found then me\<lparr>cache := AList.update a meta (cache me),
      saved := AList.update (ToLower a) meta (saved me)\<rparr> else me)"
  have step: "apply_results us ud as res' (me1\<lparr>inflight := AList.delete a (inflight me1)\<rparr>) = Ret me'"
    using 2(2) res dm by (simp add: me1_def Let_def)
  have me1: "queue me1 = queue me" "batchSize me1 = batchSize me" "inflight me1 = inflight me"
    "\<And>b. b \<noteq> a \<Longrightarrow> map_of (cache me1) b = map_of (cache me) b"
    by (simp_all add: me1_def update_conv')
  have "queue me' = queue me \<and> batchSize me' = batchSize me
     \<and> fst ` set (inflight me') = fst ` set (AList.delete a (inflight me)) - set as
     \<and> (\<forall>b. b \<notin> set as \<longrightarrow> map_of (cache me') b = map_of (cache me1) b
          \<and> map_of (inflight me') b = map_of (AList.delete a (inflight me)) b)"
    using 2(1) [OF res refl refl dm [symmetric] me1_def] step me1 by simp
  with me1(4) show ?case by (auto simp: keys_delete delete_conv')
qed simp

lemma batch_tick_frame:
  assumes "batch_tick us ud reply me = Ret me'"
  shows "items (queue me') = drop (batchSize me) (items (queue me))" "capacity (queue me') = capacity (queue me)"
    and "a \<notin> set (take (batchSize me) (items (queue me))) \<Longrightarrow>
       map_of (cache me') a = map_of (cache me) a \<and> map_of (inflight me') a = map_of (inflight me) a"
    and "fst ` set (inflight me) - set (take (batchSize me) (items (queue me))) \<subseteq> fst ` set (inflight me')"
proof -
  let ?b = "take (batchSize me) (items (queue me))"
  have "items (queue me') = drop (batchSize me) (items (queue me)) \<and> capacity (queue me') = capacity (queue me)
      \<and> (\<forall>a. a \<notin> set ?b \<longrightarrow> map_of (cache me') a = map_of (cache me) a \<and> map_of (inflight me') a = map_of (inflight me) a)
      \<and> fst ` set (inflight me) - set ?b \<subseteq> fst ` set (inflight me')"
    using assms apply_results_frame [of us ud ?b "the reply" "me\<lparr>queue := (queue me)\<lparr>items := drop (batchSize me) (items (queue me))\<rparr>\<rparr>" me']
    by (simp add: batch_tick_def processBatch_def Let_def split: if_splits option.splits) auto
  then show "items (queue me') = drop (batchSize me) (items (queue me))" "capacity (queue me') = capacity (queue me)"
    and "a \<notin> set ?b \<Longrightarrow>
       map_of (cache me') a = map_of (cache me) a \<and> map_of (inflight me') a = map_of (inflight me) a"
    and "fst ` set (inflight me) - set ?b \<subseteq> fst ` set (inflight me')"
    by simp_all
qed

lemma chan_try_send_cases:
  "chan_try_send x c = (c', b) \<Longrightarrow>
     b \<and> c' = c\<lparr>items := items c @ [x]\<rparr> \<and> length (items c) < capacity c
     \<or> \<not> b \<and> c' = c \<and> capacity c \<le> length (items c)"
  by (auto simp: chan_try_send_def chan_len_def split: if_splits)

lemma GetSymbol_cases [case_names same queued]:
  obtains "fst (GetSymbol a me) = me"
    | q where "map_of (cache me) a = None" "map_of (inflight me) a = None"
      "fst (GetSymbol a me) = me\<lparr>inflight := AList.update a True (inflight me), queue := q\<rparr>"
      "length (items (queue me)) < capacity (queue me) \<and> q = (queue me)\<lparr>items := items (queue me) @ [a]\<rparr>
       \<or> capacity (queue me) \<le> length (items (queue me)) \<and> items (queue me) = [] \<and> q = queue me
       \<or> capacity (queue me) \<le> length (items (queue me)) \<and> items (queue me) \<noteq> []
          \<and> q = (queue me)\<lparr>items := tl (items (queue me)) @ [a]\<rparr>"
proof -
  show ?thesis
  proof (cases "a \<noteq> zero_address \<and> map_of (cache me) a = None \<and> map_of (inflight me) a = None")
    case False
    then have "fst (GetSymbol a me) = me" by (auto simp: GetSymbol_def split: option.splits)
    then show ?thesis by (rule that(1))
  next
    case True
    then show ?thesis
      by (cases "items (queue me)"; cases "chan_len (queue me) < capacity (queue me)")
        (rule that(2); simp add: GetSymbol_def chan_try_send_def chan_len_def)+
  qed
qed

lemma enricher_inv_ask:
  assumes "enricher_inv me"
  shows "enricher_inv (fst (GetSymbol a me))"
proof (cases rule: GetSymbol_cases [of a me])
  case (queued q)
  have "a \<notin> set (items (queue me))"
    using queued(2) assms by (auto simp: enricher_inv_def map_of_eq_None_iff)
  moreover have "set (tl (items (queue me))) \<subseteq> set (items (queue me))"
    by (cases "items (queue me)") auto
  ultimately show ?thesis
    using queued(3,4) assms
    by (auto simp: enricher_inv_def chan_wf_def chan_len_def distinct_tl dom_map_of_update)
qed (use assms in simp)

lemma enricher_inv_tick:
  assumes "enricher_inv me" and "batch_tick us ud reply me = Ret me'"
  shows "enricher_inv me'"
proof -
  let ?q = "items (queue me)" and ?n = "batchSize me"
  have "set (drop ?n ?q) \<inter> set (take ?n ?q) = {}" "set (drop ?n ?q) \<subseteq> set ?q"
    using assms(1) set_take_disj_set_drop_if_distinct [of ?q ?n ?n] set_drop_subset [of ?n ?q]
    by (simp_all add: enricher_inv_def inf_commute)
  moreover have "set ?q \<subseteq> fst ` set (inflight me)" using assms(1) by (simp add: enricher_inv_def)
  ultimately have "set (drop ?n ?q) \<subseteq> fst ` set (inflight me')"
    using batch_tick_frame(4) [OF assms(2)] by blast
  with batch_tick_frame(1,2) [OF assms(2)] assms(1) show ?thesis
    by (auto simp: enricher_inv_def chan_wf_def chan_len_def)
qed

lemma enricher_inv_step: "enricher_step me me' \<Longrightarrow> enricher_inv me \<Longrightarrow> enricher_inv me'"
  by (cases rule: enricher_step.cases) (auto intro: enricher_inv_ask enricher_inv_tick)

lemma lost_step:
  assumes "enricher_step me me'" and "lost a me"
  shows "lost a me'"
  using assms
proof (cases rule: enricher_step.cases)
  case (ask b)
  show ?thesis
  proof (cases rule: GetSymbol_cases [of b me])
    case (queued q)
    have "a \<noteq> b" using assms(2) queued(2) by (auto simp: lost_def)
    moreover have "set (tl (items (queue me))) \<subseteq> set (items (queue me))"
      by (cases "items (queue me)") auto
    ultimately show ?thesis
      using assms(2) queued(3,4) ask by (auto simp: lost_def update_conv')
  qed (use assms(2) ask in simp)
next
  case (tick us ud reply)
  from assms(2) have "a \<notin> set (take (batchSize me) (items (queue me)))" "a \<notin> set (drop (batchSize me) (items (queue me)))"
    by (auto simp: lost_def dest: in_set_dropD in_set_takeD)
  with tick assms(2) batch_tick_frame(1,3) [OF tick] show ?thesis by (simp add: lost_def)
qed

lemma lost_run: "enricher_step\<^sup>*\<^sup>* me me' \<Longrightarrow> lost a me \<Longrightarrow> lost a me'"
  by (induction rule: rtranclp_induct) (auto intro: lost_step)

lemma enricher_inv_run: "enricher_step\<^sup>*\<^sup>* me me' \<Longrightarrow> enricher_inv me \<Longrightarrow> enricher_inv me'"
  by (induction rule: rtranclp_induct) (auto intro: enricher_inv_step)

lemma lost_symbol: "lost a me \<Longrightarrow> a \<noteq> zero_address \<Longrightarrow> GetSymbol a me = (me, short_form a)"
  by (auto simp: lost_def GetSymbol_def)

lemma keys_LoadAllMetadata: "fst ` set (LoadAllMetadata rows) \<subseteq> range ToLower"
proof -
  have "fst ` set acc \<subseteq> range ToLower \<Longrightarrow>
      fst ` set (fold (\<lambda>(a, m) acc. AList.update (ToLower a) m acc) rows acc) \<subseteq> range ToLower" for acc
  proof (induction rows arbitrary: acc)
    case (Cons row rows)
    obtain k m where row: "row = (k, m)" by fastforce
    have "fst ` set (AList.update (ToLower k) m acc) \<subseteq> range ToLower"
      using Cons.prems by (simp add: dom_map_of_update)
    from Cons.IH [OF this] show ?case by (simp add: row)
  qed simp
  then show ?thesis by (simp add: LoadAllMetadata_def)
qed

subsection \<open>Properties\<close>

text \<open>
  (C22) In every reachable state of the enricher each token has at most one pending request,
  the queue never exceeds its capacity, and every queued address is marked in flight.
\<close>

theorem requests_deduplicated:
  assumes "enricher_step\<^sup>*\<^sup>* (NewMetadataEnricher cap rows) me"
  shows "distinct (items (queue me)) \<and> length (items (queue me)) \<le> capacity (queue me)
    \<and> (\<forall>a \<in> set (items (queue me)). map_of (inflight me) a \<noteq> None)"
proof -
  have "enricher_inv (NewMetadataEnricher cap rows)"
    by (simp add: enricher_inv_def NewMetadataEnricher_def chan_make_def chan_wf_def chan_len_def)
  with assms have "enricher_inv me" by (rule enricher_inv_run)
  then show ?thesis
    by (auto simp: enricher_inv_def chan_wf_def chan_len_def dom_map_of_conv_image_fst [symmetric])
qed

theorem requests_deduplicated_witness:
  "let me = fst (GetSymbol ''0xAb'' (fst (GetSymbol ''0xAb'' (NewMetadataEnricher 1 None))))
   in distinct (items (queue me)) \<and> items (queue me) = [''0xAb'']"
proof -
  let ?start = "NewMetadataEnricher 1 None"
  let ?me = "fst (GetSymbol ''0xAb'' (fst (GetSymbol ''0xAb'' ?start)))"
  have "enricher_step\<^sup>*\<^sup>* ?start ?me"
    using enricher_step.ask [of ?start "''0xAb''"] enricher_step.ask [of "fst (GetSymbol ''0xAb'' ?start)" "''0xAb''"]
    by (meson r_into_rtranclp rtranclp_trans)
  from requests_deduplicated [OF this] show ?thesis
    by (simp add: Let_def GetSymbol_def NewMetadataEnricher_def zero_address_def chan_make_def
        chan_try_send_def chan_len_def)
qed

text \<open>
  When the queue is full, the oldest request is evicted and never made again: its
  address stays marked in flight, so for the rest of the run it is not queued and
  \<open>GetSymbol\<close> answers with the shortened address.
\<close>

lemma evicted_request_lost:
  assumes "items (queue me) = old # rest" and "enricher_inv me"
    and "capacity (queue me) \<le> length (items (queue me))"
    and "a \<noteq> zero_address" and "map_of (cache me) a = None" and "map_of (inflight me) a = None"
    and "old \<noteq> zero_address" and "map_of (cache me) old = None"
    and "enricher_step\<^sup>*\<^sup>* (fst (GetSymbol a me)) me'"
  shows "old \<notin> set (items (queue me')) \<and> snd (GetSymbol old me') = short_form old"
proof -
  have "old \<noteq> a" "old \<notin> set rest" "map_of (inflight me) old \<noteq> None"
    using assms(1,2,6) by (auto simp: enricher_inv_def dom_map_of_conv_image_fst [symmetric])
  then have "lost old (fst (GetSymbol a me))"
    using assms(1,3-6,8)
    by (simp add: lost_def GetSymbol_def Let_def chan_try_send_def chan_len_def update_conv')
  from lost_run [OF assms(9) this] show ?thesis
    using lost_symbol [of old me'] assms(7) by (simp add: lost_def)
qed

text \<open>
  A failed Multicall loses its whole batch: the early return of \<open>processBatch\<close> leaves the
  addresses marked in flight, so none of them is ever queued again.
\<close>

lemma failed_multicall_loses_batch:
  assumes "enricher_inv me" and "a \<in> set (take (batchSize me) (items (queue me)))"
    and "a \<noteq> zero_address" and "map_of (cache me) a = None"
    and "batch_tick us ud None me = Ret me1" and "enricher_step\<^sup>*\<^sup>* me1 me'"
  shows "a \<notin> set (items (queue me')) \<and> snd (GetSymbol a me') = short_form a"
proof -
  let ?q = "items (queue me)" and ?n = "batchSize me"
  have me1: "me1 = me\<lparr>queue := (queue me)\<lparr>items := drop ?n ?q\<rparr>\<rparr>"
    using assms(5) by (simp add: batch_tick_def processBatch_def Let_def split: if_splits)
  have "a \<notin> set (drop ?n ?q)"
    using assms(1,2) set_take_disj_set_drop_if_distinct [of ?q ?n ?n] by (auto simp: enricher_inv_def)
  moreover have "map_of (inflight me) a \<noteq> None"
    using assms(1) in_set_takeD [OF assms(2)]
    by (auto simp: enricher_inv_def dom_map_of_conv_image_fst [symmetric])
  ultimately have "lost a me1" using assms(4) me1 by (simp add: lost_def)
  from lost_run [OF assms(6) this] show ?thesis
    using lost_symbol [of a me'] assms(3) by (simp add: lost_def)
qed

text \<open>
  The second-level cache is never hit for an address whose checksummed text has an
  upper-case letter: the rows are loaded under lower-case keys and looked up under the
  checksummed one, so after a restart the symbol is requested again.
\<close>

lemma reloaded_cache_misses:
  assumes "ToLower a \<noteq> a" and "a \<noteq> zero_address"
  shows "GetDecimals a (NewMetadataEnricher cap (Some rows)) = 18
    \<and> snd (GetSymbol a (NewMetadataEnricher cap (Some rows))) = short_form a
    \<and> a \<in> set (items (queue (fst (GetSymbol a (NewMetadataEnricher cap (Some rows))))))"
proof -
  have "a \<notin> range ToLower" using assms(1) ToLower_idem by fastforce
  then have miss: "map_of (LoadAllMetadata rows) a = None"
    using keys_LoadAllMetadata [of rows] by (auto simp: map_of_eq_None_iff)
  then show ?thesis using assms(2)
    by (auto simp: GetSymbol_def GetDecimals_def NewMetadataEnricher_def chan_make_def chan_try_send_def chan_len_def)
qed

end
