(* ===== verification/Heights.thy ===== *)
theory Heights
  imports Go_Utils
begin

section \<open>Height and rate readings\<close>

text \<open>
  The sliding-window rate monitor (internal/monitor/stats.go), the height fields of the
  Prometheus metrics with their lag (internal/engine/metrics\_methods.go) and the height
  oracle (internal/engine/height\_oracle.go). Gauges hold the value they are set to; rates,
  \<open>float64\<close> in the code, are exact rationals.
\<close>

subsection \<open>The rate window (monitor/stats.go)\<close>

record TPSMonitor =
  buckets :: "int list"
  currentPos :: nat
  lastTick :: time

definition NewTPSMonitor :: "time \<Rightarrow> TPSMonitor" where
  "NewTPSMonitor now = \<lparr>buckets = replicate 5 0, currentPos = 0, lastTick = now\<rparr>"

text \<open>The loop that moves the position forward and clears the buckets on its way.\<close>

fun advance_window :: "nat \<Rightarrow> TPSMonitor \<Rightarrow> TPSMonitor" where
  "advance_window 0 m = m"
| "advance_window (Suc i) m =
     (let pos = (currentPos m + 1) mod 5
      in advance_window i (m\<lparr>currentPos := pos, buckets := (buckets m)[pos := 0]\<rparr>))"

definition Record :: "time \<Rightarrow> int \<Rightarrow> TPSMonitor \<Rightarrow> TPSMonitor" where
  "Record now count m =
     (let elapsed = tdiv (now - lastTick m) second;
          m1 = (if elapsed \<ge> 1 then
                  (if elapsed \<ge> 5
                   then m\<lparr>buckets := map (\<lambda>_. 0) (buckets m), currentPos := 0, lastTick := now\<rparr>
                   else (advance_window (nat elapsed) m)\<lparr>lastTick := now\<rparr>)
                else m)
      in m1\<lparr>buckets := (buckets m1)[currentPos m1 := buckets m1 ! currentPos m1 + count]\<rparr>)"

definition GetTPS :: "time \<Rightarrow> TPSMonitor \<Rightarrow> rat" where
  "GetTPS now m =
     (if now - lastTick m > 5 * second then 0 else of_int (sum_list (buckets m)) / 5)"

definition TPSMonitor_wf :: "TPSMonitor \<Rightarrow> bool" where
  "TPSMonitor_wf m \<longleftrightarrow> length (buckets m) = 5 \<and> currentPos m < 5"

text \<open>The window the ring stands for: the five last buckets, the oldest first.\<close>

definition window :: "TPSMonitor \<Rightarrow> int list" where
  "window m = drop (currentPos m + 1) (buckets m) @ take (currentPos m + 1) (buckets m)"

definition slide :: "nat \<Rightarrow> int list \<Rightarrow> int list" where
  "slide n w = drop n (w @ replicate n 0)"

definition add_last :: "int \<Rightarrow> int list \<Rightarrow> int list" where
  "add_last c w = butlast w @ [last w + c]"

lemma five_list: "length (xs :: 'a list) = 5 \<Longrightarrow> \<exists>a b c d e. xs = [a, b, c, d, e]"
  by (auto simp: length_Suc_conv numeral_eq_Suc)

lemma replicate_five: "replicate 5 x = [x, x, x, x, x]"
  by (simp add: numeral_eq_Suc)

lemma wf_cases [consumes 1]:
  assumes "TPSMonitor_wf m"
  obtains a b c d e where "buckets m = [a, b, c, d, e]"
    "currentPos m = 0 \<or> currentPos m = 1 \<or> currentPos m = 2 \<or> currentPos m = 3 \<or> currentPos m = 4"
  using assms five_list [of "buckets m"] by (fastforce simp: TPSMonitor_wf_def)

lemma window_advance1:
  assumes "TPSMonitor_wf m"
  shows "window (m\<lparr>currentPos := (currentPos m + 1) mod 5, buckets := (buckets m)[(currentPos m + 1) mod 5 := 0]\<rparr>)
    = slide 1 (window m)"
  using assms by (cases rule: wf_cases) (elim disjE; simp add: window_def slide_def)

lemma length_window: "TPSMonitor_wf m \<Longrightarrow> length (window m) = 5"
  by (simp add: window_def TPSMonitor_wf_def)

lemma slide_Suc: "length w = 5 \<Longrightarrow> slide n (slide 1 w) = slide (Suc n) w"
  by (cases w) (simp_all add: slide_def replicate_append_same [symmetric] del: replicate_append_same)

lemma advance_window_slides:
  "TPSMonitor_wf m \<Longrightarrow> window (advance_window n m) = slide n (window m) \<and> TPSMonitor_wf (advance_window n m)
     \<and> lastTick (advance_window n m) = lastTick m"
proof (induction n m rule: advance_window.induct)
  case (1 m)
  then show ?case by (simp add: slide_def)
next
  case (2 i m)
  let ?m = "m\<lparr>currentPos := (currentPos m + 1) mod 5, buckets := (buckets m)[(currentPos m + 1) mod 5 := 0]\<rparr>"
  have wf: "TPSMonitor_wf ?m" using 2(2) by (simp add: TPSMonitor_wf_def)
  have "window ?m = slide 1 (window m)" using 2(2) by (rule window_advance1)
  with 2(1) [OF refl wf] wf show ?case
    using slide_Suc [OF length_window [OF 2(2)]] by (simp add: Let_def)
qed

lemma add_count_window:
  assumes "TPSMonitor_wf m"
  shows "window (m\<lparr>buckets := (buckets m)[currentPos m := buckets m ! currentPos m + c]\<rparr>) = add_last c (window m)"
  using assms by (cases rule: wf_cases) (elim disjE; simp add: window_def add_last_def)

lemma slide_all: "length w = 5 \<Longrightarrow> 5 \<le> n \<Longrightarrow> slide n w = replicate 5 0"
  by (simp add: slide_def)

lemma sum_window: "TPSMonitor_wf m \<Longrightarrow> sum_list (window m) = sum_list (buckets m)"
  by (metis add.commute append_take_drop_id sum_list.append window_def)

text \<open>
  (C19) The ring refines the window: recording slides the five-second window by the whole
  seconds that passed (never back) and adds the count to the newest bucket, whatever the
  position of the ring; the ring stays well-formed and the rate is the mean of the window.
\<close>

theorem rate_window_refines:
  assumes "TPSMonitor_wf m"
  shows "TPSMonitor_wf (Record now c m)
    \<and> window (Record now c m) = add_last c (slide (nat (tdiv (now - lastTick m) second)) (window m))
    \<and> (now' \<le> lastTick m + 5 * second \<longrightarrow> GetTPS now' m = of_int (sum_list (window m)) / 5)"
proof -
  let ?e = "tdiv (now - lastTick m) second"
  let ?m1 = "if ?e \<ge> 1 then
      (if ?e \<ge> 5 then m\<lparr>buckets := map (\<lambda>_. 0) (buckets m), currentPos := 0, lastTick := now\<rparr>
       else (advance_window (nat ?e) m)\<lparr>lastTick := now\<rparr>) else m"
  have tick: "window (k\<lparr>lastTick := now\<rparr>) = window k" "TPSMonitor_wf (k\<lparr>lastTick := now\<rparr>) = TPSMonitor_wf k" for k
    by (simp_all add: window_def TPSMonitor_wf_def)
  have wf1: "TPSMonitor_wf ?m1"
    using assms advance_window_slides [OF assms, of "nat ?e"] tick(2) by (simp add: TPSMonitor_wf_def)
  have w1: "window ?m1 = slide (nat ?e) (window m)"
  proof -
    consider "?e < 1" | "1 \<le> ?e" "?e < 5" | "5 \<le> ?e" by linarith
    then show ?thesis
    proof cases
      case 1
      then show ?thesis by (simp add: slide_def)
    next
      case 2
      then show ?thesis using advance_window_slides [OF assms, of "nat ?e"] tick(1) by simp
    next
      case 3
      then have "slide (nat ?e) (window m) = replicate 5 0"
        using length_window [OF assms] by (intro slide_all) linarith+
      with 3 assms show ?thesis
        by (simp add: window_def TPSMonitor_wf_def map_replicate_const replicate_five)
    qed
  qed
  have "Record now c m = ?m1\<lparr>buckets := (buckets ?m1)[currentPos ?m1 := buckets ?m1 ! currentPos ?m1 + c]\<rparr>"
    by (simp add: Record_def Let_def)
  with wf1 w1 add_count_window [OF wf1, of c] sum_window [OF assms] show ?thesis
    by (simp add: TPSMonitor_wf_def GetTPS_def)
qed

theorem rate_window_refines_witness:
  "TPSMonitor_wf (NewTPSMonitor 0)
    \<and> window (Record (2 * second) 7 (NewTPSMonitor 0)) = [0, 0, 0, 0, 7]"
proof -
  have wf: "TPSMonitor_wf (NewTPSMonitor 0)" by (simp add: TPSMonitor_wf_def NewTPSMonitor_def)
  have "window (Record (2 * second) 7 (NewTPSMonitor 0))
      = add_last 7 (slide (nat (tdiv (2 * second - lastTick (NewTPSMonitor 0)) second)) (window (NewTPSMonitor 0)))"
    using rate_window_refines [OF wf, of "2 * second" 7 0] by blast
  also have "\<dots> = [0, 0, 0, 0, 7]"
    by (simp add: NewTPSMonitor_def window_def add_last_def slide_def tdiv_nonneg replicate_five numeral_2_eq_2)
  finally show ?thesis using wf by simp
qed

subsection \<open>Metrics and the height oracle\<close>

record Metrics =
  totalTxProcessed :: u64
  totalBlocksProcessed :: u64
  lastChainHeight :: int
  lastSyncHeight :: int
  SyncLagGauge :: int
  E2ELatency :: rat
  TransfersProcessed :: nat
  CheckpointUpdates :: nat
  tpsMonitor :: TPSMonitor
  bpsMonitor :: TPSMonitor

definition NewMetrics :: "time \<Rightarrow> Metrics" where
  "NewMetrics now =
     \<lparr>totalTxProcessed = 0, totalBlocksProcessed = 0, lastChainHeight = 0, lastSyncHeight = 0,
      SyncLagGauge = 0, E2ELatency = 0, TransfersProcessed = 0, CheckpointUpdates = 0,
      tpsMonitor = NewTPSMonitor now, bpsMonitor = NewTPSMonitor now\<rparr>"

definition recalculateLag :: "Metrics \<Rightarrow> Metrics" where
  "recalculateLag m =
     (let lag = SafeInt64Diff (word_of_int (max 0 (lastChainHeight m))) (word_of_int (max 0 (lastSyncHeight m)))
      in m\<lparr>SyncLagGauge := (if lag < 0 then 0 else lag)\<rparr>)"

definition UpdateCurrentSyncHeight :: "int \<Rightarrow> Metrics \<Rightarrow> Metrics" where
  "UpdateCurrentSyncHeight h m = recalculateLag (m\<lparr>lastSyncHeight := h\<rparr>)"

definition UpdateChainHeight :: "int \<Rightarrow> Metrics \<Rightarrow> Metrics" where
  "UpdateChainHeight h m = recalculateLag (m\<lparr>lastChainHeight := h\<rparr>)"

definition RecordActivity :: "time \<Rightarrow> int \<Rightarrow> Metrics \<Rightarrow> Metrics" where
  "RecordActivity now count m = m\<lparr>tpsMonitor := Record now count (tpsMonitor m)\<rparr>"

definition RecordBlockActivity :: "time \<Rightarrow> int \<Rightarrow> Metrics \<Rightarrow> Metrics" where
  "RecordBlockActivity now count m = m\<lparr>bpsMonitor := Record now count (bpsMonitor m)\<rparr>"

definition RecordBlockProcessed :: "time \<Rightarrow> Metrics \<Rightarrow> Metrics" where
  "RecordBlockProcessed now m =
     RecordBlockActivity now 1 (m\<lparr>totalBlocksProcessed := totalBlocksProcessed m + 1\<rparr>)"

definition GetWindowTPS :: "time \<Rightarrow> Metrics \<Rightarrow> rat" where
  "GetWindowTPS now m = GetTPS now (tpsMonitor m)"

record HeightOracle =
  chainHead :: int
  indexedHead :: int
  updatedAt :: time
  StrictHeightCheck :: bool
  DriftTolerance :: int

definition globalHeightOracle :: HeightOracle where
  "globalHeightOracle =
     \<lparr>chainHead = 0, indexedHead = 0, updatedAt = 0, StrictHeightCheck = True, DriftTolerance = 5\<rparr>"

definition SetChainHead :: "time \<Rightarrow> int \<Rightarrow> HeightOracle \<times> Metrics \<Rightarrow> HeightOracle \<times> Metrics" where
  "SetChainHead now h om =
     (case om of (o', m) \<Rightarrow> (o'\<lparr>chainHead := h, updatedAt := now\<rparr>, UpdateChainHeight h m))"

text \<open>The second component says whether the strict check logs its error.\<close>

definition SetIndexedHead :: "int \<Rightarrow> HeightOracle \<times> Metrics \<Rightarrow> (HeightOracle \<times> Metrics) \<times> bool" where
  "SetIndexedHead h om =
     (case om of (o', m) \<Rightarrow>
        ((o'\<lparr>indexedHead := h\<rparr>, UpdateCurrentSyncHeight h m),
         StrictHeightCheck o' \<and> chainHead o' > 0 \<and> h > wrap_i64 (chainHead o' + DriftTolerance o')))"

definition SyncLag :: "HeightOracle \<Rightarrow> int" where
  "SyncLag o' = (let lag = wrap_i64 (chainHead o' - indexedHead o') in if lag < 0 then 0 else lag)"

definition DriftBlocks :: "HeightOracle \<Rightarrow> int" where
  "DriftBlocks o' = (let drift = wrap_i64 (indexedHead o' - chainHead o') in if drift < 0 then 0 else drift)"

definition IsTimeTravel :: "HeightOracle \<Rightarrow> bool" where
  "IsTimeTravel o' \<longleftrightarrow> DriftBlocks o' > DriftTolerance o'"

record HeightSnapshot =
  hs_ChainHead :: int
  hs_IndexedHead :: int
  hs_SyncLag :: int
  hs_DriftBlocks :: int
  hs_IsTimeTravel :: bool
  hs_UpdatedAt :: time

definition HeightOracle_Snapshot :: "HeightOracle \<Rightarrow> HeightSnapshot" where
  "HeightOracle_Snapshot o' =
     (let lag0 = wrap_i64 (chainHead o' - indexedHead o');
          drift = (if lag0 < 0 then wrap_i64 (- lag0) else 0);
          lag = (if lag0 < 0 then 0 else lag0)
      in \<lparr>hs_ChainHead = chainHead o', hs_IndexedHead = indexedHead o', hs_SyncLag = lag,
          hs_DriftBlocks = drift, hs_IsTimeTravel = drift > DriftTolerance o',
          hs_UpdatedAt = updatedAt o'\<rparr>)"

text \<open>
  The writers of the two singletons: \<open>SetChainHead\<close> (the tail follower) and \<open>SetIndexedHead\<close>
  (after a checkpoint).
\<close>

datatype height_write = ChainSeen time int | Indexed int

fun apply_write :: "height_write \<Rightarrow> HeightOracle \<times> Metrics \<Rightarrow> HeightOracle \<times> Metrics" where
  "apply_write (ChainSeen now h) om = SetChainHead now h om"
| "apply_write (Indexed h) om = fst (SetIndexedHead h om)"

fun height_of :: "height_write \<Rightarrow> int" where
  "height_of (ChainSeen now h) = h"
| "height_of (Indexed h) = h"

abbreviation is_height :: "int \<Rightarrow> bool" where
  "is_height h \<equiv> 0 \<le> h \<and> h \<le> max_i64"

definition heights_agree :: "HeightOracle \<times> Metrics \<Rightarrow> bool" where
  "heights_agree om \<longleftrightarrow> lastChainHeight (snd om) = chainHead (fst om) \<and> lastSyncHeight (snd om) = indexedHead (fst om)
     \<and> SyncLagGauge (snd om) = max 0 (chainHead (fst om) - indexedHead (fst om))
     \<and> is_height (chainHead (fst om)) \<and> is_height (indexedHead (fst om))"

lemma recalculateLag_eq:
  "is_height (lastChainHeight m) \<Longrightarrow> is_height (lastSyncHeight m) \<Longrightarrow>
     recalculateLag m = m\<lparr>SyncLagGauge := max 0 (lastChainHeight m - lastSyncHeight m)\<rparr>"
  by (auto simp: recalculateLag_def Let_def SafeInt64Diff_clamp u64_of_nat_uint max_i64_def min_i64_def)

lemma apply_write_agree:
  "heights_agree om \<Longrightarrow> is_height (height_of w) \<Longrightarrow> heights_agree (apply_write w om)"
  by (cases om; cases w)
    (auto simp: heights_agree_def SetChainHead_def SetIndexedHead_def UpdateChainHeight_def
      UpdateCurrentSyncHeight_def recalculateLag_eq)

lemma apply_writes_agree:
  "heights_agree om \<Longrightarrow> \<forall>w \<in> set ws. is_height (height_of w) \<Longrightarrow> heights_agree (fold apply_write ws om)"
  by (induction ws arbitrary: om) (simp_all add: apply_write_agree)



end
