(* ===== verification/Processor.thy ===== *)
theory Processor
  imports Orchestrator Enricher Heights
begin

section \<open>The processor (internal/engine/processor\_*.go)\<close>

text \<open>
  The processor turns a fetched block into a \<open>PersistTask\<close> and dispatches it to the
  orchestrator: reorg check against the hash of the parent, extraction of the activities from
  logs and transactions, the task, the events for the UI, the metrics. It writes nothing to
  the database itself.

  \<^item> \<open>proc_ext\<close> holds what is outside the sources: functions of go-ethereum and of
    \<open>holiman/uint256\<close> (\<open>Sender\<close>, \<open>FromBig\<close>, \<open>HexToHash\<close>, \<open>HexToAddress\<close>, \<open>TopicAddress\<close> for
    \<open>BytesToAddress(topic.Bytes()).Hex()\<close>, \<open>MockHash\<close> for \<open>BytesToHash(append(hash, tag...)).Hex()\<close>),
    the answers of the clock, the random source, the database, the context and the RPC node,
    indexed by \<open>p_ticks\<close>, the number of such answers consumed so far, and the order in which Go
    walks a map and sorts equal elements.
  \<^item> \<open>p_dispatched\<close> lists the commands handed to \<open>Orchestrator.Dispatch\<close>; \<open>p_events\<close> the calls
    of \<open>EventHook\<close>, \<open>None\<close> for a nil hook; \<open>p_metrics\<close> is \<open>None\<close> for nil metrics.
\<close>

record GasSpender =
  gs_Address :: string
  gs_Label :: string
  gs_TotalGas :: u64
  gs_TotalFee :: string

record proc_ext =
  Sender :: "int \<Rightarrow> Tx \<Rightarrow> string option"
  FromBig :: "int \<Rightarrow> u256 \<times> bool"
  HexToHash :: "string \<Rightarrow> string"
  HexToAddress :: "string \<Rightarrow> string"
  TopicAddress :: "string \<Rightarrow> string"
  MockHash :: "string \<Rightarrow> string \<Rightarrow> string"
  Now :: "nat \<Rightarrow> time"
  RandInt :: "nat \<Rightarrow> nat option"
  DbHash :: "nat \<Rightarrow> int \<Rightarrow> string option"
  CtxErr :: "nat \<Rightarrow> go_error option"
  ClientBlock :: "nat \<Rightarrow> int \<Rightarrow> go_error + EthBlock"
  ClientLogs :: "nat \<Rightarrow> int \<Rightarrow> go_error + Log list"
  RangeOrder :: "GasSpender list \<Rightarrow> GasSpender list"
  SortSlice :: "(GasSpender \<Rightarrow> GasSpender \<Rightarrow> bool) \<Rightarrow> GasSpender list \<Rightarrow> GasSpender list"

record BlockEvent =
  be_number :: u64
  be_hash :: string
  be_parent_hash :: string
  be_timestamp :: u64
  be_tx_count :: nat
  be_latency_ms :: int
  be_latency_display :: string
  be_latest_chain :: int
  be_sync_lag :: int
  be_tps :: rat

datatype ui_event = BlockEv BlockEvent | GasEv "GasSpender list" | TransferEv Transfer

record Processor =
  p_chainID :: int
  p_enableSimulator :: bool
  p_networkMode :: string
  p_watchedAddresses :: "string list"
  p_retryQueue :: "BlockData chan"
  p_maxRetries :: int
  p_checkpointBatch :: int
  p_blocksSinceLastCheckpoint :: int
  p_enricher :: "MetadataEnricher option"
  p_metrics :: "Metrics option"
  p_events :: "ui_event list option"
  p_lastBlockNum :: int
  p_lastBlockHash :: string
  p_dispatched :: "(MsgType \<times> MsgData) list"
  p_ticks :: nat

definition NewProcessor ::
    "nat \<Rightarrow> int \<Rightarrow> bool \<Rightarrow> string \<Rightarrow> MetadataEnricher option \<Rightarrow> Metrics \<Rightarrow> Processor" where
  "NewProcessor retryQueueSize chain sim mode metadata_client_enricher met =
     \<lparr>p_chainID = chain, p_enableSimulator = sim, p_networkMode = mode, p_watchedAddresses = [],
      p_retryQueue = chan_make retryQueueSize, p_maxRetries = 3, p_checkpointBatch = 100,
      p_blocksSinceLastCheckpoint = 0,
      p_enricher = (if chain \<noteq> anvil_chain_id then metadata_client_enricher else None),
      p_metrics = Some met, p_events = None, p_lastBlockNum = 0, p_lastBlockHash = [],
      p_dispatched = [], p_ticks = 0\<rparr>"

definition SetBatchCheckpoint :: "int \<Rightarrow> Processor \<Rightarrow> Processor" where
  "SetBatchCheckpoint n p = p\<lparr>p_checkpointBatch := n\<rparr>"

definition SetWatchedAddresses :: "proc_ext \<Rightarrow> string list \<Rightarrow> Processor \<Rightarrow> Processor" where
  "SetWatchedAddresses x addrs p = p\<lparr>p_watchedAddresses := remdups (map (HexToAddress x) addrs)\<rparr>"

text \<open>The next answer of the outside world.\<close>

definition ask_ext :: "(nat \<Rightarrow> 'a) \<Rightarrow> Processor \<Rightarrow> Processor \<times> 'a" where
  "ask_ext f p = (p\<lparr>p_ticks := Suc (p_ticks p)\<rparr>, f (p_ticks p))"

definition dispatch_cmd :: "MsgType \<Rightarrow> MsgData \<Rightarrow> Processor \<Rightarrow> Processor" where
  "dispatch_cmd t d p = p\<lparr>p_dispatched := p_dispatched p @ [(t, d)]\<rparr>"

text \<open>\<open>secureIntn\<close> of utils.go: 0 when the random source fails.\<close>

definition secureIntn :: "proc_ext \<Rightarrow> nat \<Rightarrow> Processor \<Rightarrow> Processor \<times> nat" where
  "secureIntn x n p =
     (if n = 0 then (p, 0)
      else let (p1, r) = ask_ext (RandInt x) p in (p1, case r of None \<Rightarrow> 0 | Some v \<Rightarrow> v mod n))"

definition since :: "time \<Rightarrow> time \<Rightarrow> duration" where
  "since now t = max min_i64 (min max_i64 (now - t))"

definition block_time :: "EthBlock \<Rightarrow> time" where
  "block_time b = wrap_i64 (uint (eb_Time b)) * second"

subsection \<open>Known addresses (labels.go, signatures.go, processor\_transfer.go)\<close>

definition FaucetLabels :: "(string \<times> string) list" where
  "FaucetLabels =
     [(''0x6Cc9397c3B38739daCbfaA18E600263a1174457D'', ''Alchemy Faucet''),
      (''0x8ad9277301013d084931fc5ca31787b122fca66'', ''Infura Faucet''),
      (''0x4b78662286D9D99772a93c091910609614444444'', ''RockX Faucet''),
      (''0x2e6B6A8625686868686868686868686868686868'', ''Google Faucet'')]"

definition GetAddressLabel :: "string \<Rightarrow> string" where
  "GetAddressLabel addr =
     (case filter (\<lambda>(k, v). EqualFold k addr) FaucetLabels of [] \<Rightarrow> [] | (k, v) # _ \<Rightarrow> v)"

definition TransferEventHash :: "proc_ext \<Rightarrow> string" where
  "TransferEventHash x = HexToHash x ''0xddf252ad1be2c89b69c2b068fc378daa952ba7f163c4a11628f5514cfc0afda6''"

definition ApprovalEventHash :: "proc_ext \<Rightarrow> string" where
  "ApprovalEventHash x = HexToHash x ''0x8c5be1e5ebec7d5bd14f71427d1e84f3dd0314c0f7b2291e5b200ac8c7c3b925''"

definition SwapEventHash :: "proc_ext \<Rightarrow> string" where
  "SwapEventHash x = HexToHash x ''0xc42079f94a6350d7e5735f2a1538197108a858e5111b9ad0a72f5db98e4c0388''"

definition MintEventHash :: "proc_ext \<Rightarrow> string" where
  "MintEventHash x = HexToHash x ''0x0f6711612c5b94d76f9d34343434343434343434343434343434343434343434''"

definition tokenMap :: "(string \<times> string) list" where
  "tokenMap =
     [(''0x1c7d4b196cb0c7b01d743fbc6116a902379c7238'', ''USDC''),
      (''0xff34b3d4aee8ddcd6f9afffb6fe49bd371b8a357'', ''DAI''),
      (''0x7b79995e5f793a07bc00c21412e50ecae098e7f9'', ''WETH''),
      (''0xa3382dffca847b84592c05ab05937a1a38623bc'', ''UNI''),
      (''0x4200000000000000000000000000000000000006'', ''WETH''),
      (''0x7af963cf6d228e964f296a96f3ad97a1ee1bb303'', ''LINK''),
      (''0x0000000000000000000000000000000000000000'', ''ETH'')]"

definition getTokenSymbol :: "string \<Rightarrow> string" where
  "getTokenSymbol tokenAddr =
     (case map_of tokenMap (ToLower tokenAddr) of Some s \<Rightarrow> s | None \<Rightarrow> [])"

subsection \<open>Logs (processor\_transfer.go)\<close>

text \<open>\<open>big.Int.SetBytes\<close>: big endian.\<close>

definition SetBytes :: "8 word list \<Rightarrow> int" where
  "SetBytes bs = fold (\<lambda>b acc. 256 * acc + uint b) bs 0"

text \<open>The \<open>switch\<close> of \<open>ProcessLog\<close>: type, from, to and amount.\<close>

definition log_fields :: "proc_ext \<Rightarrow> Log \<Rightarrow> string \<times> string \<times> string \<times> u256" where
  "log_fields x v =
     (let ts = log_Topics v; t = hd ts;
          parties = (if length ts \<ge> 3 then (TopicAddress x (ts ! 1), TopicAddress x (ts ! 2)) else ([], []));
          amount = NewUint256FromBigInt (FromBig x) (Some (SetBytes (log_Data v)))
      in if t = TransferEventHash x then (''TRANSFER'', fst parties, snd parties, amount)
         else if t = SwapEventHash x then (''SWAP'', fst parties, snd parties, amount)
         else if t = ApprovalEventHash x then (''APPROVE'', fst parties, snd parties, amount)
         else if t = MintEventHash x
         then (''MINT'', zero_address, if length ts \<ge> 2 then TopicAddress x (ts ! 1) else [], amount)
         else (''CONTRACT_EVENT'', log_Address v, ''Multiple'', NewUint256 0))"

text \<open>The symbol: faucet label, static table, enricher, shortened address, in this order.\<close>

definition log_symbol :: "proc_ext \<Rightarrow> string \<Rightarrow> Log \<Rightarrow> Processor \<Rightarrow> Processor \<times> string" where
  "log_symbol x fromLabel v p =
     (let token = ToLower (log_Address v);
          (p1, sym) =
            (if fromLabel \<noteq> [] then (p, fromLabel)
             else if getTokenSymbol (log_Address v) \<noteq> [] then (p, getTokenSymbol (log_Address v))
             else case p_enricher p of
               None \<Rightarrow> (p, [])
             | Some me \<Rightarrow>
                 (let (me1, s) = GetSymbol (HexToAddress x token) me in (p\<lparr>p_enricher := Some me1\<rparr>, s)))
      in (p1, if sym = [] then short_form token else sym))"

definition ProcessLog :: "proc_ext \<Rightarrow> Log \<Rightarrow> Processor \<Rightarrow> Processor \<times> Transfer option" where
  "ProcessLog x v p =
     (if log_Topics v = [] then (p, None)
      else
        let (ty, from, to, amount) = log_fields x v;
            fromLabel = GetAddressLabel (ToLower from);
            (p1, sym) = log_symbol x fromLabel v p
        in (p1, Some \<lparr>BlockNumber = uint (log_BlockNumber v), TxHash = log_TxHash v, LogIndex = log_Index v,
              From = ToLower from, To = ToLower to, TokenAddress = ToLower (log_Address v), Symbol = sym,
              Type = (if fromLabel \<noteq> [] then ''FAUCET_CLAIM'' else ty), Amount = amount\<rparr>))"

text \<open>The loop over the logs, common to the single and the batch path.\<close>

fun process_logs :: "proc_ext \<Rightarrow> Log list \<Rightarrow> Processor \<Rightarrow> Processor \<times> Transfer list" where
  "process_logs x [] p = (p, [])"
| "process_logs x (v # vs) p =
     (let (p1, a) = ProcessLog x v p; (p2, as) = process_logs x vs p1
      in (p2, case a of None \<Rightarrow> as | Some t \<Rightarrow> t # as))"

subsection \<open>Transactions, single path (processor\_block\_part1.go)\<close>

definition sender_text :: "proc_ext \<Rightarrow> int \<Rightarrow> Tx \<Rightarrow> string" where
  "sender_text x chain tx = (case Sender x chain tx of Some a \<Rightarrow> a | None \<Rightarrow> ''0xunknown'')"

definition tx_transfer ::
    "proc_ext \<Rightarrow> int \<Rightarrow> Tx \<Rightarrow> string \<Rightarrow> u64 \<Rightarrow> string \<Rightarrow> string \<Rightarrow> string \<Rightarrow> Transfer" where
  "tx_transfer x blockNum tx fromAddr idx to symb ty =
     \<lparr>BlockNumber = blockNum, TxHash = tx_Hash tx, LogIndex = idx, From = ToLower fromAddr, To = to,
      TokenAddress = zero_address, Symbol = symb, Type = ty,
      Amount = NewUint256FromBigInt (FromBig x) (Some (tx_Value tx))\<rparr>"

definition detectFaucetNoDB :: "proc_ext \<Rightarrow> int \<Rightarrow> Tx \<Rightarrow> string \<Rightarrow> u64 \<Rightarrow> Transfer option" where
  "detectFaucetNoDB x blockNum tx fromAddr idx =
     (let faucetLabel = GetAddressLabel fromAddr in
      if faucetLabel = [] then None
      else Some (tx_transfer x blockNum tx fromAddr idx
                  (ToLower (case tx_To tx of None \<Rightarrow> ''0xcontract_creation'' | Some a \<Rightarrow> a))
                  faucetLabel ''FAUCET_CLAIM''))"

definition detectDeployNoDB :: "proc_ext \<Rightarrow> int \<Rightarrow> Tx \<Rightarrow> string \<Rightarrow> u64 \<Rightarrow> Transfer option" where
  "detectDeployNoDB x blockNum tx fromAddr idx =
     (if tx_To tx \<noteq> None then None
      else Some (tx_transfer x blockNum tx fromAddr idx ''0xcontract_creation'' ''EVM'' ''DEPLOY''))"

definition detectEthTransferNoDB ::
    "proc_ext \<Rightarrow> int \<Rightarrow> Tx \<Rightarrow> string \<Rightarrow> u64 \<Rightarrow> string list \<Rightarrow> Transfer option" where
  "detectEthTransferNoDB x blockNum tx fromAddr idx txWithRealLogs =
     (if tx_Value tx \<le> 0 \<or> tx_Hash tx \<in> set txWithRealLogs then None
      else case tx_To tx of
        None \<Rightarrow> None
      | Some a \<Rightarrow> Some (tx_transfer x blockNum tx fromAddr idx (ToLower a) ''ETH'' ''ETH_TRANSFER''))"

definition detect_tx :: "proc_ext \<Rightarrow> int \<Rightarrow> int \<Rightarrow> string list \<Rightarrow> Tx \<Rightarrow> u64 \<Rightarrow> Transfer option" where
  "detect_tx x chain blockNum realLogs tx idx =
     (let fromAddr = sender_text x chain tx in
      case detectFaucetNoDB x blockNum tx fromAddr idx of
        Some t \<Rightarrow> Some t
      | None \<Rightarrow>
          (case detectDeployNoDB x blockNum tx fromAddr idx of
             Some t \<Rightarrow> Some t
           | None \<Rightarrow> detectEthTransferNoDB x blockNum tx fromAddr idx realLogs))"

text \<open>The loop over the transactions; the running index grows with every activity.\<close>

fun scan_txs :: "(Tx \<Rightarrow> u64 \<Rightarrow> Transfer option) \<Rightarrow> u64 \<Rightarrow> Tx list \<Rightarrow> Transfer list" where
  "scan_txs f idx [] = []"
| "scan_txs f idx (tx # txs) =
     (case f tx idx of None \<Rightarrow> scan_txs f idx txs | Some t \<Rightarrow> t # scan_txs f (idx + 1) txs)"

definition extractActivities ::
    "proc_ext \<Rightarrow> int \<Rightarrow> Log list \<Rightarrow> Tx list \<Rightarrow> Processor \<Rightarrow> Processor \<times> Transfer list" where
  "extractActivities x blockNum logs txs p =
     (let (p1, fromLogs) = process_logs x logs p
      in (p1, fromLogs @ scan_txs (detect_tx x (p_chainID p) blockNum (map TxHash fromLogs)) 20000 txs))"

definition anvil_accounts :: "string list" where
  "anvil_accounts =
     [''0xf39Fd6e51aad88F6F4ce6aB8827279cffFb92266'', ''0x70997970C51812dc3A010C7d01b50e0d17dc79ee'',
      ''0x3C44CdDdB6a900fa2b585dd299e03d12FA4293BC'', ''0x90F79bf6EB2c4f870365E785982E1f101E93b906'',
      ''0x15d34AAf54267DB7D7c367839AAf71A00a2C6A65'']"

definition getAnvilAccount :: "nat \<Rightarrow> string" where
  "getAnvilAccount i = anvil_accounts ! (i mod 5)"

fun mock_loop :: "proc_ext \<Rightarrow> EthBlock \<Rightarrow> nat \<Rightarrow> nat \<Rightarrow> Processor \<Rightarrow> Processor \<times> Transfer list" where
  "mock_loop x b i 0 p = (p, [])"
| "mock_loop x b i (Suc n) p =
     (let (p1, r) = secureIntn x 1000 p;
          t = \<lparr>BlockNumber = eb_Number b, TxHash = MockHash x (eb_Hash b) (''ANVIL_MOCK_'' @ dec_nat i),
               LogIndex = 99990 + of_nat i, From = ToLower (getAnvilAccount i),
               To = ToLower (getAnvilAccount (i + 1)), TokenAddress = zero_address, Symbol = ''ETH'',
               Type = ''TRANSFER'', Amount = NewUint256FromBigInt (FromBig x) (Some (100 + int r))\<rparr>;
          (p2, ts) = mock_loop x b (Suc i) n p1
      in (p2, t # ts))"

definition processAnvilSyntheticNoDB ::
    "proc_ext \<Rightarrow> EthBlock \<Rightarrow> Transfer list \<Rightarrow> Processor \<Rightarrow> Processor \<times> Transfer list" where
  "processAnvilSyntheticNoDB x b activities p =
     (if activities \<noteq> [] \<or> \<not> p_enableSimulator p \<or> p_networkMode p \<noteq> ''anvil'' then (p, activities)
      else let (p1, r) = secureIntn x 4 p; (p2, ts) = mock_loop x b 0 (2 + r) p1
        in (p2, activities @ ts))"

subsection \<open>Gas leaderboard\<close>

text \<open>
  \<open>fmt_eth f\<close> is \<open>fmt.Sprintf("%.4f", f / 1e18)\<close> on \<open>big.Float\<close>s: the quotient is rounded to
  the precision of \<open>SetInt\<close> (the bit length of \<open>f\<close>, at least 64), then to four decimals, both
  to nearest even.
\<close>

definition round_even :: "rat \<Rightarrow> int" where
  "round_even q =
     (let fl = \<lfloor>q\<rfloor>; r = q - of_int fl
      in if r < 1 / 2 then fl else if r > 1 / 2 then fl + 1 else if even fl then fl else fl + 1)"

fun bit_len :: "nat \<Rightarrow> nat" where
  "bit_len n = (if n = 0 then 0 else Suc (bit_len (n div 2)))"

declare bit_len.simps [simp del]

definition two_power :: "int \<Rightarrow> rat" where
  "two_power e = (if e \<ge> 0 then 2 ^ nat e else 1 / 2 ^ nat (- e))"

definition quo_1e18 :: "int \<Rightarrow> rat" where
  "quo_1e18 f =
     (if f = 0 then 0
      else
        let L = int (bit_len (nat \<bar>f\<bar>)); prec = max L 64;
            q = of_int \<bar>f\<bar> / 1000000000000000000;
            k = (if q \<ge> two_power (L - 60) then L - 60 else L - 61);
            e = prec - 1 - k
        in of_int (sgn f) * of_int (round_even (q * two_power e)) / two_power e)"

definition pad4 :: "nat \<Rightarrow> string" where
  "pad4 n = replicate (4 - length (dec_nat n)) (CHR ''0'') @ dec_nat n"

definition fmt_eth :: "int \<Rightarrow> string" where
  "fmt_eth f =
     (let n = round_even (\<bar>quo_1e18 f\<bar> * 10000)
      in (if f < 0 then ''-'' else []) @ dec_nat (nat (n div 10000)) @ ''.'' @ pad4 (nat (n mod 10000)))"

definition gas_to :: "Tx \<Rightarrow> string" where
  "gas_to tx = (case tx_To tx of None \<Rightarrow> ''0xcontract_creation'' | Some a \<Rightarrow> ToLower a)"

definition add_spender :: "Tx \<Rightarrow> (string \<times> GasSpender) list \<Rightarrow> (string \<times> GasSpender) list" where
  "add_spender tx m =
     (let to = gas_to tx; fee = uint (tx_Gas tx) * tx_GasPrice tx
      in case map_of m to of
           Some s \<Rightarrow>
             (let existing = (case SetString10 (gs_TotalFee s) of None \<Rightarrow> 0 | Some v \<Rightarrow> v)
              in AList.update to (s\<lparr>gs_TotalGas := gs_TotalGas s + tx_Gas tx,
                                   gs_TotalFee := big_string (existing + fee)\<rparr>) m)
         | None \<Rightarrow> AList.update to \<lparr>gs_Address = to, gs_Label = GetAddressLabel to,
                                    gs_TotalGas = tx_Gas tx, gs_TotalFee = big_string fee\<rparr> m)"

definition gas_totals :: "Tx list \<Rightarrow> (string \<times> GasSpender) list" where
  "gas_totals txs = fold add_spender txs []"

definition AnalyzeGas :: "proc_ext \<Rightarrow> EthBlock \<Rightarrow> GasSpender list" where
  "AnalyzeGas x b =
     (let spenders = RangeOrder x (map snd (gas_totals (eb_Transactions b)));
          result = map (\<lambda>s. s\<lparr>gs_TotalFee := fmt_eth (the (SetString10 (gs_TotalFee s)))\<rparr>) spenders
      in take 5 (SortSlice x (\<lambda>s t. gs_TotalGas s > gs_TotalGas t) result))"

subsection \<open>One block (processor\_block\_part1.go)\<close>

definition handleReorgReadOnly ::
    "proc_ext \<Rightarrow> int \<Rightarrow> string \<Rightarrow> Processor \<Rightarrow> Processor \<times> go_error option" where
  "handleReorgReadOnly x blockNum parentHash p =
     (if p_chainID p = anvil_chain_id then (p, None)
      else
        let prevNum = blockNum - 1 in
        if p_lastBlockNum p = wrap_i64 prevNum \<and> p_lastBlockHash p \<noteq> []
        then (p, if p_lastBlockHash p \<noteq> parentHash then Some (ReorgError blockNum) else None)
        else
          let (p1, row) = ask_ext (\<lambda>t. DbHash x t prevNum) p
          in (p1, case row of
                    None \<Rightarrow> None
                  | Some h \<Rightarrow> if h \<noteq> parentHash then Some (ReorgError blockNum) else None))"

definition updateReorgCache :: "int \<Rightarrow> string \<Rightarrow> Processor \<Rightarrow> Processor" where
  "updateReorgCache blockNum blockHash p =
     (if p_chainID p = anvil_chain_id then p
      else p\<lparr>p_lastBlockNum := wrap_i64 blockNum, p_lastBlockHash := blockHash\<rparr>)"

definition model_block :: "EthBlock \<Rightarrow> Block" where
  "model_block b =
     \<lparr>Number = eb_Number b, Hash = eb_Hash b, ParentHash = eb_ParentHash b, Timestamp = eb_Time b,
      GasLimit = eb_GasLimit b, GasUsed = eb_GasUsed b, BaseFeePerGas = eb_BaseFee b,
      TransactionCount = int (length (eb_Transactions b))\<rparr>"

definition persist_task :: "time \<Rightarrow> EthBlock \<Rightarrow> Transfer list \<Rightarrow> PersistTask" where
  "persist_task now b activities =
     \<lparr>task_Height = num_u64 (eb_Number b), task_Block = model_block b, task_Transfers = activities,
      task_Sequence = take_bit 63 (word_of_int now)\<rparr>"

text \<open>\<open>pushEvents\<close>; the \<open>tps\<close> entry reads the metrics without a nil check.\<close>

definition block_event :: "time \<Rightarrow> time \<Rightarrow> EthBlock \<Rightarrow> int \<Rightarrow> Metrics \<Rightarrow> BlockEvent" where
  "block_event now now2 b chain m =
     (let latencyMs = max 0 (tdiv (since now (block_time b)) millisecond);
          latest = lastChainHeight m
      in \<lparr>be_number = num_u64 (eb_Number b), be_hash = eb_Hash b, be_parent_hash = eb_ParentHash b,
          be_timestamp = eb_Time b, be_tx_count = length (eb_Transactions b), be_latency_ms = latencyMs,
          be_latency_display =
            (if chain = anvil_chain_id \<and> latencyMs > 3600000 then ''0.00s (Replay)''
             else big_string latencyMs @ ''ms''),
          be_latest_chain = latest,
          be_sync_lag = max 0 (wrap_i64 (latest - wrap_i64 (uint (num_u64 (eb_Number b))))),
          be_tps = GetWindowTPS now2 m\<rparr>)"

definition pushEvents ::
    "proc_ext \<Rightarrow> EthBlock \<Rightarrow> Transfer list \<Rightarrow> GasSpender list \<Rightarrow> Processor \<Rightarrow> Processor go" where
  "pushEvents x b activities leaderboard p =
     (case p_events p of
        None \<Rightarrow> Ret p
      | Some evs \<Rightarrow>
          (let (p1, now) = ask_ext (Now x) p; (p2, now2) = ask_ext (Now x) p1; (p3, now3) = ask_ext (Now x) p2
           in case p_metrics p of
                None \<Rightarrow> Panic
              | Some m \<Rightarrow>
                  Ret (p3\<lparr>p_events := Some (evs @ BlockEv (block_event now now2 b (p_chainID p) m)
                                              # GasEv leaderboard # map TransferEv activities),
                          p_metrics := Some (let m1 = RecordActivity now3 (int (length activities)) m
                            in m1\<lparr>TransfersProcessed := TransfersProcessed m1 + length activities\<rparr>)\<rparr>)))"

definition sync_height_arg :: "int \<Rightarrow> int" where
  "sync_height_arg n = (if in_i64 n then n else uint (take_bit 63 (num_u64 n)))"

definition updateMetrics :: "proc_ext \<Rightarrow> EthBlock \<Rightarrow> Processor \<Rightarrow> Processor" where
  "updateMetrics x b p =
     (case p_metrics p of
        None \<Rightarrow> p
      | Some m \<Rightarrow>
          (let (p1, now) = ask_ext (Now x) p; (p2, now2) = ask_ext (Now x) p1;
               m1 = UpdateCurrentSyncHeight (sync_height_arg (eb_Number b)) (RecordBlockProcessed now m);
               t = (if eb_Time b > 9223372036854775807 then 9223372036854775807 else uint (eb_Time b))
           in p2\<lparr>p_metrics := Some (m1\<lparr>E2ELatency := max 0 (of_int (since now2 (t * second)) / of_int second)\<rparr>)\<rparr>))"

definition ProcessBlock :: "proc_ext \<Rightarrow> BlockData \<Rightarrow> Processor \<Rightarrow> (Processor \<times> go_error option) go" where
  "ProcessBlock x d p =
     (case bd_Err d of
        Some e \<Rightarrow> Ret (p, Some (Wrapped ''fetch error'' e))
      | None \<Rightarrow>
          (case bd_Block d of
             None \<Rightarrow> Panic
           | Some b \<Rightarrow>
               (case handleReorgReadOnly x (eb_Number b) (eb_ParentHash b) p of
                  (p1, Some e) \<Rightarrow> Ret (p1, Some e)
                | (p1, None) \<Rightarrow>
                    (let (p2, acts0) = extractActivities x (eb_Number b) (bd_Logs d) (eb_Transactions b) p1;
                         (p3, acts) = processAnvilSyntheticNoDB x b acts0 p2;
                         (p4, now) = ask_ext (Now x) p3;
                         p5 = dispatch_cmd CmdCommitBatch (DTask (persist_task now b acts)) p4;
                         p6 = updateReorgCache (eb_Number b) (eb_Hash b) p5
                     in go_bind (pushEvents x b acts (AnalyzeGas x b) p6) (\<lambda>p7.
                          Ret (updateMetrics x b p7, None))))))"

definition isFatalError :: "go_error option \<Rightarrow> bool" where
  "isFatalError err =
     (case err of
        None \<Rightarrow> False
      | Some e \<Rightarrow> e = ErrReorgDetected \<or> is_ReorgError e \<or> e = ContextCanceled \<or> e = ContextDeadlineExceeded)"

text \<open>
  \<open>ProcessBlockWithRetry\<close>: \<open>left\<close> rounds remain and \<open>err\<close> is the error of the last one. The
  context is read twice, before the backoff and by the \<open>select\<close> that waits for it.
\<close>

definition nil_err :: go_error where
  "nil_err = OtherError ''%!w(<nil>)''"

fun retry_loop ::
    "proc_ext \<Rightarrow> BlockData \<Rightarrow> nat \<Rightarrow> go_error \<Rightarrow> Processor \<Rightarrow> (Processor \<times> go_error option) go" where
  "retry_loop x d 0 err p = Ret (p, Some (Wrapped ''max retries exceeded'' err))"
| "retry_loop x d (Suc left) err p =
     go_bind (ProcessBlock x d p) (\<lambda>(p1, r).
       case r of
         None \<Rightarrow> Ret (p1, None)
       | Some e \<Rightarrow>
           if isFatalError r then Ret (p1, Some e)
           else case ask_ext (CtxErr x) p1 of
                  (p2, Some c) \<Rightarrow> Ret (p2, Some c)
                | (p2, None) \<Rightarrow>
                    (case ask_ext (CtxErr x) p2 of
                       (p3, Some c) \<Rightarrow> Ret (p3, Some c)
                     | (p3, None) \<Rightarrow> retry_loop x d left e p3))"

definition Processor_ProcessBlockWithRetry ::
    "proc_ext \<Rightarrow> BlockData \<Rightarrow> nat \<Rightarrow> Processor \<Rightarrow> (Processor \<times> go_error option) go" where
  "Processor_ProcessBlockWithRetry x d maxRetries p = retry_loop x d maxRetries nil_err p"

text \<open>One element of the retry queue, taken by \<open>StartRetryWorker\<close>; the error is logged only.\<close>

definition retry_worker_step :: "proc_ext \<Rightarrow> Processor \<Rightarrow> Processor go" where
  "retry_worker_step x p =
     (case items (p_retryQueue p) of
        [] \<Rightarrow> Ret p
      | d # ds \<Rightarrow>
          go_bind (Processor_ProcessBlockWithRetry x d 1 (p\<lparr>p_retryQueue := (p_retryQueue p)\<lparr>items := ds\<rparr>\<rparr>))
            (\<lambda>(p1, r). Ret p1))"

definition Processor_GetSymbol :: "string \<Rightarrow> Processor \<Rightarrow> Processor \<times> string" where
  "Processor_GetSymbol addr p =
     (case p_enricher p of
        Some me \<Rightarrow> (let (me1, s) = GetSymbol addr me in (p\<lparr>p_enricher := Some me1\<rparr>, s))
      | None \<Rightarrow> (p, short_form addr))"

subsection \<open>A batch (processor\_batch.go)\<close>

definition batch_tx :: "proc_ext \<Rightarrow> int \<Rightarrow> int \<Rightarrow> string list \<Rightarrow> Tx \<Rightarrow> u64 \<Rightarrow> Transfer option" where
  "batch_tx x chain blockNum realLogs tx idx =
     (let fromAddr = sender_text x chain tx in
      case tx_To tx of
        None \<Rightarrow> Some (tx_transfer x blockNum tx fromAddr idx ''0xcontract_creation'' ''EVM'' ''DEPLOY'')
      | Some a \<Rightarrow>
          if tx_Value tx > 0 \<and> tx_Hash tx \<notin> set realLogs
          then Some (tx_transfer x blockNum tx fromAddr idx (ToLower a) ''ETH'' ''ETH_TRANSFER'')
          else None)"

definition processBatchTransactions ::
    "proc_ext \<Rightarrow> EthBlock \<Rightarrow> int \<Rightarrow> string list \<Rightarrow> Transfer list \<Rightarrow> Transfer list" where
  "processBatchTransactions x b chain txWithRealLogs validTransfers =
     validTransfers @ scan_txs (batch_tx x chain (eb_Number b) txWithRealLogs) 20000 (eb_Transactions b)"

definition mock_tokens :: "(string \<times> string) list" where
  "mock_tokens =
     [(''0xA0b86991c6218b36c1d19D4a2e9Eb0cE3606eB48'', ''USDC''),
      (''0xdAC17F958D2ee523a2206206994597C13D831ec7'', ''USDT''),
      (''0x2260FAC5E5542a773Aa44fBCfeDf7C193bc2C599'', ''WBTC''),
      (''0xC02aaA39b223FE8D0A0e5C4F27eAD9083C756Cc2'', ''WETH''),
      (''0x6B175474E89094C44Da98b954EedeAC495271d0F'', ''DAI'')]"

definition activity_types :: "string list" where
  "activity_types = [''TRANSFER'', ''SWAP'', ''MINT'', ''FAUCET_CLAIM'', ''APPROVE'', ''LIQUIDITY'', ''BURN'']"

definition batch_mock_amount :: "int \<Rightarrow> int" where
  "batch_mock_amount n =
     (let i = wrap_i64 n; base = i - 1000 * tdiv i 1000; k = uint (num_u64 n) mod 4
      in base * (if k = 0 then 1000000 else if k = 1 then 1000000000 else 1))"

definition processBatchSynthetic ::
    "proc_ext \<Rightarrow> EthBlock \<Rightarrow> int \<Rightarrow> bool \<Rightarrow> Transfer list \<Rightarrow> Transfer list" where
  "processBatchSynthetic x b chain sim valid =
     (if valid = [] \<and> chain = anvil_chain_id \<and> sim then
        (let n = uint (num_u64 (eb_Number b)); tok = mock_tokens ! nat (n mod 5) in
         valid @ [\<lparr>BlockNumber = eb_Number b, TxHash = MockHash x (eb_Hash b) ''ANVIL_MOCK'', LogIndex = 99999,
            From = ToLower (anvil_accounts ! nat (n mod 5)),
            To = ToLower (anvil_accounts ! nat (((n + 1) mod 18446744073709551616) mod 5)),
            TokenAddress = ToLower (HexToAddress x (fst tok)), Symbol = snd tok,
            Type = activity_types ! nat (n mod 7),
            Amount = NewUint256FromBigInt (FromBig x) (Some (batch_mock_amount (eb_Number b)))\<rparr>])
      else valid)"

text \<open>The body of the loop for one block, then the loop.\<close>

definition batch_activities ::
    "proc_ext \<Rightarrow> EthBlock \<Rightarrow> Log list \<Rightarrow> int \<Rightarrow> Processor \<Rightarrow> Processor \<times> Transfer list" where
  "batch_activities x b logs chain p =
     (let (p1, fromLogs) = process_logs x logs p;
          acts = processBatchTransactions x b chain (map TxHash fromLogs) fromLogs
      in (p1, processBatchSynthetic x b chain (p_enableSimulator p) acts))"

fun batch_loop :: "proc_ext \<Rightarrow> BlockData list \<Rightarrow> int \<Rightarrow> Processor \<Rightarrow> Processor go" where
  "batch_loop x [] chain p = Ret p"
| "batch_loop x (d # ds) chain p =
     (case (bd_Err d, bd_Block d) of
        (None, Some b) \<Rightarrow>
          (let (p1, acts) = batch_activities x b (bd_Logs d) chain p;
               (p2, now) = ask_ext (Now x) p1;
               p3 = dispatch_cmd CmdCommitBatch (DTask (persist_task now b acts)) p2
           in go_bind (pushEvents x b acts [] p3) (batch_loop x ds chain))
      | _ \<Rightarrow> batch_loop x ds chain p)"

definition effective_height :: "BlockData \<Rightarrow> int option" where
  "effective_height d = (case bd_Block d of Some b \<Rightarrow> Some (eb_Number b) | None \<Rightarrow> bd_Number d)"

definition updateBatchMetrics :: "BlockData list \<Rightarrow> Processor \<Rightarrow> Processor" where
  "updateBatchMetrics blocks p =
     (case p_metrics p of
        None \<Rightarrow> p
      | Some m \<Rightarrow>
          if blocks = [] then p
          else case effective_height (last blocks) of
                 None \<Rightarrow> p
               | Some n \<Rightarrow>
                   p\<lparr>p_metrics := Some (UpdateCurrentSyncHeight
                      (if in_i64 n then n else SafeUint64ToInt64 (take_bit 63 (num_u64 n))) m)\<rparr>)"

definition Processor_ProcessBatch ::
    "proc_ext \<Rightarrow> BlockData list \<Rightarrow> int \<Rightarrow> Processor \<Rightarrow> (Processor \<times> go_error option) go" where
  "Processor_ProcessBatch x blocks chain p =
     (if blocks = [] then Ret (p, None)
      else go_bind (batch_loop x blocks chain p) (\<lambda>p1. Ret (updateBatchMetrics blocks p1, None)))"

end
