(* ===== verification/Sequencer.thy ===== *)
theory Sequencer
  imports Chain_Data
begin

section \<open>The sequencer (internal/engine/sequencer\_*.go)\<close>

text \<open>
  Concurrent fetch workers deliver blocks in any order; the sequencer hands them to the
  processor in the order of their numbers. It keeps the next expected number and a buffer of
  early arrivals.

  \<^item> The processor and the RPC client behind it are the Go interface \<open>BlockProcessor\<close>: the
    record \<open>processor\<close> of its methods over a state \<open>'p\<close>, an argument of every operation that
    calls it. A method may panic, return an error or succeed.
  \<^item> The Go map from decimal numbers to blocks is an association list keyed by the number
    (decimal text and number determine each other, \<open>big_string_inj\<close>).
  \<^item> \<open>fetcherPaused\<close> is the pause flag of the fetcher, \<open>None\<close> for a nil fetcher; \<open>reorgCh\<close> the
    events sent so far, \<open>None\<close> for a nil channel; \<open>scheduled\<close> and \<open>audits\<close> record the spawned
    \<open>Schedule\<close> calls and the audit entries of \<open>handleStall\<close>.
  \<^item> Each operation runs under the mutex and is atomic; \<open>env\<close> holds what the outside
    decides: the clock and the branch of the blocking \<open>select\<close> in \<open>handleReorgLocked\<close>.
\<close>

record 'p rpc =
  BlockByNumber :: "int \<Rightarrow> 'p \<Rightarrow> 'p \<times> (go_error + EthBlock)"
  FilterLogs :: "int \<Rightarrow> 'p \<Rightarrow> 'p \<times> (go_error + Log list)"

record 'p processor =
  ProcessBlockWithRetry :: "BlockData \<Rightarrow> nat \<Rightarrow> 'p \<Rightarrow> ('p \<times> go_error option) go"
  ProcessBatch :: "BlockData list \<Rightarrow> int \<Rightarrow> 'p \<Rightarrow> ('p \<times> go_error option) go"
  GetRPCClient :: "'p rpc option"

record seq_env =
  env_now :: time
  env_reorg_sent :: bool
  env_ctx_err :: go_error

record 'p Sequencer =
  expectedBlock :: int
  buffer :: "(int \<times> BlockData) list"
  proc :: 'p
  fetcherPaused :: "bool option"
  reorgCh :: "int list option"
  chainID :: int
  lastProgressAt :: time
  gapFillCount :: int
  scheduled :: "(int \<times> int) list"
  audits :: "(int \<times> int \<times> int) list"

definition NewSequencerWithFetcher ::
    "'p \<Rightarrow> bool option \<Rightarrow> int \<Rightarrow> int \<Rightarrow> int list option \<Rightarrow> time \<Rightarrow> 'p Sequencer" where
  "NewSequencerWithFetcher p paused startBlock chain reorg now =
     \<lparr>expectedBlock = startBlock, buffer = [], proc = p, fetcherPaused = paused, reorgCh = reorg,
      chainID = chain, lastProgressAt = now, gapFillCount = 0, scheduled = [], audits = []\<rparr>"

subsection \<open>Sequential processing (sequencer\_process.go)\<close>

definition handleReorgLocked ::
    "seq_env \<Rightarrow> BlockData \<Rightarrow> 'p Sequencer \<Rightarrow> ('p Sequencer \<times> go_error option) go" where
  "handleReorgLocked env d s =
     (case bd_Block d of
        None \<Rightarrow> Panic
      | Some b \<Rightarrow>
          (let n = eb_Number b;
               s1 = s\<lparr>fetcherPaused := map_option (\<lambda>_. True) (fetcherPaused s),
                      buffer := filter (\<lambda>(k, v). k < n) (buffer s),
                      expectedBlock := n\<rparr>
           in case reorgCh s1 of
                None \<Rightarrow> Ret (s1, Some ErrReorgNeedRefetch)
              | Some evs \<Rightarrow>
                  if env_reorg_sent env
                  then Ret (s1\<lparr>reorgCh := Some (evs @ [n])\<rparr>, Some ErrReorgNeedRefetch)
                  else Ret (s1, Some (env_ctx_err env))))"

definition processSequentialLocked ::
    "'p processor \<Rightarrow> seq_env \<Rightarrow> BlockData \<Rightarrow> 'p Sequencer \<Rightarrow> ('p Sequencer \<times> go_error option) go" where
  "processSequentialLocked P env d s =
     go_bind (ProcessBlockWithRetry P d 3 (proc s)) (\<lambda>(p', r).
       let s1 = s\<lparr>proc := p'\<rparr> in
       case r of
         None \<Rightarrow> Ret (s1\<lparr>expectedBlock := expectedBlock s1 + 1, lastProgressAt := env_now env,
                        gapFillCount := 0\<rparr>, None)
       | Some e \<Rightarrow>
           if is_ReorgError e then handleReorgLocked env d s1 else Ret (s1, Some e))"

lemma handleReorg_error: "handleReorgLocked env d s = Ret (s', r) \<Longrightarrow> r \<noteq> None"
  by (auto simp: handleReorgLocked_def Let_def split: option.splits if_splits)

lemma processSequential_cases [consumes 1, case_names ok reorg err]:
  assumes "processSequentialLocked P env d s = Ret (s', r)"
  obtains p' where "ProcessBlockWithRetry P d 3 (proc s) = Ret (p', None)" "r = None"
      "s' = s\<lparr>proc := p', expectedBlock := expectedBlock s + 1, lastProgressAt := env_now env, gapFillCount := 0\<rparr>"
    | p' e where "ProcessBlockWithRetry P d 3 (proc s) = Ret (p', Some e)" "is_ReorgError e"
      "handleReorgLocked env d (s\<lparr>proc := p'\<rparr>) = Ret (s', r)"
    | p' e where "ProcessBlockWithRetry P d 3 (proc s) = Ret (p', Some e)" "\<not> is_ReorgError e"
      "r = Some e" "s' = s\<lparr>proc := p'\<rparr>"
proof -
  from assms obtain p' q where q: "ProcessBlockWithRetry P d 3 (proc s) = Ret (p', q)"
    by (auto simp: processSequentialLocked_def)
  with assms show ?thesis
    by (cases q) (auto simp: processSequentialLocked_def Let_def split: if_splits intro: that)
qed

lemma processSequential_ok_buffer:
  assumes "processSequentialLocked P env d s = Ret (s', None)"
  shows "buffer s' = buffer s"
  using assms by (cases rule: processSequential_cases) (auto dest: handleReorg_error)

text \<open>The loop of \<open>processBufferContinuationsLocked\<close>, then the resume of the fetcher.\<close>

function drain_loop :: "'p processor \<Rightarrow> seq_env \<Rightarrow> 'p Sequencer \<Rightarrow> 'p Sequencer go" where
  "drain_loop P env s =
     (case map_of (buffer s) (expectedBlock s) of
        None \<Rightarrow> Ret s
      | Some d \<Rightarrow>
          go_bind (processSequentialLocked P env d
                     (s\<lparr>buffer := AList.delete (expectedBlock s) (buffer s)\<rparr>))
            (\<lambda>sr. case snd sr of
                None \<Rightarrow> drain_loop P env (fst sr)
              | Some e \<Rightarrow>
                  Ret ((fst sr)\<lparr>buffer := AList.update (expectedBlock s) d (buffer (fst sr))\<rparr>)))"
  by pat_completeness auto
termination
proof (relation "measure (\<lambda>(P, env, s). length (buffer s))")
  fix P :: "'p processor" and env s d and sr :: "'p Sequencer \<times> go_error option"
  assume "map_of (buffer s) (expectedBlock s) = Some d"
    and "processSequentialLocked P env d
           (s\<lparr>buffer := AList.delete (expectedBlock s) (buffer s)\<rparr>) = Ret sr"
    and "snd sr = None"
  then show "((P, env, fst sr), (P, env, s)) \<in> measure (\<lambda>(P, env, s). length (buffer s))"
    using processSequential_ok_buffer [of P env d _ "fst sr"] length_delete_less
    by (metis (no_types, lifting) Sequencer.select_convs(2) Sequencer.surjective
        Sequencer.update_convs(2) case_prod_conv in_measure prod.collapse)
qed simp

declare drain_loop.simps [simp del]

definition resume_if_low :: "'p Sequencer \<Rightarrow> 'p Sequencer" where
  "resume_if_low s =
     (if fetcherPaused s = Some True \<and> length (buffer s) < 200
      then s\<lparr>fetcherPaused := Some False\<rparr> else s)"

definition processBufferContinuationsLocked ::
    "'p processor \<Rightarrow> seq_env \<Rightarrow> 'p Sequencer \<Rightarrow> 'p Sequencer go" where
  "processBufferContinuationsLocked P env s = go_bind (drain_loop P env s) (\<lambda>s1. Ret (resume_if_low s1))"

definition drainBuffer :: "'p processor \<Rightarrow> seq_env \<Rightarrow> 'p Sequencer \<Rightarrow> 'p Sequencer go" where
  "drainBuffer P env s = processBufferContinuationsLocked P env s"

definition GetBufferSize :: "'p Sequencer \<Rightarrow> nat" where
  "GetBufferSize s = length (buffer s)"

subsection \<open>One block (sequencer\_batch.go)\<close>

definition isRangeProgressSignal :: "BlockData \<Rightarrow> bool" where
  "isRangeProgressSignal d \<longleftrightarrow>
     bd_Number d = None \<and> bd_Block d = None \<and> bd_RangeEnd d \<noteq> None \<and> bd_Err d = None"

definition teleportProgress ::
    "'p processor \<Rightarrow> seq_env \<Rightarrow> int \<Rightarrow> 'p Sequencer \<Rightarrow> 'p Sequencer go" where
  "teleportProgress P env rangeEnd s =
     (if rangeEnd \<ge> expectedBlock s
      then processBufferContinuationsLocked P env
             (s\<lparr>expectedBlock := rangeEnd + 1, lastProgressAt := env_now env\<rparr>)
      else Ret s)"

definition bufferLimit :: "'p Sequencer \<Rightarrow> nat" where
  "bufferLimit s = (if chainID s = anvil_chain_id then 50000 else 1000)"

definition enforceBufferLimit :: "'p processor \<Rightarrow> seq_env \<Rightarrow> 'p Sequencer \<Rightarrow> 'p Sequencer go" where
  "enforceBufferLimit P env s =
     (if length (buffer s) > bufferLimit s
      then (case least_key None (buffer s) of
              None \<Rightarrow> Ret s
            | Some minBuffered \<Rightarrow> processBufferContinuationsLocked P env (s\<lparr>expectedBlock := minBuffered\<rparr>))
      else Ret s)"

text \<open>
  The RPC calls of \<open>handleFetchError\<close>: the block and its logs, or \<open>None\<close> when a call fails or
  there is no client.
\<close>

definition refetch ::
    "'p processor \<Rightarrow> int option \<Rightarrow> 'p \<Rightarrow> 'p \<times> (EthBlock \<times> Log list) option" where
  "refetch P blockNum p =
     (case blockNum of
        None \<Rightarrow> (p, None)
      | Some n \<Rightarrow>
          (case GetRPCClient P of
             None \<Rightarrow> (p, None)
           | Some c \<Rightarrow>
               (case BlockByNumber c n p of
                  (p1, Inl e) \<Rightarrow> (p1, None)
                | (p1, Inr b) \<Rightarrow>
                    (case FilterLogs c n p1 of
                       (p2, Inl e) \<Rightarrow> (p2, None)
                     | (p2, Inr ls) \<Rightarrow> (p2, Some (b, ls))))))"

text \<open>The hydration step of \<open>handleBlockLocked\<close>: a missing block is fetched once.\<close>

definition hydrate :: "'p processor \<Rightarrow> BlockData \<Rightarrow> 'p \<Rightarrow> 'p \<times> BlockData" where
  "hydrate P d p =
     (case (bd_Block d, getBlockNum d, GetRPCClient P) of
        (None, Some n, Some c) \<Rightarrow>
          (case BlockByNumber c n p of
             (p1, Inl e) \<Rightarrow> (p1, d)
           | (p1, Inr b) \<Rightarrow> (p1, d\<lparr>bd_Block := Some b\<rparr>))
      | _ \<Rightarrow> (p, d))"

text \<open>\<open>blockNum\<close> after the hydration: the number of the block itself where there is one.\<close>

definition effective_num :: "BlockData \<Rightarrow> int option" where
  "effective_num d = (case bd_Block d of Some b \<Rightarrow> Some (eb_Number b) | None \<Rightarrow> bd_Number d)"

function handleBlockLocked ::
    "'p processor \<Rightarrow> seq_env \<Rightarrow> BlockData \<Rightarrow> 'p Sequencer \<Rightarrow> ('p Sequencer \<times> go_error option) go" where
  "handleBlockLocked P env d s =
     (if isRangeProgressSignal d
      then go_bind (teleportProgress P env (the (bd_RangeEnd d)) s) (\<lambda>s1. Ret (s1, None))
      else if bd_Err d \<noteq> None
      then (case refetch P (getBlockNum d) (proc s) of
              (p1, None) \<Rightarrow> Ret (s\<lparr>proc := p1\<rparr>, None)
            | (p1, Some (b, ls)) \<Rightarrow>
                handleBlockLocked P env (d\<lparr>bd_Block := Some b, bd_Logs := ls, bd_Err := None\<rparr>)
                  (s\<lparr>proc := p1\<rparr>))
      else
        (let (p1, d1) = hydrate P d (proc s); s1 = s\<lparr>proc := p1\<rparr>
         in case effective_num d1 of
              None \<Rightarrow> Ret (s1, None)
            | Some n \<Rightarrow>
                if n = expectedBlock s1
                then go_bind (processSequentialLocked P env d1 s1) (\<lambda>(s2, r).
                       case r of
                         Some e \<Rightarrow> Ret (s2, Some e)
                       | None \<Rightarrow> go_bind (processBufferContinuationsLocked P env s2) (\<lambda>s3. Ret (s3, None)))
                else if n < expectedBlock s1 then Ret (s1, None)
                else go_bind (enforceBufferLimit P env (s1\<lparr>buffer := AList.update n d1 (buffer s1)\<rparr>))
                       (\<lambda>s2. Ret (s2, None))))"
  by pat_completeness auto
termination
  by (relation "measure (\<lambda>(P, env, d, s). if bd_Err d = None then 0 else 1)") auto

declare handleBlockLocked.simps [simp del]

definition handleBlock ::
    "'p processor \<Rightarrow> seq_env \<Rightarrow> BlockData \<Rightarrow> 'p Sequencer \<Rightarrow> ('p Sequencer \<times> go_error option) go" where
  "handleBlock P env d s = handleBlockLocked P env d s"

text \<open>A \<open>for range\<close> over blocks with \<open>return err\<close> on the first error.\<close>

fun handle_each ::
    "'p processor \<Rightarrow> seq_env \<Rightarrow> BlockData list \<Rightarrow> 'p Sequencer \<Rightarrow> ('p Sequencer \<times> go_error option) go" where
  "handle_each P env [] s = Ret (s, None)"
| "handle_each P env (d # ds) s =
     go_bind (handleBlock P env d s) (\<lambda>(s1, r).
       case r of Some e \<Rightarrow> Ret (s1, Some e) | None \<Rightarrow> handle_each P env ds s1)"

subsection \<open>A batch (sequencer\_batch.go)\<close>

text \<open>
  Phase 1 of \<open>handleBatch\<close>. \<open>take_run\<close> is the inner loop: the maximal run of error-free blocks
  numbered from \<open>e\<close> on, the number after it, and what is left. \<open>classify\<close> is the outer loop: the
  blocks before the run, the run, the next expected number and the remainder.
\<close>

fun take_run :: "int \<Rightarrow> BlockData list \<Rightarrow> BlockData list \<times> int \<times> BlockData list" where
  "take_run e [] = ([], e, [])"
| "take_run e (d # ds) =
     (if bd_Err d \<noteq> None then ([], e, d # ds)
      else if getBlockNum d = Some e
      then (let (run, e', rest) = take_run (e + 1) ds in (d # run, e', rest))
      else ([], e, d # ds))"

fun classify :: "int \<Rightarrow> BlockData list \<Rightarrow> BlockData list \<times> BlockData list \<times> int \<times> BlockData list" where
  "classify e [] = ([], [], e, [])"
| "classify e (d # ds) =
     (if getBlockNum d = Some e \<and> bd_Err d = None
      then (let (run, e', rest) = take_run (e + 1) ds in ([], d # run, e', rest))
      else (let (singles, run, e', rest) = classify e ds in (d # singles, run, e', rest)))"

definition pause_if_high :: "'p Sequencer \<Rightarrow> 'p Sequencer" where
  "pause_if_high s =
     (if fetcherPaused s = Some False \<and> length (buffer s) > 2000
      then s\<lparr>fetcherPaused := Some True\<rparr> else s)"

definition and_then ::
    "('p Sequencer \<times> go_error option) go \<Rightarrow> ('p Sequencer \<Rightarrow> ('p Sequencer \<times> go_error option) go)
      \<Rightarrow> ('p Sequencer \<times> go_error option) go" where
  "and_then m f = go_bind m (\<lambda>(s1, r). case r of Some e \<Rightarrow> Ret (s1, Some e) | None \<Rightarrow> f s1)"

definition handleBatch ::
    "'p processor \<Rightarrow> seq_env \<Rightarrow> BlockData list \<Rightarrow> 'p Sequencer \<Rightarrow> ('p Sequencer \<times> go_error option) go" where
  "handleBatch P env batch s =
     (let s0 = pause_if_high s;
          (singles, run, nextExpected, rest) = classify (expectedBlock s0) batch
      in if length run > 1 then
           go_bind (ProcessBatch P run (chainID s0) (proc s0)) (\<lambda>(p1, r).
             case r of
               Some e \<Rightarrow> Ret (s0\<lparr>proc := p1\<rparr>, Some e)
             | None \<Rightarrow>
                 go_bind (processBufferContinuationsLocked P env
                            (s0\<lparr>proc := p1, expectedBlock := nextExpected,
                                lastProgressAt := env_now env, gapFillCount := 0\<rparr>))
                   (\<lambda>s1. and_then (handle_each P env rest s1) (handle_each P env singles)))
         else if length run = 1 then
           and_then (and_then (handleBlock P env (hd run) s0) (handle_each P env rest))
             (handle_each P env singles)
         else handle_each P env singles s0)"

subsection \<open>Collecting, stalls and the run loop (sequencer\_core.go)\<close>

text \<open>
  \<open>collectBatch\<close>: \<open>received\<close> is what arrives on the channel before the timeout; at most 100 blocks
  are taken. \<open>sort_slice\<close> is \<open>sort.Slice\<close> on the index and number pairs.
\<close>

definition num_less :: "nat \<times> int option \<Rightarrow> nat \<times> int option \<Rightarrow> bool" where
  "num_less a b =
     (case snd a of
        None \<Rightarrow> True
      | Some x \<Rightarrow> (case snd b of None \<Rightarrow> False | Some y \<Rightarrow> x < y))"

definition collectBatch ::
    "((nat \<times> int option \<Rightarrow> nat \<times> int option \<Rightarrow> bool) \<Rightarrow> (nat \<times> int option) list \<Rightarrow> (nat \<times> int option) list)
      \<Rightarrow> BlockData \<Rightarrow> BlockData list \<Rightarrow> BlockData list" where
  "collectBatch sort_slice first received =
     (let batch = first # take 99 received;
          nums = map (\<lambda>i. (i, getBlockNum (batch ! i))) [0..<length batch]
      in map (\<lambda>nb. batch ! fst nb) (sort_slice num_less nums))"

definition handleStall :: "time \<Rightarrow> 'p Sequencer \<Rightarrow> 'p Sequencer" where
  "handleStall now s =
     (let idleTime = now - lastProgressAt s; minBuffered = least_key None (buffer s)
      in if idleTime > 55 * second then
           (case minBuffered of
              Some m \<Rightarrow>
                if m > expectedBlock s then
                  (if fetcherPaused s \<noteq> None \<and> gapFillCount s < 3
                   then s\<lparr>scheduled := scheduled s @ [(expectedBlock s, m - 1)],
                          gapFillCount := gapFillCount s + 1\<rparr>
                   else s\<lparr>audits := audits s @ [(expectedBlock s, m - 1, m)],
                          lastProgressAt := now, expectedBlock := m, gapFillCount := 0\<rparr>)
                else s\<lparr>lastProgressAt := now, expectedBlock := expectedBlock s + 1, gapFillCount := 0\<rparr>
            | None \<Rightarrow> s\<lparr>lastProgressAt := now, expectedBlock := expectedBlock s + 1, gapFillCount := 0\<rparr>)
         else s)"

definition GetIdleTime :: "time \<Rightarrow> 'p Sequencer \<Rightarrow> duration" where
  "GetIdleTime now s = now - lastProgressAt s"

definition GetExpectedBlock :: "'p Sequencer \<Rightarrow> int" where
  "GetExpectedBlock s = expectedBlock s"

definition ResetExpectedBlock :: "time \<Rightarrow> int \<Rightarrow> 'p Sequencer \<Rightarrow> 'p Sequencer" where
  "ResetExpectedBlock now n s = s\<lparr>expectedBlock := n, lastProgressAt := now\<rparr>"

definition ClearBuffer :: "'p Sequencer \<Rightarrow> 'p Sequencer" where
  "ClearBuffer s = s\<lparr>buffer := []\<rparr>"

text \<open>
  \<open>Run\<close> over the sequence of branches its \<open>select\<close> takes. It stops at the first error, which is
  offered to \<open>fatalErrCh\<close> (the second component), or after draining the buffer.
\<close>

datatype seq_event = CtxDone | StallTick | PulseTick | ResultClosed | ResultBatch "BlockData list"

fun Run :: "'p processor \<Rightarrow> (seq_event \<times> seq_env) list \<Rightarrow> 'p Sequencer \<Rightarrow> ('p Sequencer \<times> go_error option) go" where
  "Run P [] s = Ret (s, None)"
| "Run P ((CtxDone, env) # evs) s = go_bind (drainBuffer P env s) (\<lambda>s1. Ret (s1, None))"
| "Run P ((ResultClosed, env) # evs) s = go_bind (drainBuffer P env s) (\<lambda>s1. Ret (s1, None))"
| "Run P ((StallTick, env) # evs) s = Run P evs (handleStall (env_now env) s)"
| "Run P ((PulseTick, env) # evs) s = Run P evs s"
| "Run P ((ResultBatch batch, env) # evs) s =
     and_then (handleBatch P env batch s) (Run P evs)"

end
