(* ===== verification/Sequencer_Props.thy ===== *)
theory Sequencer_Props
  imports Sequencer
begin

section \<open>What the sequencer promises\<close>

text \<open>
  The contract \<open>block_processor\<close> between the sequencer and the processor: \<open>committed\<close> lists the
  numbers of the blocks handed on for persistence, in order; a successful call adds its
  block, a failed one adds nothing, the RPC client adds nothing. Under it, every batch of
  hydrated blocks extends the committed list by exactly the interval between the old and the
  new expected number: in order, once each, no gap.
\<close>

subsection \<open>Helper definitions and lemmas\<close>

definition batch_blocks :: "BlockData list \<Rightarrow> EthBlock list" where
  "batch_blocks ds = List.map_filter (\<lambda>d. if bd_Err d = None then bd_Block d else None) ds"

text \<open>A fetched block as the fetcher sends it: with its block object, under its own number.\<close>

definition hydrated :: "BlockData \<Rightarrow> bool" where
  "hydrated d \<longleftrightarrow> (case bd_Block d of
       None \<Rightarrow> False
     | Some b \<Rightarrow> bd_Number d = None \<or> bd_Number d = Some (eb_Number b))"

definition buf_ok :: "'p Sequencer \<Rightarrow> bool" where
  "buf_ok s \<longleftrightarrow> (\<forall>(k, d) \<in> set (buffer s). \<forall>b. bd_Block d = Some b \<longrightarrow> eb_Number b = k)"

definition advances :: "('p \<Rightarrow> int list) \<Rightarrow> 'p Sequencer \<Rightarrow> 'p Sequencer \<Rightarrow> bool" where
  "advances committed s s' \<longleftrightarrow> expectedBlock s \<le> expectedBlock s' \<and> chainID s' = chainID s
     \<and> committed (proc s') = committed (proc s) @ [expectedBlock s .. expectedBlock s' - 1]"

lemma advances_refl [simp]: "advances c s s"
  by (simp add: advances_def)

lemma upto_join: "i \<le> j \<Longrightarrow> j \<le> k \<Longrightarrow> [i..j - 1] @ [j..k - 1] = [i..k - (1 :: int)]"
proof (cases "j = k")
  case False
  moreover assume "i \<le> j" "j \<le> k"
  ultimately show ?thesis using upto_split1 [of i j "k - 1"] by simp
qed simp

lemma advances_trans [trans]: "advances c s t \<Longrightarrow> advances c t u \<Longrightarrow> advances c s u"
  using upto_join [of "expectedBlock s" "expectedBlock t" "expectedBlock u"]
  by (auto simp: advances_def)

lemma length_AList_update: "length (AList.update k v xs) \<le> Suc (length xs)"
  by (induction xs) auto

lemma set_AList_delete: "set (AList.delete k xs) \<subseteq> set xs"
  by (auto simp: AList.delete_eq)

lemma buf_ok_subset: "buf_ok s \<Longrightarrow> set (buffer s') \<subseteq> set (buffer s) \<Longrightarrow> buf_ok s'"
  by (auto simp: buf_ok_def)

lemma buf_ok_update:
  "buf_ok s \<Longrightarrow> (\<And>b. bd_Block d = Some b \<Longrightarrow> eb_Number b = k) \<Longrightarrow> buf_ok (s\<lparr>buffer := AList.update k d (buffer s)\<rparr>)"
  using set_AList_update [of k d "buffer s"] by (fastforce simp: buf_ok_def)

lemma buf_ok_lookup: "buf_ok s \<Longrightarrow> map_of (buffer s) k = Some d \<Longrightarrow> bd_Block d = Some b \<Longrightarrow> eb_Number b = k"
  by (auto simp: buf_ok_def dest: map_of_SomeD)

lemma handleReorg_frame:
  assumes "handleReorgLocked env d s = Ret (s', r)"
    and "\<And>b. bd_Block d = Some b \<Longrightarrow> eb_Number b = expectedBlock s"
  shows "expectedBlock s' = expectedBlock s \<and> proc s' = proc s \<and> chainID s' = chainID s
    \<and> buffer s' = filter (\<lambda>(k, v). k < expectedBlock s) (buffer s)"
  using assms by (auto simp: handleReorgLocked_def Let_def split: option.splits if_splits)

lemma resume_if_low_frame [frames, simp]:
  "expectedBlock (resume_if_low s) = expectedBlock s" "buffer (resume_if_low s) = buffer s"
  "proc (resume_if_low s) = proc s" "chainID (resume_if_low s) = chainID s"
  by (simp_all add: resume_if_low_def)

lemma buf_ok_cong: "buffer s' = buffer s \<Longrightarrow> buf_ok s' = buf_ok s"
  by (simp add: buf_ok_def)

lemma resume_if_low_ok [simp]: "buf_ok (resume_if_low s) = buf_ok s"
  by (rule buf_ok_cong) simp

lemma pause_if_high_frame [frames, simp]:
  "expectedBlock (pause_if_high s) = expectedBlock s" "buffer (pause_if_high s) = buffer s"
  "proc (pause_if_high s) = proc s" "chainID (pause_if_high s) = chainID s"
  by (simp_all add: pause_if_high_def)

lemma bufferLimit_cong: "chainID s' = chainID s \<Longrightarrow> bufferLimit s' = bufferLimit s"
  by (simp add: bufferLimit_def)

subsection \<open>The classification phase\<close>

lemma take_run_split:
  "take_run e ds = (run, e', rest) \<Longrightarrow>
     ds = run @ rest \<and> e' = e + int (length run) \<and> (\<forall>d \<in> set run. bd_Err d = None)
     \<and> map getBlockNum run = map Some [e..e' - 1]"
proof (induction e ds arbitrary: run rule: take_run.induct)
  case (2 e d ds)
  then show ?case
    by (fastforce simp: upto_rec1 split: if_splits prod.splits)
qed simp

lemma classify_split:
  "classify e ds = (singles, run, e', rest) \<Longrightarrow>
     ds = singles @ run @ rest \<and> e' = e + int (length run) \<and> (\<forall>d \<in> set run. bd_Err d = None)
     \<and> map getBlockNum run = map Some [e..e' - 1]"
proof (induction e ds arbitrary: singles run rule: classify.induct)
  case (2 e d ds)
  show ?case
  proof (cases "getBlockNum d = Some e \<and> bd_Err d = None")
    case True
    obtain run' e1 rest1 where t: "take_run (e + 1) ds = (run', e1, rest1)" by (metis prod_cases3)
    with True 2(2) take_run_split [OF t] show ?thesis
      by (auto simp: upto_rec1)
  next
    case False
    then show ?thesis using 2(1) [OF False] 2(2) by (auto split: prod.splits)
  qed
qed simp

lemma hydrated_batch_numbers:
  "\<forall>d \<in> set ds. hydrated d \<and> bd_Err d = None \<Longrightarrow> map Some (map eb_Number (batch_blocks ds)) = map getBlockNum ds"
proof (induction ds)
  case (Cons d ds)
  then show ?case
    by (auto simp: batch_blocks_def map_filter_simps hydrated_def getBlockNum_def split: option.splits)
qed (simp add: batch_blocks_def map_filter_simps)

lemma hydrated_not_signal: "hydrated d \<Longrightarrow> \<not> isRangeProgressSignal d"
  by (auto simp: hydrated_def isRangeProgressSignal_def split: option.splits)

lemma and_then_assoc: "and_then (and_then m f) g = and_then m (\<lambda>s. and_then (f s) g)"
  by (cases m) (auto simp: and_then_def split: option.splits)

lemma handle_each_Cons: "handle_each P env (d # ds) s = and_then (handleBlock P env d s) (handle_each P env ds)"
  by (simp add: and_then_def)

lemma handle_each_append:
  "handle_each P env (ds @ ds') s = and_then (handle_each P env ds s) (handle_each P env ds')"
proof (induction ds arbitrary: s)
  case Nil
  then show ?case by (simp add: and_then_def)
next
  case (Cons d ds)
  then have "handle_each P env (ds @ ds') = (\<lambda>s. and_then (handle_each P env ds s) (handle_each P env ds'))"
    by (rule ext)
  then show ?case by (simp add: handle_each_Cons and_then_assoc del: handle_each.simps)
qed

text \<open>\<open>handleBatch\<close> is the batch call for a run of two or more, then one block after the other.\<close>

lemma handleBatch_cases [consumes 2, case_names many failed few]:
  assumes "handleBatch P env batch s = Ret (s', r)"
    and "classify (expectedBlock s) batch = (singles, run, e', rest)"
  obtains p1 s1 where "ProcessBatch P run (chainID s) (proc s) = Ret (p1, None)"
      "processBufferContinuationsLocked P env ((pause_if_high s)\<lparr>proc := p1, expectedBlock := e',
          lastProgressAt := env_now env, gapFillCount := 0\<rparr>) = Ret s1"
      "handle_each P env (rest @ singles) s1 = Ret (s', r)"
    | p1 e where "ProcessBatch P run (chainID s) (proc s) = Ret (p1, Some e)"
      "s' = (pause_if_high s)\<lparr>proc := p1\<rparr>" "r = Some e"
    | ds where "set ds \<subseteq> set batch" "length ds \<le> length batch"
      "handle_each P env ds (pause_if_high s) = Ret (s', r)"
proof -
  note split = classify_split [OF assms(2)]
  consider (many) "length run > 1" | (one) d where "run = [d]" | (zero) "run = []"
    by (cases run; cases "tl run"; auto)
  then show thesis
  proof cases
    case many
    with assms that(1,2) show ?thesis
      by (fastforce simp: handleBatch_def Let_def handle_each_append pause_if_high_frame split: option.splits)
  next
    case one
    with assms have "handle_each P env ((d # rest) @ singles) (pause_if_high s) = Ret (s', r)"
      by (simp add: handleBatch_def Let_def handle_each_append handle_each_Cons del: handle_each.simps append_Cons)
    with that(3) [of "(d # rest) @ singles"] split one show ?thesis by auto
  next
    case zero
    with assms have "handle_each P env singles (pause_if_high s) = Ret (s', r)"
      by (simp add: handleBatch_def Let_def)
    with that(3) [of singles] split show ?thesis by auto
  qed
qed

subsection \<open>The contract with the processor\<close>

locale block_processor =
  fixes P :: "'p processor"
    and committed :: "'p \<Rightarrow> int list"
  assumes block_ok: "ProcessBlockWithRetry P d n p = Ret (p', None) \<Longrightarrow>
      \<exists>b. bd_Block d = Some b \<and> committed p' = committed p @ [eb_Number b]"
    and block_err: "ProcessBlockWithRetry P d n p = Ret (p', Some e) \<Longrightarrow> committed p' = committed p"
    and batch_ok: "ProcessBatch P ds c p = Ret (p', None) \<Longrightarrow>
      committed p' = committed p @ map eb_Number (batch_blocks ds)"
    and batch_err: "ProcessBatch P ds c p = Ret (p', Some e) \<Longrightarrow> committed p' = committed p"
    and rpc_block: "GetRPCClient P = Some client \<Longrightarrow> committed (fst (BlockByNumber client k p)) = committed p"
    and rpc_logs: "GetRPCClient P = Some client \<Longrightarrow> committed (fst (FilterLogs client k p)) = committed p"
begin

abbreviation adv where "adv \<equiv> advances committed"

lemma sequential_advances:
  assumes "processSequentialLocked P env d s = Ret (s', r)"
    and num: "\<And>b. bd_Block d = Some b \<Longrightarrow> eb_Number b = expectedBlock s"
  shows "adv s s' \<and> set (buffer s') \<subseteq> set (buffer s) \<and> length (buffer s') \<le> length (buffer s)"
  using assms(1)
proof (cases rule: processSequential_cases)
  case (ok p')
  with block_ok [OF ok(1)] num show ?thesis by (auto simp: advances_def)
next
  case (reorg p' e)
  then have "expectedBlock s' = expectedBlock s \<and> proc s' = p' \<and> chainID s' = chainID s
      \<and> buffer s' = filter (\<lambda>(k, v). k < expectedBlock s) (buffer s)"
    using handleReorg_frame [of env d "s\<lparr>proc := p'\<rparr>" s' r] num by simp
  with block_err [OF reorg(1)] show ?thesis by (auto simp: advances_def)
next
  case (err p' e)
  with block_err [OF err(1)] show ?thesis by (simp add: advances_def)
qed

lemma drain_advances:
  "drain_loop P env s = Ret s' \<Longrightarrow> buf_ok s \<Longrightarrow>
     adv s s' \<and> buf_ok s' \<and> length (buffer s') \<le> length (buffer s)"
proof (induction "length (buffer s)" arbitrary: s rule: less_induct)
  case less
  show ?case
  proof (cases "map_of (buffer s) (expectedBlock s)")
    case None
    then show ?thesis using less.prems by (simp add: drain_loop.simps [of P env s])
  next
    case (Some d)
    let ?s0 = "s\<lparr>buffer := AList.delete (expectedBlock s) (buffer s)\<rparr>"
    have shorter: "length (buffer ?s0) < length (buffer s)"
      using length_delete_less [OF Some] by simp
    have s0: "buf_ok ?s0" "adv s ?s0"
      using buf_ok_subset [OF less.prems(2), of ?s0] set_AList_delete [of "expectedBlock s" "buffer s"]
      by (simp_all add: advances_def)
    from Some less.prems(1) obtain s1 r where step: "processSequentialLocked P env d ?s0 = Ret (s1, r)"
      and next_state: "case r of None \<Rightarrow> drain_loop P env s1 = Ret s'
          | Some e \<Rightarrow> s' = s1\<lparr>buffer := AList.update (expectedBlock s) d (buffer s1)\<rparr>"
      by (auto simp: drain_loop.simps [of P env s] split: option.splits)
    have num: "\<And>b. bd_Block d = Some b \<Longrightarrow> eb_Number b = expectedBlock s"
      using buf_ok_lookup [OF less.prems(2) Some] by blast
    have s1: "adv ?s0 s1" "set (buffer s1) \<subseteq> set (buffer ?s0)" "length (buffer s1) \<le> length (buffer ?s0)"
      using sequential_advances [OF step] num by auto
    have ok1: "buf_ok s1" using s0(1) s1(2) by (rule buf_ok_subset)
    have adv1: "adv s s1" using s0(2) s1(1) by (rule advances_trans)
    show ?thesis
    proof (cases r)
      case None
      with next_state less.hyps [of s1] ok1 s1(3) shorter
      have "adv s1 s' \<and> buf_ok s' \<and> length (buffer s') \<le> length (buffer s1)" by simp
      with adv1 s1(3) shorter show ?thesis using advances_trans by fastforce
    next
      case (Some e)
      with next_state have s': "s' = s1\<lparr>buffer := AList.update (expectedBlock s) d (buffer s1)\<rparr>" by simp
      have "adv s s'" using adv1 s' by (simp add: advances_def)
      moreover have "buf_ok s'" unfolding s' using ok1 num by (rule buf_ok_update)
      moreover have "length (buffer s') \<le> length (buffer s)"
        using s1(3) shorter length_AList_update [of "expectedBlock s" d "buffer s1"] s' by simp
      ultimately show ?thesis by simp
    qed
  qed
qed

lemma continuations_advance:
  assumes "processBufferContinuationsLocked P env s = Ret s'" and "buf_ok s"
  shows "adv s s' \<and> buf_ok s' \<and> length (buffer s') \<le> length (buffer s)"
proof -
  from assms(1) obtain t where "drain_loop P env s = Ret t" "s' = resume_if_low t"
    by (auto simp: processBufferContinuationsLocked_def)
  with drain_advances [of env s t] assms(2) show ?thesis by (simp add: advances_def)
qed

lemma hydrate_frame:
  assumes "hydrate P d p = (p1, d1)"
  shows "committed p1 = committed p \<and> bd_Err d1 = bd_Err d"
  using assms rpc_block
  by (auto simp: hydrate_def split: option.splits prod.splits sum.splits) (metis fst_conv)+

lemma refetch_frame:
  assumes "refetch P n p = (p1, x)"
  shows "committed p1 = committed p"
  using assms rpc_block rpc_logs
  by (auto simp: refetch_def split: option.splits prod.splits sum.splits) (metis fst_conv)+

text \<open>What one block does, when the buffer has room for it.\<close>

definition block_step :: "'p Sequencer \<Rightarrow> 'p Sequencer \<Rightarrow> bool" where
  "block_step s s' \<longleftrightarrow> adv s s' \<and> buf_ok s' \<and> length (buffer s') \<le> Suc (length (buffer s))"

lemma handleBlock_clean:
  assumes run: "handleBlockLocked P env d s = Ret (s', r)"
    and "\<not> isRangeProgressSignal d" and "bd_Err d = None"
    and ok: "buf_ok s" and room: "length (buffer s) < bufferLimit s"
  shows "block_step s s'"
proof -
  obtain p1 d1 where h: "hydrate P d (proc s) = (p1, d1)" by fastforce
  let ?s1 = "s\<lparr>proc := p1\<rparr>"
  have adv1: "adv s ?s1" using hydrate_frame [OF h] by (simp add: advances_def)
  have ok1: "buf_ok ?s1" using ok by (simp add: buf_ok_def)
  consider (none) "s' = ?s1"
    | (seq) s2 r2 where "effective_num d1 = Some (expectedBlock s)"
        "processSequentialLocked P env d1 ?s1 = Ret (s2, r2)"
        "r2 \<noteq> None \<and> s' = s2 \<or> r2 = None \<and> processBufferContinuationsLocked P env s2 = Ret s'"
    | (early) n where "effective_num d1 = Some n" "expectedBlock s < n"
        "enforceBufferLimit P env (?s1\<lparr>buffer := AList.update n d1 (buffer ?s1)\<rparr>) = Ret s'"
    using run assms(2,3) h
    by (simp add: handleBlockLocked.simps [of P env d s] Let_def split: option.splits if_splits)
      (auto split: option.splits)
  then show ?thesis
  proof cases
    case none
    then show ?thesis using adv1 ok1 by (simp add: block_step_def)
  next
    case seq
    have "\<And>b. bd_Block d1 = Some b \<Longrightarrow> eb_Number b = expectedBlock ?s1"
      using seq(1) by (simp add: effective_num_def)
    with sequential_advances [OF seq(2)]
    have s2: "adv ?s1 s2" "buf_ok s2" "length (buffer s2) \<le> length (buffer s)"
      using buf_ok_subset [OF ok1, of s2] by auto
    have "adv s2 s' \<and> buf_ok s' \<and> length (buffer s') \<le> length (buffer s2)"
      using seq(3) s2(2) continuations_advance [of env s2 s'] by auto
    then show ?thesis
      using s2 advances_trans [OF advances_trans [OF adv1 s2(1)]] by (simp add: block_step_def)
  next
    case early
    let ?s2 = "?s1\<lparr>buffer := AList.update n d1 (buffer ?s1)\<rparr>"
    have len: "length (buffer ?s2) \<le> Suc (length (buffer s))"
      using length_AList_update [of n d1 "buffer s"] by simp
    have "s' = ?s2"
      using early(3) len room by (simp add: enforceBufferLimit_def bufferLimit_def split: if_splits)
    moreover have "buf_ok ?s2"
      by (rule buf_ok_update [OF ok1]) (use early(1) in \<open>simp add: effective_num_def\<close>)
    ultimately show ?thesis using adv1 len by (simp add: block_step_def advances_def)
  qed
qed

lemma handleBlock_step:
  assumes run: "handleBlock P env d s = Ret (s', r)"
    and sig: "\<not> isRangeProgressSignal d" and ok: "buf_ok s" and room: "length (buffer s) < bufferLimit s"
  shows "block_step s s'"
proof (cases "bd_Err d")
  case None
  with assms show ?thesis using handleBlock_clean by (simp add: handleBlock_def)
next
  case (Some e)
  obtain p1 x where rf: "refetch P (getBlockNum d) (proc s) = (p1, x)" by fastforce
  let ?s1 = "s\<lparr>proc := p1\<rparr>"
  have s1: "adv s ?s1" "buf_ok ?s1"
    using refetch_frame [OF rf] ok by (simp_all add: advances_def buf_ok_def)
  show ?thesis
  proof (cases x)
    case None
    with run sig Some rf have "s' = ?s1"
      by (simp add: handleBlock_def handleBlockLocked.simps [of P env d s])
    with s1 show ?thesis by (simp add: block_step_def)
  next
    case (Some y)
    obtain b ls where y: "y = (b, ls)" by fastforce
    let ?d = "d\<lparr>bd_Block := Some b, bd_Logs := ls, bd_Err := None\<rparr>"
    have "handleBlockLocked P env ?d ?s1 = Ret (s', r)"
      using run sig \<open>bd_Err d = Some e\<close> rf Some y
      by (simp add: handleBlock_def handleBlockLocked.simps [of P env d s])
    then have "block_step ?s1 s'"
      by (rule handleBlock_clean)
        (use s1 room in \<open>simp_all add: isRangeProgressSignal_def bufferLimit_def\<close>)
    then show ?thesis using s1(1) advances_trans by (fastforce simp: block_step_def)
  qed
qed

lemma handle_each_advances:
  assumes "handle_each P env ds s = Ret (s', r)" and "\<forall>d \<in> set ds. \<not> isRangeProgressSignal d"
    and "buf_ok s" and "length (buffer s) + length ds \<le> bufferLimit s"
  shows "adv s s' \<and> buf_ok s' \<and> length (buffer s') \<le> length (buffer s) + length ds"
  using assms
proof (induction ds arbitrary: s)
  case (Cons d ds)
  from Cons.prems(1) obtain s1 r1 where h: "handleBlock P env d s = Ret (s1, r1)"
    and k: "case r1 of Some e \<Rightarrow> s' = s1 | None \<Rightarrow> handle_each P env ds s1 = Ret (s', r)"
    by (auto split: option.splits)
  have st: "adv s s1" "buf_ok s1" "length (buffer s1) \<le> Suc (length (buffer s))"
    using handleBlock_step [OF h] Cons.prems by (auto simp: block_step_def)
  have lim: "bufferLimit s1 = bufferLimit s" using st(1) by (simp add: advances_def bufferLimit_def)
  show ?case
  proof (cases r1)
    case None
    with k Cons.IH [of s1] Cons.prems st lim
    have "adv s1 s' \<and> buf_ok s' \<and> length (buffer s') \<le> length (buffer s1) + length ds" by simp
    with st show ?thesis using advances_trans by fastforce
  next
    case (Some e)
    with k st show ?thesis by simp
  qed
qed simp

text \<open>A whole batch, when its blocks are hydrated and the buffer has room for all of them.\<close>

lemma batch_run_committed:
  assumes "ProcessBatch P run c (proc s) = Ret (p1, None)"
    and "classify (expectedBlock s) batch = (singles, run, e', rest)"
    and "\<forall>d \<in> set batch. bd_Err d = None \<longrightarrow> hydrated d"
  shows "committed p1 = committed (proc s) @ [expectedBlock s..e' - 1] \<and> expectedBlock s \<le> e'"
proof -
  note c = classify_split [OF assms(2)]
  have "map Some (map eb_Number (batch_blocks run)) = map getBlockNum run"
    using c assms(3) by (intro hydrated_batch_numbers) auto
  then have "map eb_Number (batch_blocks run) = [expectedBlock s..e' - 1]"
    using c inj_map_eq_map [of Some] by fastforce
  with batch_ok [OF assms(1)] c show ?thesis by simp
qed

lemma handleBatch_advances:
  assumes run: "handleBatch P env batch s = Ret (s', r)"
    and hyd: "\<forall>d \<in> set batch. bd_Err d = None \<longrightarrow> hydrated d"
    and sig: "\<forall>d \<in> set batch. \<not> isRangeProgressSignal d"
    and ok: "buf_ok s" and room: "length (buffer s) + length batch \<le> bufferLimit s"
  shows "adv s s' \<and> buf_ok s' \<and> length (buffer s') \<le> length (buffer s) + length batch"
proof -
  let ?s0 = "pause_if_high s"
  obtain singles run1 e' rest where c: "classify (expectedBlock s) batch = (singles, run1, e', rest)"
    by (metis prod_cases4)
  note parts = classify_split [OF c]
  have s0: "adv s ?s0" "buf_ok ?s0" "bufferLimit ?s0 = bufferLimit s"
    using ok by (simp_all add: advances_def buf_ok_def bufferLimit_def)
  from run c show ?thesis
  proof (cases rule: handleBatch_cases)
    case (many p1 s1)
    let ?t = "?s0\<lparr>proc := p1, expectedBlock := e', lastProgressAt := env_now env, gapFillCount := 0\<rparr>"
    have t: "adv s ?t" "buf_ok ?t"
      using batch_run_committed [OF many(1) c hyd] s0 by (simp_all add: advances_def buf_ok_def)
    have s1: "adv s s1" "buf_ok s1" "length (buffer s1) \<le> length (buffer s)"
      using continuations_advance [OF many(2) t(2)] advances_trans [OF t(1)] by auto
    then have "bufferLimit s1 = bufferLimit s" by (simp add: advances_def bufferLimit_def)
    with handle_each_advances [OF many(3)] s1 sig room parts
    have "adv s1 s' \<and> buf_ok s' \<and> length (buffer s') \<le> length (buffer s1) + length (rest @ singles)" by auto
    with s1 parts advances_trans show ?thesis by fastforce
  next
    case (failed p1 e)
    with batch_err [OF failed(1)] s0 show ?thesis by (simp add: advances_def buf_ok_def)
  next
    case (few ds)
    with handle_each_advances [OF few(3)] s0 sig room
    have "adv ?s0 s' \<and> buf_ok s' \<and> length (buffer s') \<le> length (buffer s) + length ds" by auto
    with s0 few(2) advances_trans show ?thesis by fastforce
  qed
qed

end

end
