(* ===== verification/Sequencer_Delivery.thy ===== *)
theory Sequencer_Delivery
  imports Sequencer_Props
begin

section \<open>Delivery in any order\<close>

text \<open>
  A reliable processor never fails on a sound block without an error. With it nothing that arrives
  is lost: every number is below the expected one or waits in the buffer, and the
  expected number itself never waits. What counts as sound is up to the processor.
\<close>

definition clean :: "BlockData \<Rightarrow> bool" where
  "clean d \<longleftrightarrow> hydrated d \<and> bd_Err d = None"

definition clean_buf :: "'p Sequencer \<Rightarrow> bool" where
  "clean_buf s \<longleftrightarrow> (\<forall>(k, d) \<in> set (buffer s). clean d \<and> effective_num d = Some k)"

definition covered :: "'p Sequencer \<Rightarrow> int \<Rightarrow> bool" where
  "covered s k \<longleftrightarrow> k < expectedBlock s \<or> k \<in> fst ` set (buffer s)"

definition settled :: "'p Sequencer \<Rightarrow> bool" where
  "settled s \<longleftrightarrow> expectedBlock s \<notin> fst ` set (buffer s)"

text \<open>The runs that receive the batches \<open>bs\<close>, their size and the numbers they bring.\<close>

definition results :: "(BlockData list \<times> seq_env) list \<Rightarrow> (seq_event \<times> seq_env) list" where
  "results bs = map (\<lambda>b. (ResultBatch (fst b), snd b)) bs"

definition batch_total :: "(BlockData list \<times> seq_env) list \<Rightarrow> nat" where
  "batch_total bs = sum_list (map (\<lambda>b. length (fst b)) bs)"

definition batch_nums :: "(BlockData list \<times> seq_env) list \<Rightarrow> int set" where
  "batch_nums bs = (\<Union>b \<in> set bs. (the \<circ> getBlockNum) ` set (fst b))"

lemma results_simps [simp]:
  "results [] = []" "results (b # bs) = (ResultBatch (fst b), snd b) # results bs"
  by (simp_all add: results_def)

lemma batch_total_simps [simp]: "batch_total [] = 0" "batch_total (b # bs) = length (fst b) + batch_total bs"
  by (simp_all add: batch_total_def)

lemma batch_nums_simps [simp]:
  "batch_nums [] = {}" "batch_nums (b # bs) = (the \<circ> getBlockNum) ` set (fst b) \<union> batch_nums bs"
  by (simp_all add: batch_nums_def)

lemma clean_hydrate: "clean d \<Longrightarrow> hydrate P d p = (p, d)"
  by (auto simp: clean_def hydrated_def hydrate_def split: option.splits)

lemma clean_num: "clean d \<Longrightarrow> \<exists>b. bd_Block d = Some b \<and> effective_num d = Some (eb_Number b) \<and> getBlockNum d = Some (eb_Number b)"
  by (auto simp: clean_def hydrated_def effective_num_def getBlockNum_def split: option.splits)

lemma clean_buf_ok: "clean_buf s \<Longrightarrow> buf_ok s"
  by (fastforce simp: clean_buf_def buf_ok_def effective_num_def)

lemma clean_buf_update:
  "clean_buf s \<Longrightarrow> clean d \<Longrightarrow> effective_num d = Some k \<Longrightarrow> clean_buf (s\<lparr>buffer := AList.update k d (buffer s)\<rparr>)"
  using set_AList_update [of k d "buffer s"] by (fastforce simp: clean_buf_def)

lemma clean_buf_subset: "clean_buf s \<Longrightarrow> set (buffer s') \<subseteq> set (buffer s) \<Longrightarrow> clean_buf s'"
  by (auto simp: clean_buf_def)

locale reliable_processor = block_processor P committed for P :: "'p processor" and committed +
  fixes reliable :: "'p \<Rightarrow> bool" and sound :: "BlockData \<Rightarrow> bool"
  assumes total_block: "reliable p \<Longrightarrow> sound d \<Longrightarrow> bd_Block d = Some b \<Longrightarrow> bd_Err d = None \<Longrightarrow>
      \<exists>p'. ProcessBlockWithRetry P d 3 p = Ret (p', None) \<and> reliable p'"
    and total_batch: "reliable p \<Longrightarrow> \<forall>d \<in> set ds. sound d \<Longrightarrow> \<exists>p'. ProcessBatch P ds c p = Ret (p', None) \<and> reliable p'"
begin

definition fine :: "BlockData \<Rightarrow> bool" where
  "fine d \<longleftrightarrow> clean d \<and> sound d"

definition fine_buf :: "'p Sequencer \<Rightarrow> bool" where
  "fine_buf s \<longleftrightarrow> clean_buf s \<and> (\<forall>d \<in> snd ` set (buffer s). sound d)"

definition good :: "'p Sequencer \<Rightarrow> bool" where
  "good s \<longleftrightarrow> fine_buf s \<and> reliable (proc s) \<and> settled s"

lemma fine_buf_update:
  "fine_buf s \<Longrightarrow> fine d \<Longrightarrow> effective_num d = Some k \<Longrightarrow> fine_buf (s\<lparr>buffer := AList.update k d (buffer s)\<rparr>)"
  using set_AList_update [of k d "buffer s"] clean_buf_update [of s d k] by (fastforce simp: fine_buf_def fine_def)

lemma fine_buf_subset: "fine_buf s \<Longrightarrow> set (buffer s') \<subseteq> set (buffer s) \<Longrightarrow> fine_buf s'"
  by (auto simp: fine_buf_def clean_buf_def)

lemma fine_buf_lookup: "fine_buf s \<Longrightarrow> map_of (buffer s) k = Some d \<Longrightarrow> fine d"
  by (fastforce simp: fine_buf_def clean_buf_def fine_def dest: map_of_SomeD)

lemma fine_buf_cong: "buffer s' = buffer s \<Longrightarrow> fine_buf s' = fine_buf s"
  by (simp add: fine_buf_def clean_buf_def)

text \<open>\<open>delivers n K s s'\<close>: \<open>s'\<close> has absorbed the numbers \<open>K\<close>, its buffer grew by at most \<open>n\<close>.\<close>

definition delivers :: "nat \<Rightarrow> int set \<Rightarrow> 'p Sequencer \<Rightarrow> 'p Sequencer \<Rightarrow> bool" where
  "delivers n K s s' \<longleftrightarrow> good s' \<and> chainID s' = chainID s \<and> expectedBlock s \<le> expectedBlock s'
     \<and> length (buffer s') \<le> length (buffer s) + n
     \<and> (\<forall>k. covered s k \<or> k \<in> K \<longrightarrow> covered s' k)"

lemma delivers_trans: "delivers m K s t \<Longrightarrow> delivers n L t u \<Longrightarrow> delivers (m + n) (K \<union> L) s u"
  by (auto simp: delivers_def)

lemma sequential_delivers:
  assumes "reliable (proc s)" and "fine d"
  shows "\<exists>p'. reliable p' \<and> processSequentialLocked P env d s =
     Ret (s\<lparr>proc := p', expectedBlock := expectedBlock s + 1, lastProgressAt := env_now env, gapFillCount := 0\<rparr>, None)"
proof -
  obtain b where "bd_Block d = Some b" "bd_Err d = None" "sound d"
    using clean_num [of d] assms(2) by (auto simp: clean_def fine_def)
  with total_block [OF assms(1)] show ?thesis by (fastforce simp: processSequentialLocked_def Let_def)
qed

lemma drain_delivers:
  "fine_buf s \<Longrightarrow> reliable (proc s) \<Longrightarrow> \<exists>s'. drain_loop P env s = Ret s' \<and> delivers 0 {} s s'"
proof (induction "length (buffer s)" arbitrary: s rule: less_induct)
  case less
  show ?case
  proof (cases "map_of (buffer s) (expectedBlock s)")
    case None
    then have "settled s" by (simp add: settled_def map_of_eq_None_iff)
    then have "delivers 0 {} s s" using less.prems by (simp add: delivers_def good_def)
    with None show ?thesis by (simp add: drain_loop.simps [of P env s])
  next
    case (Some d)
    let ?t = "s\<lparr>buffer := AList.delete (expectedBlock s) (buffer s)\<rparr>"
    have d: "fine d" using less.prems(1) Some by (rule fine_buf_lookup)
    obtain p' where p': "reliable p'" and seq: "processSequentialLocked P env d ?t =
        Ret (?t\<lparr>proc := p', expectedBlock := expectedBlock s + 1, lastProgressAt := env_now env, gapFillCount := 0\<rparr>, None)"
      using sequential_delivers [of ?t d env] less.prems(2) d by auto
    define u where "u = ?t\<lparr>proc := p', expectedBlock := expectedBlock s + 1, lastProgressAt := env_now env, gapFillCount := 0\<rparr>"
    have u: "buffer u = AList.delete (expectedBlock s) (buffer s)" "expectedBlock u = expectedBlock s + 1"
      "chainID u = chainID s" "proc u = p'" by (simp_all add: u_def)
    have shorter: "length (buffer u) < length (buffer s)" using length_delete_less [OF Some] u by simp
    have "fine_buf u" using less.prems(1) set_AList_delete [of "expectedBlock s" "buffer s"] u
      by (intro fine_buf_subset [of s u]) simp_all
    then obtain s' where s': "drain_loop P env u = Ret s'" "delivers 0 {} u s'"
      using less.hyps [OF shorter] p' u by auto
    have "drain_loop P env s = Ret s'"
      using Some seq s'(1) by (simp add: drain_loop.simps [of P env s] u_def)
    moreover have "covered u k" if "covered s k" for k
      using that u by (auto simp: covered_def keys_delete)
    ultimately show ?thesis using s'(2) u shorter by (fastforce simp: delivers_def)
  qed
qed

lemma continuations_deliver:
  assumes "fine_buf s" and "reliable (proc s)"
  shows "\<exists>s'. processBufferContinuationsLocked P env s = Ret s' \<and> delivers 0 {} s s'"
proof -
  obtain t where t: "drain_loop P env s = Ret t" "delivers 0 {} s t"
    using drain_delivers [OF assms] by blast
  then have "delivers 0 {} s (resume_if_low t)"
    by (auto simp: delivers_def good_def fine_buf_cong [of "resume_if_low t" t] settled_def covered_def)
  with t(1) show ?thesis by (simp add: processBufferContinuationsLocked_def)
qed

lemma handleBlock_delivers:
  assumes "good s" and fine: "fine d" and room: "length (buffer s) < bufferLimit s"
  shows "\<exists>s'. handleBlock P env d s = Ret (s', None) \<and> delivers 1 {the (getBlockNum d)} s s'"
proof -
  obtain b where b: "bd_Block d = Some b" "effective_num d = Some (eb_Number b)" "getBlockNum d = Some (eb_Number b)"
    using clean_num [of d] fine by (auto simp: fine_def)
  have d: "\<not> isRangeProgressSignal d" "bd_Err d = None" "hydrate P d (proc s) = (proc s, d)"
    using clean_hydrate [of d] fine hydrated_not_signal by (simp_all add: clean_def fine_def)
  have s: "fine_buf s" "reliable (proc s)" "settled s" using assms(1) by (simp_all add: good_def)
  note unfold = handleBlock_def handleBlockLocked.simps [of P env d s]
  consider "eb_Number b < expectedBlock s" | "eb_Number b = expectedBlock s" | "eb_Number b > expectedBlock s"
    by linarith
  then show ?thesis
  proof cases
    case 1
    then have "handleBlock P env d s = Ret (s, None)" using b d by (simp add: unfold)
    moreover have "delivers 1 {the (getBlockNum d)} s s" using 1 b assms(1) by (simp add: delivers_def covered_def)
    ultimately show ?thesis by blast
  next
    case 2
    obtain p' where p': "reliable p'" "processSequentialLocked P env d s =
        Ret (s\<lparr>proc := p', expectedBlock := expectedBlock s + 1, lastProgressAt := env_now env, gapFillCount := 0\<rparr>, None)"
      using sequential_delivers [OF s(2) fine] by blast
    define u where "u = s\<lparr>proc := p', expectedBlock := expectedBlock s + 1, lastProgressAt := env_now env, gapFillCount := 0\<rparr>"
    have u: "buffer u = buffer s" "expectedBlock u = expectedBlock s + 1" "chainID u = chainID s" "proc u = p'"
      by (simp_all add: u_def)
    obtain s' where s': "processBufferContinuationsLocked P env u = Ret s'" "delivers 0 {} u s'"
      using continuations_deliver [of u env] s(1) p'(1) u fine_buf_cong [of u s] by auto
    have "handleBlock P env d s = Ret (s', None)"
      using 2 b d p'(2) s'(1) by (simp add: unfold u_def)
    moreover have "delivers 1 {the (getBlockNum d)} s s'"
      using s'(2) u 2 b by (auto simp: delivers_def covered_def)
    ultimately show ?thesis by blast
  next
    case 3
    define u where "u = s\<lparr>buffer := AList.update (eb_Number b) d (buffer s)\<rparr>"
    have len: "length (buffer u) \<le> Suc (length (buffer s))"
      using length_AList_update [of "eb_Number b" d "buffer s"] by (simp add: u_def)
    have "handleBlock P env d s = Ret (u, None)"
      using 3 b d len room by (simp add: unfold u_def enforceBufferLimit_def bufferLimit_def split: if_splits)
    moreover have "good u"
      using fine_buf_update [OF s(1) fine b(2)] s 3 by (auto simp: good_def u_def settled_def dom_map_of_update)
    ultimately show ?thesis
      using len b by (auto simp: u_def delivers_def covered_def dom_map_of_update)
  qed
qed

lemma handle_each_delivers:
  assumes "good s" and "\<forall>d \<in> set ds. fine d" and "length (buffer s) + length ds \<le> bufferLimit s"
  shows "\<exists>s'. handle_each P env ds s = Ret (s', None) \<and> delivers (length ds) ((the \<circ> getBlockNum) ` set ds) s s'"
  using assms
proof (induction ds arbitrary: s)
  case Nil
  then show ?case by (simp add: delivers_def)
next
  case (Cons d ds)
  obtain t where t: "handleBlock P env d s = Ret (t, None)" "delivers 1 {the (getBlockNum d)} s t"
    using handleBlock_delivers [of s d env] Cons.prems by auto
  then have "length (buffer t) + length ds \<le> bufferLimit t" "good t"
    using Cons.prems(3) by (auto simp: delivers_def bufferLimit_def)
  then obtain s' where s': "handle_each P env ds t = Ret (s', None)" "delivers (length ds) ((the \<circ> getBlockNum) ` set ds) t s'"
    using Cons.IH [of t] Cons.prems(2) by auto
  with t delivers_trans [OF t(2) s'(2)] show ?case by simp
qed

lemma handleBatch_delivers:
  assumes "good s" and batch: "\<forall>d \<in> set batch. fine d" and room: "length (buffer s) + length batch \<le> bufferLimit s"
  shows "\<exists>s'. handleBatch P env batch s = Ret (s', None) \<and> delivers (length batch) ((the \<circ> getBlockNum) ` set batch) s s'"
proof -
  obtain singles run e' rest where c: "classify (expectedBlock s) batch = (singles, run, e', rest)" by (metis prod_cases4)
  note parts = classify_split [OF c]
  have s0: "good (pause_if_high s)" "bufferLimit (pause_if_high s) = bufferLimit s"
    "delivers 0 {} s (pause_if_high s)"
    using assms(1) fine_buf_cong [of "pause_if_high s" s]
    by (auto simp: good_def settled_def bufferLimit_def delivers_def covered_def)
  consider (many) "length run > 1" | (one) d where "run = [d]" | (zero) "run = []"
    by (cases run; cases "tl run"; auto)
  then show ?thesis
  proof cases
    case many
    obtain p1 where p1: "ProcessBatch P run (chainID s) (proc s) = Ret (p1, None)" "reliable p1"
      using total_batch [of "proc s" run "chainID s"] assms(1) batch parts by (auto simp: good_def fine_def)
    define u where "u = (pause_if_high s)\<lparr>proc := p1, expectedBlock := e', lastProgressAt := env_now env, gapFillCount := 0\<rparr>"
    have u: "buffer u = buffer s" "expectedBlock u = e'" "chainID u = chainID s" "proc u = p1" by (simp_all add: u_def)
    obtain t where t: "processBufferContinuationsLocked P env u = Ret t" "delivers 0 {} u t"
      using continuations_deliver [of u env] assms(1) p1(2) u fine_buf_cong [of u s] by (auto simp: good_def)
    have run_covered: "covered u k" if "k \<in> (the \<circ> getBlockNum) ` set run" for k
    proof -
      from that obtain d where "d \<in> set run" "k = the (getBlockNum d)" by auto
      moreover have "getBlockNum d \<in> set (map getBlockNum run)" using \<open>d \<in> set run\<close> by simp
      ultimately show ?thesis using parts u by (auto simp: covered_def)
    qed
    have t': "good t" "length (buffer t) \<le> length (buffer s)" "bufferLimit t = bufferLimit s"
      using t(2) u by (auto simp: delivers_def bufferLimit_def)
    obtain s' where s': "handle_each P env (rest @ singles) t = Ret (s', None)"
      "delivers (length (rest @ singles)) ((the \<circ> getBlockNum) ` set (rest @ singles)) t s'"
      using handle_each_delivers [of t "rest @ singles" env] t' room batch parts by auto
    have "handleBatch P env batch s = Ret (s', None)"
      using c many p1(1) t(1) s'(1) by (simp add: handleBatch_def Let_def u_def handle_each_append)
    moreover have "covered u k" if "covered s k" for k
      using that u parts by (auto simp: covered_def)
    ultimately show ?thesis
      using t(2) s'(2) u parts run_covered by (auto simp: delivers_def)
  next
    case one
    have ds: "set ((d # rest) @ singles) = set batch" "length ((d # rest) @ singles) = length batch"
      using parts one by auto
    obtain s' where s': "handle_each P env ((d # rest) @ singles) (pause_if_high s) = Ret (s', None)"
      "delivers (length ((d # rest) @ singles)) ((the \<circ> getBlockNum) ` set ((d # rest) @ singles)) (pause_if_high s) s'"
      using handle_each_delivers [of "pause_if_high s" "(d # rest) @ singles" env] s0 room batch unfolding ds by auto
    have "handleBatch P env batch s = Ret (s', None)"
      using c one s'(1)
      by (simp add: handleBatch_def Let_def handle_each_append handle_each_Cons del: handle_each.simps append_Cons)
    then show ?thesis using delivers_trans [OF s0(3) s'(2)] unfolding ds by auto
  next
    case zero
    have rest: "rest = []" using c zero by (induction batch arbitrary: singles) (auto split: if_splits prod.splits)
    obtain s' where s': "handle_each P env singles (pause_if_high s) = Ret (s', None)"
      "delivers (length singles) ((the \<circ> getBlockNum) ` set singles) (pause_if_high s) s'"
      using handle_each_delivers [of "pause_if_high s" singles env] s0 room batch parts by auto
    have "handleBatch P env batch s = Ret (s', None)"
      using c zero s'(1) by (simp add: handleBatch_def Let_def)
    then show ?thesis using delivers_trans [OF s0(3) s'(2)] parts rest zero by auto
  qed
qed

lemma run_delivers:
  assumes "good s" and "\<forall>b \<in> set bs. \<forall>d \<in> set (fst b). fine d"
    and "length (buffer s) + batch_total bs \<le> bufferLimit s"
  shows "\<exists>s'. Run P (results bs) s = Ret (s', None)
     \<and> delivers (batch_total bs) (batch_nums bs) s s' \<and> advances committed s s'"
  using assms
proof (induction bs arbitrary: s)
  case Nil
  then show ?case by (simp add: delivers_def)
next
  case (Cons b bs)
  have ok: "\<forall>d \<in> set (fst b). fine d" using Cons.prems(2) by simp
  have room: "length (buffer s) + length (fst b) \<le> bufferLimit s" using Cons.prems(3) by simp
  obtain t where t: "handleBatch P (snd b) (fst b) s = Ret (t, None)"
      "delivers (length (fst b)) ((the \<circ> getBlockNum) ` set (fst b)) s t"
    using handleBatch_delivers [OF Cons.prems(1) ok room, of "snd b"] by blast
  have adv1: "advances committed s t"
    using handleBatch_advances [OF t(1) _ _ _ room] ok Cons.prems(1)
    by (simp add: fine_def clean_def hydrated_not_signal good_def fine_buf_def clean_buf_ok)
  have "good t" "length (buffer t) + batch_total bs \<le> bufferLimit t"
    using t(2) Cons.prems(3) bufferLimit_cong [of t s] by (simp_all add: delivers_def)
  then obtain s' where s': "Run P (results bs) t = Ret (s', None)"
      "delivers (batch_total bs) (batch_nums bs) t s'" "advances committed t s'"
    using Cons.IH [of t] Cons.prems(2) by auto
  have "Run P (results (b # bs)) s = Ret (s', None)" using t(1) s'(1) by (simp add: and_then_def)
  with delivers_trans [OF t(2) s'(2)] advances_trans [OF adv1 s'(3)] show ?case by auto
qed

lemma run_commits_all:
  assumes "reliable (proc s)" and "buffer s = []" and "\<forall>b \<in> set bs. \<forall>d \<in> set (fst b). fine d"
    and "batch_total bs \<le> bufferLimit s" and "{expectedBlock s..n} \<subseteq> batch_nums bs"
  shows "\<exists>s'. Run P (results bs) s = Ret (s', None)
     \<and> n < expectedBlock s' \<and> committed (proc s') = committed (proc s) @ [expectedBlock s..expectedBlock s' - 1]
     \<and> reliable (proc s')"
proof -
  have "good s" using assms(1,2) by (simp add: good_def fine_buf_def clean_buf_def settled_def)
  then obtain s' where s': "Run P (results bs) s = Ret (s', None)"
      "delivers (batch_total bs) (batch_nums bs) s s'" "advances committed s s'"
    using run_delivers [of s bs] assms(2-4) by auto
  have "n < expectedBlock s'"
  proof (rule ccontr)
    assume "\<not> n < expectedBlock s'"
    then have "expectedBlock s' \<in> {expectedBlock s..n}" using s'(2) by (auto simp: delivers_def)
    with assms(5) s'(2) have "covered s' (expectedBlock s')" unfolding delivers_def by blast
    with s'(2) show False by (simp add: covered_def delivers_def good_def settled_def)
  qed
  with s' show ?thesis by (auto simp: advances_def delivers_def good_def)
qed

end

end
