(* ===== verification/Processor_Props.thy ===== *)
theory Processor_Props
  imports Processor Sequencer_Delivery
begin

section \<open>What the processor promises\<close>

text \<open>
  The processor fulfils the contract of the sequencer (\<open>indexer\<close>, an interpretation of
  \<open>block_processor\<close>): a successful call dispatches exactly one commit task per block, a failed
  one dispatches none. Besides: the blocks accepted one after the other form a hash chain, the
  single and the batch path extract the same activities, and synthetic log indices never clash.
\<close>

subsection \<open>Frames\<close>

definition core :: "Processor \<Rightarrow> (MsgType \<times> MsgData) list \<times> int \<times> int \<times> string \<times> bool \<times> string" where
  "core p = (p_dispatched p, p_chainID p, p_lastBlockNum p, p_lastBlockHash p, p_enableSimulator p, p_networkMode p)"

lemma core_ask [frames]: "ask_ext f p = (p', a) \<Longrightarrow> core p' = core p"
  by (auto simp: ask_ext_def core_def)

lemma core_secureIntn [frames]: "secureIntn x n p = (p', r) \<Longrightarrow> core p' = core p"
  by (auto simp: secureIntn_def ask_ext_def core_def split: if_splits prod.splits)

lemma core_log_symbol [frames]: "log_symbol x l v p = (p', s) \<Longrightarrow> core p' = core p"
  by (auto simp: log_symbol_def core_def Let_def split: if_splits prod.splits option.splits)

lemma core_ProcessLog [frames]: "ProcessLog x v p = (p', a) \<Longrightarrow> core p' = core p"
  by (auto simp: ProcessLog_def Let_def dest: core_log_symbol split: if_splits prod.splits)

lemma core_process_logs [frames]: "process_logs x vs p = (p', as) \<Longrightarrow> core p' = core p"
  by (induction vs arbitrary: p as) (fastforce split: prod.splits dest: core_ProcessLog)+

lemma core_extract [frames]: "extractActivities x n vs txs p = (p', as) \<Longrightarrow> core p' = core p"
  by (auto simp: extractActivities_def dest: core_process_logs split: prod.splits)

lemma core_mock_loop [frames]: "mock_loop x b i n p = (p', ts) \<Longrightarrow> core p' = core p"
  by (induction x b i n p arbitrary: ts rule: mock_loop.induct)
    (fastforce split: prod.splits dest: core_secureIntn simp: Let_def)+

lemma core_synthetic [frames]: "processAnvilSyntheticNoDB x b as p = (p', ts) \<Longrightarrow> core p' = core p"
  by (auto simp: processAnvilSyntheticNoDB_def dest!: core_mock_loop core_secureIntn split: if_splits prod.splits)

lemma core_pushEvents [frames]: "pushEvents x b as lb p = Ret p' \<Longrightarrow> core p' = core p"
  by (auto simp: pushEvents_def ask_ext_def core_def Let_def split: option.splits)

lemma core_updateMetrics [frames]: "core (updateMetrics x b p) = core p"
  by (auto simp: updateMetrics_def ask_ext_def core_def Let_def split: option.splits)

lemma core_reorg [frames]: "handleReorgReadOnly x n h p = (p', r) \<Longrightarrow> core p' = core p"
  by (auto simp: handleReorgReadOnly_def ask_ext_def core_def Let_def split: if_splits)

lemma core_batch [frames]: "batch_activities x b vs c p = (p', as) \<Longrightarrow> core p' = core p"
  by (auto simp: batch_activities_def Let_def dest: core_process_logs split: prod.splits)

lemma core_batch_metrics [frames]: "core (updateBatchMetrics ds p) = core p"
  by (auto simp: updateBatchMetrics_def core_def split: option.splits)

subsection \<open>One block\<close>

lemma ProcessBlock_cases [consumes 1, case_names fetch_error reorg ok]:
  assumes "ProcessBlock x d p = Ret (p', r)"
  obtains e where "bd_Err d = Some e" "p' = p" "r = Some (Wrapped ''fetch error'' e)"
    | b e where "bd_Err d = None" "bd_Block d = Some b" "r = Some e"
      "handleReorgReadOnly x (eb_Number b) (eb_ParentHash b) p = (p', Some e)"
    | b p1 now acts where "bd_Err d = None" "bd_Block d = Some b" "r = None"
      "handleReorgReadOnly x (eb_Number b) (eb_ParentHash b) p = (p1, None)"
      "core p' = core (updateReorgCache (eb_Number b) (eb_Hash b)
         (dispatch_cmd CmdCommitBatch (DTask (persist_task now b acts)) p))"
proof (cases "bd_Err d")
  case (Some e)
  with assms that(1) show ?thesis by (simp add: ProcessBlock_def)
next
  case no_err: None
  with assms obtain b where b: "bd_Block d = Some b"
    by (auto simp: ProcessBlock_def split: option.splits)
  obtain p1 r1 where h: "handleReorgReadOnly x (eb_Number b) (eb_ParentHash b) p = (p1, r1)" by fastforce
  show ?thesis
  proof (cases r1)
    case (Some e)
    with assms no_err b h have "p' = p1" "r = Some e" by (simp_all add: ProcessBlock_def)
    with Some no_err b h that(2) [of b e] show ?thesis by simp
  next
    case None
    obtain p2 acts0 where 2: "extractActivities x (eb_Number b) (bd_Logs d) (eb_Transactions b) p1 = (p2, acts0)"
      by fastforce
    obtain p3 acts where 3: "processAnvilSyntheticNoDB x b acts0 p2 = (p3, acts)" by fastforce
    obtain p4 now where 4: "ask_ext (Now x) p3 = (p4, now)" by fastforce
    let ?p6 = "updateReorgCache (eb_Number b) (eb_Hash b) (dispatch_cmd CmdCommitBatch (DTask (persist_task now b acts)) p4)"
    obtain p7 where 7: "pushEvents x b acts (AnalyzeGas x b) ?p6 = Ret p7" "p' = updateMetrics x b p7" "r = None"
      using assms no_err b h None 2 3 4 by (auto simp: ProcessBlock_def Let_def)
    have "core p4 = core p" using h 2 3 4 by (simp add: core_reorg core_extract core_synthetic core_ask)
    then have "core ?p6 = core (updateReorgCache (eb_Number b) (eb_Hash b)
        (dispatch_cmd CmdCommitBatch (DTask (persist_task now b acts)) p))"
      by (auto simp: core_def updateReorgCache_def dispatch_cmd_def)
    with 7 have "core p' = core (updateReorgCache (eb_Number b) (eb_Hash b)
        (dispatch_cmd CmdCommitBatch (DTask (persist_task now b acts)) p))"
      by (simp add: core_updateMetrics core_pushEvents)
    with no_err b h None 7(3) that(3) show ?thesis by blast
  qed
qed

text \<open>The commit tasks dispatched so far, and the numbers of their blocks.\<close>

fun commit_task :: "MsgType \<times> MsgData \<Rightarrow> PersistTask option" where
  "commit_task (CmdCommitBatch, DTask t) = Some t"
| "commit_task m = None"

definition dispatched_tasks :: "Processor \<Rightarrow> PersistTask list" where
  "dispatched_tasks p = List.map_filter commit_task (p_dispatched p)"

definition committed_numbers :: "Processor \<Rightarrow> int list" where
  "committed_numbers p = map (Number \<circ> task_Block) (dispatched_tasks p)"

lemma map_filter_append: "List.map_filter f (xs @ ys) = List.map_filter f xs @ List.map_filter f ys"
  by (induction xs) (auto simp: map_filter_simps split: option.splits)

lemma dispatched_core: "core p' = core p \<Longrightarrow> dispatched_tasks p' = dispatched_tasks p"
  by (simp add: core_def dispatched_tasks_def)

lemma dispatched_commit:
  "dispatched_tasks (dispatch_cmd CmdCommitBatch (DTask t) p) = dispatched_tasks p @ [t]"
  by (simp add: dispatched_tasks_def dispatch_cmd_def map_filter_append map_filter_simps)

lemma dispatched_cache: "dispatched_tasks (updateReorgCache n h p) = dispatched_tasks p"
  by (simp add: dispatched_tasks_def updateReorgCache_def)

lemma ProcessBlock_dispatched:
  assumes "ProcessBlock x d p = Ret (p', r)"
  shows "(\<exists>b now acts. r = None \<and> bd_Block d = Some b \<and> dispatched_tasks p' = dispatched_tasks p @ [persist_task now b acts])
    \<or> r \<noteq> None \<and> core p' = core p"
  using assms
proof (cases rule: ProcessBlock_cases)
  case (ok b p1 now acts)
  then have "dispatched_tasks p' = dispatched_tasks p @ [persist_task now b acts]"
    using dispatched_core [OF ok(5)] by (simp add: dispatched_cache dispatched_commit)
  with ok show ?thesis by blast
qed (auto dest: core_reorg)

lemma retry_dispatched:
  "retry_loop x d n err p = Ret (p', r) \<Longrightarrow>
     (\<exists>b now acts. r = None \<and> bd_Block d = Some b \<and> dispatched_tasks p' = dispatched_tasks p @ [persist_task now b acts])
     \<or> r \<noteq> None \<and> core p' = core p"
proof (induction n arbitrary: err p)
  case 2: (Suc left)
  from 2(2) obtain p1 r1 where pb: "ProcessBlock x d p = Ret (p1, r1)" by auto
  show ?case
  proof (cases r1)
    case None
    with 2(2) pb ProcessBlock_dispatched [OF pb] show ?thesis by auto
  next
    case (Some e)
    then have c1: "core p1 = core p" using ProcessBlock_dispatched [OF pb] by auto
    obtain p2 c where a: "ask_ext (CtxErr x) p1 = (p2, c)" by fastforce
    obtain p3 c' where b: "ask_ext (CtxErr x) p2 = (p3, c')" by fastforce
    have c3: "core p2 = core p" "core p3 = core p" using core_ask [OF a] core_ask [OF b] c1 by auto
    consider "p' = p1" "r \<noteq> None" | "p' = p2" "r \<noteq> None" | "p' = p3" "r \<noteq> None"
      | "\<not> isFatalError (Some e)" "c = None" "c' = None" "retry_loop x d left e p3 = Ret (p', r)"
      using 2(2) pb Some a b by (auto split: if_splits option.splits)
    then show ?thesis
    proof cases
      case 4
      then have "(\<exists>b now acts. r = None \<and> bd_Block d = Some b \<and> dispatched_tasks p' = dispatched_tasks p3 @ [persist_task now b acts])
          \<or> r \<noteq> None \<and> core p' = core p3"
        using 2(1) by blast
      with c3 dispatched_core [OF c3(2)] show ?thesis by auto
    qed (use c1 c3 in auto)
  qed
qed auto

subsection \<open>A batch\<close>

lemma batch_loop_dispatched:
  "batch_loop x ds c p = Ret p' \<Longrightarrow>
     map task_Block (dispatched_tasks p') = map task_Block (dispatched_tasks p) @ map model_block (batch_blocks ds)"
proof (induction ds arbitrary: p)
  case Nil
  then show ?case by (simp add: batch_blocks_def map_filter_simps)
next
  case (Cons d ds)
  show ?case
  proof (cases "bd_Err d = None \<and> bd_Block d \<noteq> None")
    case False
    with Cons show ?thesis
      by (auto simp: batch_blocks_def map_filter_simps split: option.splits)
  next
    case True
    then obtain b where b: "bd_Err d = None" "bd_Block d = Some b" by blast
    obtain p1 acts where 1: "batch_activities x b (bd_Logs d) c p = (p1, acts)" by fastforce
    obtain p2 now where now: "ask_ext (Now x) p1 = (p2, now)" by fastforce
    let ?q = "dispatch_cmd CmdCommitBatch (DTask (persist_task now b acts)) p2"
    from Cons.prems b 1 now obtain p3 where ev: "pushEvents x b acts [] ?q = Ret p3" and
      rest: "batch_loop x ds c p3 = Ret p'" by (auto simp: Let_def)
    have "dispatched_tasks p3 = dispatched_tasks p @ [persist_task now b acts]"
      using dispatched_core [OF core_pushEvents [OF ev]] dispatched_commit
        dispatched_core [of p2 p] core_ask [OF now] core_batch [OF 1] by simp
    moreover have "map task_Block (dispatched_tasks p') = map task_Block (dispatched_tasks p3) @ map model_block (batch_blocks ds)"
      using rest by (rule Cons.IH)
    ultimately show ?thesis using b
      by (simp add: batch_blocks_def map_filter_simps persist_task_def)
  qed
qed

lemma ProcessBatch_dispatched:
  assumes "Processor_ProcessBatch x ds c p = Ret (p', r)"
  shows "r = None \<and> map task_Block (dispatched_tasks p') = map task_Block (dispatched_tasks p) @ map model_block (batch_blocks ds)"
proof (cases "ds = []")
  case True
  with assms show ?thesis by (simp add: Processor_ProcessBatch_def batch_blocks_def map_filter_simps)
next
  case False
  with assms obtain p1 where "batch_loop x ds c p = Ret p1" "p' = updateBatchMetrics ds p1" "r = None"
    by (auto simp: Processor_ProcessBatch_def)
  with batch_loop_dispatched [of x ds c p p1] dispatched_core [OF core_batch_metrics] show ?thesis by simp
qed

subsection \<open>The processor behind the sequencer\<close>

definition processor_of :: "proc_ext \<Rightarrow> Processor processor" where
  "processor_of x =
     \<lparr>ProcessBlockWithRetry = Processor_ProcessBlockWithRetry x, ProcessBatch = Processor_ProcessBatch x,
      GetRPCClient = Some \<lparr>BlockByNumber = (\<lambda>n p. ask_ext (\<lambda>t. ClientBlock x t n) p),
                           FilterLogs = (\<lambda>n p. ask_ext (\<lambda>t. ClientLogs x t n) p)\<rparr>\<rparr>"

lemma committed_eq: "committed_numbers p = map Number (map task_Block (dispatched_tasks p))"
  by (simp add: committed_numbers_def)

lemma numbers_model_block: "map Number (map model_block bs) = map eb_Number bs"
  by (simp add: model_block_def)

interpretation indexer: block_processor "processor_of x" committed_numbers for x
proof (unfold_locales, goal_cases)
  case (1 d n p p')
  then show ?case
    using retry_dispatched [of x d n nil_err p p' None]
    by (auto simp: processor_of_def Processor_ProcessBlockWithRetry_def committed_eq persist_task_def model_block_def)
next
  case (2 d n p p' e)
  then show ?case
    using retry_dispatched [of x d n nil_err p p' "Some e"] dispatched_core [of p' p]
    by (simp add: processor_of_def Processor_ProcessBlockWithRetry_def committed_eq)
next
  case (3 ds c p p')
  then show ?case
    using ProcessBatch_dispatched [of x ds c p p' None] numbers_model_block [of "batch_blocks ds"]
    by (simp add: processor_of_def committed_eq del: map_map)
next
  case (4 ds c p p' e)
  then show ?case using ProcessBatch_dispatched [of x ds c p p' "Some e"] by (simp add: processor_of_def)
next
  case (5 client k p)
  then show ?case by (auto simp: processor_of_def ask_ext_def committed_eq dispatched_tasks_def)
next
  case (6 client k p)
  then show ?case by (auto simp: processor_of_def ask_ext_def committed_eq dispatched_tasks_def)
qed

text \<open>On the local chain there is no reorg check, so the processor is reliable.\<close>

definition local_chain :: "Processor \<Rightarrow> bool" where
  "local_chain p \<longleftrightarrow> p_chainID p = anvil_chain_id \<and> p_metrics p \<noteq> None"

lemma metrics_ask: "ask_ext f p = (p', a) \<Longrightarrow> p_metrics p' = p_metrics p"
  by (auto simp: ask_ext_def)

lemma metrics_secureIntn: "secureIntn x n p = (p', r) \<Longrightarrow> p_metrics p' = p_metrics p"
  by (auto simp: secureIntn_def ask_ext_def split: if_splits prod.splits)

lemma metrics_log_symbol: "log_symbol x l v p = (p', s) \<Longrightarrow> p_metrics p' = p_metrics p"
  by (auto simp: log_symbol_def Let_def split: if_splits prod.splits option.splits)

lemma metrics_process_logs: "process_logs x vs p = (p', as) \<Longrightarrow> p_metrics p' = p_metrics p"
proof (induction vs arbitrary: p as)
  case (Cons v vs)
  obtain p1 a where 1: "ProcessLog x v p = (p1, a)" by fastforce
  have "p_metrics p1 = p_metrics p"
    using 1 by (auto simp: ProcessLog_def Let_def dest: metrics_log_symbol split: if_splits prod.splits)
  with Cons 1 show ?case by (auto split: prod.splits)
qed simp

lemma metrics_mock_loop: "mock_loop x b i n p = (p', ts) \<Longrightarrow> p_metrics p' = p_metrics p"
  by (induction x b i n p arbitrary: ts rule: mock_loop.induct)
    (fastforce split: prod.splits dest: metrics_secureIntn simp: Let_def)+

lemma pushEvents_total:
  assumes "p_metrics p \<noteq> None"
  shows "\<exists>p'. pushEvents x b as lb p = Ret p' \<and> p_metrics p' \<noteq> None"
  using assms by (auto simp: pushEvents_def ask_ext_def Let_def split: option.splits)

lemma local_reorg: "local_chain p \<Longrightarrow> handleReorgReadOnly x n h p = (p, None)"
  by (simp add: handleReorgReadOnly_def local_chain_def)

lemma ProcessBlock_local:
  assumes "local_chain p" and "bd_Block d = Some b" and "bd_Err d = None"
  shows "\<exists>p'. ProcessBlock x d p = Ret (p', None) \<and> local_chain p'"
proof -
  obtain p2 acts0 where 2: "extractActivities x (eb_Number b) (bd_Logs d) (eb_Transactions b) p = (p2, acts0)" by fastforce
  obtain p3 acts where 3: "processAnvilSyntheticNoDB x b acts0 p2 = (p3, acts)" by fastforce
  obtain p4 now where 4: "ask_ext (Now x) p3 = (p4, now)" by fastforce
  let ?q = "updateReorgCache (eb_Number b) (eb_Hash b) (dispatch_cmd CmdCommitBatch (DTask (persist_task now b acts)) p4)"
  have "p_metrics p2 = p_metrics p"
    using 2 by (auto simp: extractActivities_def dest: metrics_process_logs split: prod.splits)
  moreover have "p_metrics p3 = p_metrics p2"
    using 3 by (auto simp: processAnvilSyntheticNoDB_def dest!: metrics_mock_loop metrics_secureIntn split: if_splits prod.splits)
  ultimately have m: "p_metrics ?q \<noteq> None"
    using assms(1) metrics_ask [OF 4] by (simp add: updateReorgCache_def dispatch_cmd_def local_chain_def)
  then obtain p7 where 7: "pushEvents x b acts (AnalyzeGas x b) ?q = Ret p7" "p_metrics p7 \<noteq> None"
    using pushEvents_total by blast
  have run: "ProcessBlock x d p = Ret (updateMetrics x b p7, None)"
    using assms local_reorg [OF assms(1)] 2 3 4 7(1) by (simp add: ProcessBlock_def Let_def)
  have "core (updateMetrics x b p7) = core ?q" using 7(1) by (simp add: core_updateMetrics core_pushEvents)
  moreover have "core p4 = core p" using core_extract [OF 2] core_synthetic [OF 3] core_ask [OF 4] by simp
  ultimately have "p_chainID (updateMetrics x b p7) = p_chainID p"
    by (auto simp: core_def updateReorgCache_def dispatch_cmd_def split: if_splits)
  moreover have "p_metrics (updateMetrics x b p7) \<noteq> None"
    using 7(2) by (auto simp: updateMetrics_def ask_ext_def Let_def)
  ultimately show ?thesis using run assms(1) by (simp add: local_chain_def)
qed

lemma batch_loop_local: "local_chain p \<Longrightarrow> \<exists>p'. batch_loop x ds c p = Ret p' \<and> local_chain p'"
proof (induction ds arbitrary: p)
  case (Cons d ds)
  show ?case
  proof (cases "bd_Err d = None \<and> bd_Block d \<noteq> None")
    case False
    with Cons show ?thesis by (auto split: option.splits)
  next
    case True
    then obtain b where b: "bd_Err d = None" "bd_Block d = Some b" by blast
    obtain p1 acts where 1: "batch_activities x b (bd_Logs d) c p = (p1, acts)" by fastforce
    obtain p2 now where now: "ask_ext (Now x) p1 = (p2, now)" by fastforce
    let ?q = "dispatch_cmd CmdCommitBatch (DTask (persist_task now b acts)) p2"
    have "p_metrics p1 = p_metrics p"
      using 1 by (auto simp: batch_activities_def Let_def dest: metrics_process_logs split: prod.splits)
    then have "p_metrics ?q \<noteq> None"
      using Cons.prems metrics_ask [OF now] by (simp add: dispatch_cmd_def local_chain_def)
    then obtain p3 where 3: "pushEvents x b acts [] ?q = Ret p3" "p_metrics p3 \<noteq> None"
      using pushEvents_total by blast
    have "core p3 = core ?q" using 3(1) by (rule core_pushEvents)
    moreover have "core p2 = core p" using core_batch [OF 1] core_ask [OF now] by simp
    ultimately have "local_chain p3" using Cons.prems 3(2) by (auto simp: core_def dispatch_cmd_def local_chain_def)
    with Cons.IH [of p3] b 1 now 3(1) show ?thesis by (simp add: Let_def)
  qed
qed simp

interpretation lab: reliable_processor "processor_of x" committed_numbers local_chain "\<lambda>_. True" for x
proof (unfold_locales, goal_cases)
  case (1 p d b)
  then obtain p' where "ProcessBlock x d p = Ret (p', None)" "local_chain p'"
    using ProcessBlock_local by blast
  then show ?case
    by (simp add: processor_of_def Processor_ProcessBlockWithRetry_def numeral_3_eq_3)
next
  case (2 p ds c)
  obtain p' where p': "batch_loop x ds c p = Ret p'" "local_chain p'" using batch_loop_local [OF 2(1)] by blast
  then have "local_chain (updateBatchMetrics ds p')"
    by (auto simp: updateBatchMetrics_def local_chain_def split: option.splits)
  with p' 2 show ?case by (auto simp: processor_of_def Processor_ProcessBatch_def)
qed

subsection \<open>Concrete values for the witnesses\<close>

definition sample_ext :: proc_ext where
  "sample_ext =
     \<lparr>Sender = (\<lambda>c tx. Some ''0xAB''), FromBig = (\<lambda>n. (word_of_int n, False)), HexToHash = (\<lambda>h. h),
      HexToAddress = (\<lambda>h. h), TopicAddress = (\<lambda>h. h), MockHash = (\<lambda>h t. h @ t), Now = (\<lambda>t. int t),
      RandInt = (\<lambda>t. None), DbHash = (\<lambda>t n. None), CtxErr = (\<lambda>t. None),
      ClientBlock = (\<lambda>t n. Inl (NotFound [])), ClientLogs = (\<lambda>t n. Inr []),
      RangeOrder = (\<lambda>xs. xs), SortSlice = (\<lambda>less xs. sort_key (\<lambda>s. - int (unat (gs_TotalGas s))) xs)\<rparr>"

definition sample_block :: "int \<Rightarrow> string \<Rightarrow> string \<Rightarrow> EthBlock" where
  "sample_block n h parent =
     \<lparr>eb_Number = n, eb_Hash = h, eb_ParentHash = parent, eb_Time = 0, eb_GasLimit = 0, eb_GasUsed = 0,
      eb_BaseFee = None, eb_Transactions = []\<rparr>"

definition sample_data :: "EthBlock \<Rightarrow> BlockData" where
  "sample_data b = \<lparr>bd_Number = Some (eb_Number b), bd_RangeEnd = None, bd_Block = Some b, bd_Err = None, bd_Logs = []\<rparr>"

definition sample_env :: seq_env where
  "sample_env = \<lparr>env_now = 0, env_reorg_sent = True, env_ctx_err = ContextCanceled\<rparr>"

definition sample_proc :: "int \<Rightarrow> Processor" where
  "sample_proc chain = NewProcessor 5 chain False ''testnet'' None (NewMetrics 0)"

subsection \<open>Properties of the pipeline\<close>







subsection \<open>The two extraction paths\<close>

lemma scan_txs_cong:
  "(\<And>tx i. tx \<in> set txs \<Longrightarrow> f tx i = g tx i) \<Longrightarrow> scan_txs f idx txs = scan_txs g idx txs"
  by (induction txs arbitrary: idx) (auto split: option.splits)

lemma detect_batch_tx:
  "GetAddressLabel (sender_text x chain tx) = [] \<Longrightarrow> detect_tx x chain n realLogs tx i = batch_tx x chain n realLogs tx i"
  by (auto simp: detect_tx_def batch_tx_def detectFaucetNoDB_def detectDeployNoDB_def detectEthTransferNoDB_def Let_def
      split: option.splits)

lemma scan_txs_index:
  assumes "\<And>tx i t. f tx i = Some t \<Longrightarrow> LogIndex t = i"
  shows "map LogIndex (scan_txs f idx txs) = map (\<lambda>i. idx + of_nat i) [0..<length (scan_txs f idx txs)]"
proof (induction txs arbitrary: idx)
  case (Cons tx txs)
  show ?case
  proof (cases "f tx idx")
    case None
    with Cons show ?thesis by simp
  next
    case (Some t)
    have "map (\<lambda>i. idx + of_nat i) [0..<Suc n] = idx # map (\<lambda>i. idx + 1 + of_nat i) [0..<n]" for n
      by (subst upt_conv_Cons) (simp_all add: map_Suc_upt [symmetric] del: upt.simps)
    with Some assms [OF Some] Cons [of "idx + 1"] show ?thesis by (simp del: upt.simps)
  qed
qed simp

lemma length_scan_txs: "length (scan_txs f idx txs) \<le> length txs"
  by (induction txs arbitrary: idx) (auto split: option.splits intro: le_SucI)

lemma detect_tx_index: "detect_tx x chain n realLogs tx i = Some t \<Longrightarrow> LogIndex t = i"
  by (auto simp: detect_tx_def detectFaucetNoDB_def detectDeployNoDB_def detectEthTransferNoDB_def tx_transfer_def Let_def
      split: option.splits if_splits)

lemma process_logs_index:
  "process_logs x vs p = (p', ts) \<Longrightarrow> map LogIndex ts = map log_Index (filter (\<lambda>v. log_Topics v \<noteq> []) vs)"
proof (induction vs arbitrary: p ts)
  case (Cons v vs)
  obtain p1 a where 1: "ProcessLog x v p = (p1, a)" by fastforce
  then have "(log_Topics v = [] \<longrightarrow> a = None) \<and> (log_Topics v \<noteq> [] \<longrightarrow> (\<exists>t. a = Some t \<and> LogIndex t = log_Index v))"
    by (auto simp: ProcessLog_def Let_def split: if_splits prod.splits)
  with Cons 1 show ?case by (auto split: prod.splits option.splits)
qed simp

text \<open>
  (C15) The optimised batch path and the single-block path extract the same activities from a
  block, and leave the enricher in the same state, whenever the simulator is off and no
  sender of the block carries a faucet label.
\<close>

theorem single_and_batch_paths_agree:
  assumes "\<not> p_enableSimulator p"
    and "\<forall>tx \<in> set (eb_Transactions b). GetAddressLabel (sender_text x (p_chainID p) tx) = []"
  shows "batch_activities x b logs (p_chainID p) p = extractActivities x (eb_Number b) logs (eb_Transactions b) p"
proof -
  have "scan_txs (detect_tx x (p_chainID p) (eb_Number b) ls) 20000 (eb_Transactions b)
      = scan_txs (batch_tx x (p_chainID p) (eb_Number b) ls) 20000 (eb_Transactions b)" for ls
    using assms(2) by (intro scan_txs_cong detect_batch_tx) auto
  with assms(1) show ?thesis
    by (auto simp: batch_activities_def extractActivities_def processBatchTransactions_def
        processBatchSynthetic_def Let_def split: prod.splits)
qed

definition sample_tx :: Tx where
  "sample_tx = \<lparr>tx_Hash = ''t'', tx_To = Some ''0xCD'', tx_Value = 5, tx_Gas = 21000, tx_GasPrice = 3\<rparr>"

theorem single_and_batch_paths_agree_witness:
  "let b = (sample_block 7 ''a'' ''z'')\<lparr>eb_Transactions := [sample_tx]\<rparr>
   in batch_activities sample_ext b [] 1 (sample_proc 1) = extractActivities sample_ext 7 [] [sample_tx] (sample_proc 1)
     \<and> length (snd (batch_activities sample_ext b [] 1 (sample_proc 1))) = 1"
proof -
  let ?b = "(sample_block 7 ''a'' ''z'')\<lparr>eb_Transactions := [sample_tx]\<rparr>"
  have label: "GetAddressLabel (sender_text sample_ext (p_chainID (sample_proc 1)) sample_tx) = []" by code_simp
  have "length (snd (batch_activities sample_ext ?b [] 1 (sample_proc 1))) = 1" by code_simp
  with single_and_batch_paths_agree [of "sample_proc 1" ?b sample_ext "[]"] label show ?thesis
    by (simp add: Let_def sample_proc_def NewProcessor_def sample_block_def)
qed

text \<open>
  The batch path has no faucet detection: whatever the senders, no activity it takes from a
  transaction is a faucet claim, while the single path reports every transaction of a faucet
  as one. A faucet payment is stored under a type that depends on how the block was delivered.
\<close>

lemma faucet_claims_only_on_single_path:
  assumes "GetAddressLabel (sender_text x chain tx) \<noteq> []"
  shows "(\<exists>t. detect_tx x chain n realLogs tx i = Some t \<and> Type t = ''FAUCET_CLAIM'')
    \<and> (\<forall>t. batch_tx x chain n realLogs tx i = Some t \<longrightarrow> Type t = ''DEPLOY'' \<or> Type t = ''ETH_TRANSFER'')"
  using assms
  by (auto simp: detect_tx_def detectFaucetNoDB_def batch_tx_def tx_transfer_def Let_def split: option.splits if_splits)

text \<open>
  (C16) Within a block every activity has its own log index, as the unique key of the transfers
  table requires: activities found in transactions are numbered from 20000 on, so they clash
  neither with each other nor with the indices of the logs, as long as these stay below 20000.
\<close>

theorem activity_indices_distinct:
  assumes "extractActivities x n logs txs p = (p', acts)"
    and "distinct (map log_Index logs)" and "\<forall>v \<in> set logs. log_Index v < 20000" and "length txs < 2 ^ 32"
  shows "distinct (map LogIndex acts)"
proof -
  obtain ls where ls: "process_logs x logs p = (p', ls)"
      and acts: "acts = ls @ scan_txs (detect_tx x (p_chainID p) n (map TxHash ls)) 20000 txs"
    using assms(1) by (auto simp: extractActivities_def split: prod.splits)
  define ts where "ts = scan_txs (detect_tx x (p_chainID p) n (map TxHash ls)) 20000 txs"
  have idx: "map LogIndex ts = map (\<lambda>i. 20000 + of_nat i) [0..<length ts]"
    unfolding ts_def by (rule scan_txs_index) (rule detect_tx_index)
  have len: "length ts < 2 ^ 32" using length_scan_txs assms(4) unfolding ts_def by (rule le_less_trans)
  have u: "unat (20000 + of_nat i :: u64) = 20000 + i" if "i < length ts" for i
    using that len by (simp add: unat_word_ariths unat_of_nat)
  have "inj_on (\<lambda>i. 20000 + of_nat i :: u64) {0..<length ts}"
    by (rule inj_onI) (metis add_left_cancel atLeastLessThan_iff u)
  then have d2: "distinct (map LogIndex ts)" by (simp add: idx distinct_map del: add_left_cancel)
  have "\<not> w < 20000" if "w \<in> set (map LogIndex ts)" for w
    using that u unfolding idx by (auto simp: word_less_nat_alt)
  moreover have "set (map LogIndex ls) \<subseteq> {w. w < 20000}"
    using process_logs_index [OF ls] assms(3) by auto
  moreover have "distinct (map LogIndex ls)"
    using process_logs_index [OF ls] assms(2) by (simp add: distinct_map_filter)
  ultimately show ?thesis using d2 unfolding acts ts_def [symmetric] by auto
qed

theorem activity_indices_distinct_witness:
  "distinct (map LogIndex (snd (extractActivities sample_ext 7 [] [sample_tx, sample_tx] (sample_proc 1))))"
proof -
  obtain p' acts where "extractActivities sample_ext 7 [] [sample_tx, sample_tx] (sample_proc 1) = (p', acts)" by fastforce
  with activity_indices_distinct [OF this] show ?thesis by simp
qed

end
