(* ===== verification/Pipeline.thy ===== *)
theory Pipeline
  imports Tail_Follow Processor_Props
begin

section \<open>Fetcher, sequencer and processor together\<close>

text \<open>
  What the tail follower schedules, the fetcher reports, the sequencer orders and the processor
  dispatches, followed across the components.
\<close>

subsection \<open>From the head of the chain to the commits\<close>

text \<open>
  A worker that is served: its node has the logs of the job's range, at least one of every block,
  and the blocks, and every send goes through.
\<close>

definition serves_job :: "fetch_env \<Rightarrow> Fetcher \<Rightarrow> FetchJob \<Rightarrow> bool" where
  "serves_job E f j \<longleftrightarrow> \<not> f_stopped f
     \<and> (\<exists>logs. pool_logs E 0 = Inr logs \<and> (\<forall>n \<in> set (job_range j). logs_of logs n \<noteq> []))
     \<and> (\<forall>n \<in> set (job_range j). \<exists>b. pool_block E n 0 = Inr b \<and> eb_Number b = n)
     \<and> (\<forall>d n. sendResult E f d n)"

text \<open>Block data whose logs are those of its block.\<close>

definition own_logs :: "BlockData \<Rightarrow> bool" where
  "own_logs d \<longleftrightarrow> (case bd_Block d of None \<Rightarrow> True | Some b \<Rightarrow> \<forall>v \<in> set (bd_Logs d). log_BlockNumber v = num_u64 (eb_Number b))"

lemma elegant_retry_first: "call 0 = Inr v \<Longrightarrow> elegant_retry call c ok 0 5 r = (Some (Inr v), ok)"
  by (simp add: eval_nat_numeral)

lemma report_range_served:
  assumes "\<forall>n \<in> set bns. logs_of logs n \<noteq> [] \<and> (\<exists>b. pool_block E n 0 = Inr b \<and> eb_Number b = n)"
    and "\<forall>d n. sendResult E f d n"
  shows "(\<forall>d \<in> set (fst (report_range E f logs e bns)). clean d \<and> own_logs d)
    \<and> map (the \<circ> getBlockNum) (fst (report_range E f logs e bns)) = bns"
  using assms(1)
proof (induction bns)
  case (Cons n bns)
  then obtain b where b: "pool_block E n 0 = Inr b" "eb_Number b = n" "logs_of logs n \<noteq> []" by auto
  define d where "d = \<lparr>bd_Number = Some n, bd_RangeEnd = Some e, bd_Block = Some b, bd_Err = None, bd_Logs = logs_of logs n\<rparr>"
  have "fetch_one E logs e n = (Some d, [FetchSuccess])"
    using b by (simp add: fetch_one_def elegant_retry_first [where call = "pool_block E n", OF b(1)] d_def)
  then have "fst (report_range E f logs e (n # bns)) = d # fst (report_range E f logs e bns)"
    using assms(2) by (simp add: split_beta)
  moreover have "clean d" "own_logs d" "getBlockNum d = Some n"
    using b by (simp_all add: clean_def own_logs_def logs_of_def hydrated_def getBlockNum_def d_def)
  ultimately show ?case using Cons by simp
qed simp

lemma served_job_report:
  assumes "serves_job E f j"
  shows "(\<forall>d \<in> set (fst (worker_job E None f j)). clean d \<and> own_logs d)
    \<and> map (the \<circ> getBlockNum) (fst (worker_job E None f j)) = job_range j"
proof -
  from assms obtain logs where l: "pool_logs E 0 = Inr logs" "\<forall>n \<in> set (job_range j). logs_of logs n \<noteq> []"
    by (auto simp: serves_job_def)
  have "fst (worker_job E None f j) = fst (report_range E f logs (job_End j) (job_range j))"
    using assms by (simp add: worker_job_def fetchRangeWithLogs_def elegant_retry_first [where call = "pool_logs E", OF l(1)]
        serves_job_def split_beta)
  with report_range_served [of "job_range j" logs E f "job_End j"] l(2) assms show ?thesis
    by (simp add: serves_job_def)
qed

lemma announced_delivered:
  assumes "continuousTailFollow chain Es start = (hi, jobs, errs)" and "\<forall>E \<in> set Es. fresh_head E"
    and "\<forall>j \<in> set jobs. serves_job (node j) f j"
    and "(\<Union>b \<in> set bs. set (fst b)) = (\<Union>j \<in> set jobs. set (fst (worker_job (node j) None f j)))"
  shows "{start..hi} \<subseteq> batch_nums bs \<and> batch_nums bs \<subseteq> {start..max_i64} \<and> (\<forall>b \<in> set bs. \<forall>d \<in> set (fst b). clean d \<and> own_logs d)"
proof -
  have rep: "(\<forall>d \<in> set (fst (worker_job (node j) None f j)). clean d \<and> own_logs d)
      \<and> (the \<circ> getBlockNum) ` set (fst (worker_job (node j) None f j)) = set (job_range j)" if "j \<in> set jobs" for j
    using served_job_report [of "node j" f j] assms(3) that by (metis list.set_map)
  have "batch_nums bs = (the \<circ> getBlockNum) ` (\<Union>b \<in> set bs. set (fst b))" by (simp add: batch_nums_def image_UN)
  also have "\<dots> = (\<Union>j \<in> set jobs. set (job_range j))" unfolding assms(4) image_UN using rep by auto
  also have "\<dots> = set (scheduled_numbers jobs)" by simp
  finally have nums: "batch_nums bs = set (scheduled_numbers jobs)" .
  have c: "{start..hi} \<subseteq> set (scheduled_numbers jobs)" "set (scheduled_numbers jobs) \<subseteq> {start..}"
    "\<forall>n \<in> set (scheduled_numbers jobs). \<exists>E \<in> set Es. \<exists>tip. te_tip E = Inr tip \<and> n \<le> tip"
    using tail_ticks_covers [of chain Es "start - 1" hi jobs errs] assms(1,2) by (simp_all add: continuousTailFollow_def)
  have "n \<le> max_i64" if "n \<in> set (scheduled_numbers jobs)" for n
  proof -
    from c(3) that obtain E tip where E: "E \<in> set Es" "te_tip E = Inr tip" "n \<le> tip" by blast
    with assms(2) have "tip \<le> SafeUint64ToInt64 (te_head E)" by (simp add: fresh_head_def)
    also have "\<dots> \<le> max_i64" by (simp add: SafeUint64ToInt64_eq)
    finally show ?thesis using E(3) by simp
  qed
  moreover have "\<forall>b \<in> set bs. \<forall>d \<in> set (fst b). clean d \<and> own_logs d" using assms(4) rep by blast
  ultimately show ?thesis unfolding nums using c(1,2) by fastforce
qed

definition busy_log :: "int \<Rightarrow> Log" where
  "busy_log n = \<lparr>log_Address = ''0xT'', log_Topics = [], log_Data = [], log_BlockNumber = num_u64 n, log_TxHash = ''t'', log_Index = 0\<rparr>"

definition busy_node :: "FetchJob \<Rightarrow> fetch_env" where
  "busy_node j =
     \<lparr>pool_logs = (\<lambda>i. Inr (map busy_log (job_range j))), pool_block = (\<lambda>n i. Inr (sample_block n ''h'' ''p'')),
      logs_ctx = (\<lambda>i. False), block_ctx = (\<lambda>n i. False), send_ok = (\<lambda>n. True), wait_n = (\<lambda>l n t. True)\<rparr>"

lemma busy_tail:
  "continuousTailFollow 31337 [sample_tick 9 8 9] 7 = (9, [\<lparr>job_Start = 7, job_End = 9\<rparr>], [])"
proof -
  have h: "SafeUint64ToInt64 9 = 9" "wrap_i64 8 = 8" by (simp_all add: SafeUint64ToInt64_eq max_i64_def wrap_i64_def)
  have "Schedule 9 (\<lambda>_. Sent) 7 9 sample_fetcher = ([\<lparr>job_Start = 7, job_End = 9\<rparr>], None)"
    using h by (simp add: Schedule_def sample_fetcher_def chan_make_def chan_len_def schedule_loop.simps)
  then show ?thesis using h by (simp add: continuousTailFollow_def tail_tick_def sample_tick_def schedulingWindow_def)
qed

lemma busy_job:
  "serves_job (busy_node \<lparr>job_Start = 7, job_End = 9\<rparr>) sample_fetcher \<lparr>job_Start = 7, job_End = 9\<rparr>"
  "length (fst (worker_job (busy_node \<lparr>job_Start = 7, job_End = 9\<rparr>) None sample_fetcher \<lparr>job_Start = 7, job_End = 9\<rparr>)) = 3"
proof -
  let ?j = "\<lparr>job_Start = 7, job_End = 9\<rparr> :: FetchJob"
  show serve: "serves_job (busy_node ?j) sample_fetcher ?j"
    by (auto simp: serves_job_def busy_node_def sample_fetcher_def sendResult_def logs_of_def busy_log_def
        sample_block_def filter_empty_conv)
  have "map (the \<circ> getBlockNum) (fst (worker_job (busy_node ?j) None sample_fetcher ?j)) = [7..9]"
    using served_job_report [OF serve] by simp
  then have "length (map (the \<circ> getBlockNum) (fst (worker_job (busy_node ?j) None sample_fetcher ?j))) = 3" by simp
  then show "length (fst (worker_job (busy_node ?j) None sample_fetcher ?j)) = 3" by simp
qed

subsection \<open>The catch-up after a gap\<close>

lemma below_expected_ignored:
  "\<forall>d \<in> set ds. clean d \<and> the (getBlockNum d) < expectedBlock s \<Longrightarrow>
     classify (expectedBlock s) ds = (ds, [], expectedBlock s, []) \<and> handle_each P env ds s = Ret (s, None)"
proof (induction ds)
  case (Cons d ds)
  then obtain b where b: "bd_Block d = Some b" "bd_Err d = None" "effective_num d = Some (eb_Number b)"
      "getBlockNum d = Some (eb_Number b)" "eb_Number b < expectedBlock s"
    using clean_num [of d] by (auto simp: clean_def)
  have "handleBlock P env d s = Ret (s, None)"
    using b Cons.prems by (simp add: handleBlock_def handleBlockLocked.simps [of P env d] isRangeProgressSignal_def clean_hydrate)
  with Cons b show ?case by simp
qed simp

lemma run_below_expected:
  assumes "\<forall>d \<in> (\<Union>u \<in> set bs. set (fst u)). clean d \<and> the (getBlockNum d) < expectedBlock s"
  shows "\<exists>paused. Run P (results bs) s = Ret (s\<lparr>fetcherPaused := paused\<rparr>, None)"
  using assms
proof (induction bs arbitrary: s)
  case Nil
  then show ?case by (intro exI [of _ "fetcherPaused s"]) simp
next
  case (Cons u bs)
  let ?t = "pause_if_high s"
  have t: "expectedBlock ?t = expectedBlock s" by (simp add: pause_if_high_def)
  then have "\<forall>d \<in> set (fst u). clean d \<and> the (getBlockNum d) < expectedBlock ?t" using Cons.prems by simp
  from below_expected_ignored [OF this, of P "snd u"] have "handleBatch P (snd u) (fst u) s = Ret (?t, None)"
    by (simp add: handleBatch_def)
  moreover obtain q' where "Run P (results bs) ?t = Ret (?t\<lparr>fetcherPaused := q'\<rparr>, None)"
    using Cons.IH [of ?t] Cons.prems t by auto
  moreover have "?t\<lparr>fetcherPaused := q'\<rparr> = s\<lparr>fetcherPaused := q'\<rparr>" for q' by (simp add: pause_if_high_def)
  ultimately show ?case by (auto simp: and_then_def)
qed

text \<open>
  The catch-up never reaches the database: when the first block leaves a gap above the stored
  ones, the gap is scheduled, but the sequencer starts at the first block and ignores whatever
  lies below it. However the blocks of the gap are delivered, the run loop dispatches
  nothing and buffers nothing.
\<close>

lemma catchup_blocks_ignored:
  assumes "catchup_range (Some m) start = Some (a, b)" and "in_i64 start" and "expectedBlock s = start"
    and "\<forall>d \<in> (\<Union>u \<in> set bs. set (fst u)). clean d \<and> the (getBlockNum d) \<in> {a..b}"
  shows "\<exists>paused. Run P (results bs) s = Ret (s\<lparr>fetcherPaused := paused\<rparr>, None)"
proof (rule run_below_expected, intro ballI conjI)
  fix d
  assume "d \<in> (\<Union>u \<in> set bs. set (fst u))"
  with assms(4) have d: "clean d" "the (getBlockNum d) \<in> {a..b}" by blast+
  have "b < start" using assms(1,2) by (auto simp: catchup_range_def Let_def wrap_i64_id split: if_splits)
  with d assms(3) show "the (getBlockNum d) < expectedBlock s" "clean d" by simp_all
qed

subsection \<open>Blocks without logs\<close>

lemma take_run_all:
  "\<forall>d \<in> set ds. bd_Err d = None \<Longrightarrow> map getBlockNum ds = map Some [e..e + int (length ds) - 1] \<Longrightarrow>
     take_run e ds = (ds, e + int (length ds), [])"
proof (induction ds arbitrary: e)
  case (Cons d ds)
  have "[e..e + int (length (d # ds)) - 1] = e # [e + 1..e + 1 + int (length ds) - 1]"
    by (simp add: upto_rec1 add.commute add.left_commute)
  with Cons.prems(2) have "getBlockNum d = Some e" "map getBlockNum ds = map Some [e + 1..e + 1 + int (length ds) - 1]"
    by simp_all
  with Cons.IH [of "e + 1"] Cons.prems(1) show ?case by simp
qed simp

lemma classify_all:
  assumes "ds \<noteq> []" and "\<forall>d \<in> set ds. bd_Err d = None"
    and "map getBlockNum ds = map Some [e..e + int (length ds) - 1]"
  shows "classify e ds = ([], ds, e + int (length ds), [])"
proof (cases ds)
  case (Cons d ds')
  have t: "take_run e ds = (ds, e + int (length ds), [])" using assms(2,3) by (rule take_run_all)
  moreover have "getBlockNum d = Some e"
    using t Cons assms(2) by (auto split: if_splits)
  ultimately show ?thesis using Cons assms(2) by (auto split: prod.splits)
qed (use assms(1) in simp)

lemma batch_loop_missing: "\<forall>d \<in> set ds. bd_Block d = None \<Longrightarrow> batch_loop x ds c p = Ret p"
  by (induction ds) (auto split: option.splits)

lemma missing_numbers: "\<forall>d \<in> set ds. bd_Block d = None \<Longrightarrow> map getBlockNum ds = map bd_Number ds"
  by (auto simp: getBlockNum_def split: option.splits)

text \<open>
  (C39) Blocks without logs that reach the sequencer two or more at a time are lost: the fetcher
  reports them without their block object, the batch path of the processor skips them, and
  the sequencer nevertheless moves its expected number past them, so nothing is dispatched
  and no later delivery of the same blocks is accepted.
\<close>

theorem logless_batch_skipped:
  assumes "length ds > 1" and "\<forall>d \<in> set ds. bd_Block d = None \<and> bd_Err d = None"
    and "map bd_Number ds = map Some [expectedBlock s..expectedBlock s + int (length ds) - 1]"
    and "buffer s = []"
  shows "\<exists>s'. handleBatch (processor_of x) env ds s = Ret (s', None)
    \<and> expectedBlock s' = expectedBlock s + int (length ds) \<and> dispatched_tasks (proc s') = dispatched_tasks (proc s)
    \<and> (\<forall>d b. bd_Block d = Some b \<and> bd_Err d = None \<and> eb_Number b < expectedBlock s' \<longrightarrow>
          handleBlock (processor_of x) env d s' = Ret (s', None))"
proof -
  let ?e = "expectedBlock s + int (length ds)"
  have c: "classify (expectedBlock s) ds = ([], ds, ?e, [])"
    using assms missing_numbers [of ds] by (intro classify_all) auto
  define p1 where "p1 = updateBatchMetrics ds (proc s)"
  define u where "u = (pause_if_high s)\<lparr>proc := p1, expectedBlock := ?e, lastProgressAt := env_now env, gapFillCount := 0\<rparr>"
  have batch: "ProcessBatch (processor_of x) ds c (proc s) = Ret (p1, None)" for c
    using assms(1,2) by (auto simp: processor_of_def Processor_ProcessBatch_def batch_loop_missing p1_def)
  have drain: "processBufferContinuationsLocked (processor_of x) env u = Ret (resume_if_low u)"
    using assms(4) by (simp add: processBufferContinuationsLocked_def drain_loop.simps u_def)
  have run: "handleBatch (processor_of x) env ds s = Ret (resume_if_low u, None)"
    using c assms(1) batch drain by (simp add: handleBatch_def Let_def and_then_def u_def)
  have "dispatched_tasks p1 = dispatched_tasks (proc s)"
    unfolding p1_def by (rule dispatched_core) (rule core_batch_metrics)
  moreover have "handleBlock (processor_of x) env d (resume_if_low u) = Ret (resume_if_low u, None)"
    if "bd_Block d = Some b" "bd_Err d = None" "eb_Number b < ?e" for d b
    using that
    by (simp add: handleBlock_def handleBlockLocked.simps isRangeProgressSignal_def hydrate_def effective_num_def u_def)
  ultimately show ?thesis using run by (intro exI [of _ "resume_if_low u"]) (auto simp: u_def)
qed

definition logless :: "int \<Rightarrow> BlockData" where
  "logless n = \<lparr>bd_Number = Some n, bd_RangeEnd = Some 9, bd_Block = None, bd_Err = None, bd_Logs = []\<rparr>"

theorem logless_batch_skipped_witness:
  "\<exists>s'. handleBatch (processor_of sample_ext) sample_env [logless 7, logless 8]
      (NewSequencerWithFetcher (sample_proc 1) None 7 1 None 0) = Ret (s', None)
    \<and> expectedBlock s' = 9 \<and> dispatched_tasks (proc s') = []"
proof -
  let ?s = "NewSequencerWithFetcher (sample_proc 1) None 7 1 None 0"
  have "[7..8] = [7, 8 :: int]" by (simp add: upto_rec1)
  then have "\<exists>s'. handleBatch (processor_of sample_ext) sample_env [logless 7, logless 8] ?s = Ret (s', None)
    \<and> expectedBlock s' = expectedBlock ?s + int (length [logless 7, logless 8])
    \<and> dispatched_tasks (proc s') = dispatched_tasks (proc ?s)
    \<and> (\<forall>d b. bd_Block d = Some b \<and> bd_Err d = None \<and> eb_Number b < expectedBlock s' \<longrightarrow>
          handleBlock (processor_of sample_ext) sample_env d s' = Ret (s', None))"
    by (intro logless_batch_skipped) (simp_all add: logless_def NewSequencerWithFetcher_def)
  then show ?thesis
    by (auto simp: NewSequencerWithFetcher_def sample_proc_def NewProcessor_def dispatched_tasks_def map_filter_simps)
qed

end
