(* ===== verification/Storage.thy ===== *)
theory Storage
  imports Chain_Data Go_Utils
begin

section \<open>The database as the engine uses it\<close>

text \<open>
  The tables \<open>blocks\<close>, \<open>transfers\<close>, \<open>sync_checkpoints\<close> and \<open>sync_status\<close> with the statements the Go
  code sends: the bulk inserter (internal/engine/bulk\_inserter.go), the database sink
  (sink\_postgres.go), the repository adapter (internal/engine/processor\_core.go), the wrapper
  used by the consistency guard (internal/engine/consistency.go) and
  internal/database/repository.go. The tables have the keys the statements rely on and all
  columns they name; which of the repository's schemas provides them is the subject of the theory \<open>Schema\<close>.

  A statement is a function on the tables, \<open>Inl\<close> when it violates the foreign key of
  \<open>transfers\<close>. A transaction either applies all its statements or none. Whether the server
  answers at all is the argument \<open>fails\<close>: the error of the first statement that does not get
  through. Log indices fit the \<open>INTEGER\<close> column. \<open>NUMERIC\<close> values are integers (their decimal text determines them, \<open>big_string_inj\<close>).
\<close>

record BlockRow =
  br_number :: int
  br_hash :: string
  br_parent_hash :: string
  br_timestamp :: int
  br_gas_limit :: int
  br_gas_used :: int
  br_base_fee :: "int option"
  br_tx_count :: int

record TransferRow =
  tr_block_number :: int
  tr_tx_hash :: string
  tr_log_index :: int
  tr_from :: string
  tr_to :: string
  tr_amount :: string
  tr_token :: string
  tr_symbol :: string
  tr_activity_type :: string

record StatusRow =
  st_last_synced :: int
  st_latest_block :: int
  st_sync_lag :: int
  st_last_processed :: int
  st_rpc_provider :: "string option"
  st_status :: string
  st_error :: "string option"

record db =
  db_blocks :: "BlockRow list"
  db_transfers :: "TransferRow list"
  db_checkpoints :: "(int \<times> int) list"
  db_status :: "(int \<times> StatusRow) list"

definition empty_db :: db where
  "empty_db = \<lparr>db_blocks = [], db_transfers = [], db_checkpoints = [], db_status = []\<rparr>"

subsection \<open>Inserts (bulk\_inserter.go)\<close>

definition block_row :: "Block \<Rightarrow> BlockRow" where
  "block_row b =
     \<lparr>br_number = Number b, br_hash = Hash b, br_parent_hash = ParentHash b,
      br_timestamp = wrap_i64 (uint (Timestamp b)), br_gas_limit = wrap_i64 (uint (GasLimit b)),
      br_gas_used = wrap_i64 (uint (GasUsed b)), br_base_fee = BaseFeePerGas b, br_tx_count = TransactionCount b\<rparr>"

text \<open>The columns of \<open>fallbackInsertTransfers\<close> leave out \<open>activity_type\<close>, which takes its default.\<close>

definition transfer_row :: "Transfer \<Rightarrow> TransferRow" where
  "transfer_row t =
     \<lparr>tr_block_number = BlockNumber t, tr_tx_hash = TxHash t, tr_log_index = uint (LogIndex t),
      tr_from = From t, tr_to = To t, tr_amount = Uint256_String (Some (Amount t)),
      tr_token = TokenAddress t, tr_symbol = Symbol t, tr_activity_type = ''TRANSFER''\<rparr>"

definition insert_block :: "BlockRow \<Rightarrow> db \<Rightarrow> db" where
  "insert_block r d =
     (if br_number r \<in> br_number ` set (db_blocks d) then d else d\<lparr>db_blocks := db_blocks d @ [r]\<rparr>)"

definition tr_key :: "TransferRow \<Rightarrow> int \<times> int" where
  "tr_key r = (tr_block_number r, tr_log_index r)"

definition insert_transfer :: "TransferRow \<Rightarrow> db \<Rightarrow> go_error + db" where
  "insert_transfer r d =
     (if tr_key r \<in> tr_key ` set (db_transfers d) then Inr d
      else if tr_block_number r \<notin> br_number ` set (db_blocks d)
      then Inl (OtherError ''violates foreign key constraint'')
      else Inr (d\<lparr>db_transfers := db_transfers d @ [r]\<rparr>))"

definition fallbackInsertBlocks :: "Block list \<Rightarrow> db \<Rightarrow> db" where
  "fallbackInsertBlocks bs d = fold (\<lambda>b. insert_block (block_row b)) bs d"

fun insert_transfer_rows :: "TransferRow list \<Rightarrow> db \<Rightarrow> go_error + db" where
  "insert_transfer_rows [] d = Inr d"
| "insert_transfer_rows (r # rs) d =
     (case insert_transfer r d of Inl e \<Rightarrow> Inl e | Inr d1 \<Rightarrow> insert_transfer_rows rs d1)"

definition fallbackInsertTransfers :: "Transfer list \<Rightarrow> db \<Rightarrow> go_error + db" where
  "fallbackInsertTransfers ts d = insert_transfer_rows (map transfer_row ts) d"

definition InsertBlocksBatchTx :: "Block list \<Rightarrow> db \<Rightarrow> db" where
  "InsertBlocksBatchTx bs d = (if bs = [] then d else fallbackInsertBlocks bs d)"

definition InsertTransfersBatchTx :: "Transfer list \<Rightarrow> db \<Rightarrow> go_error + db" where
  "InsertTransfersBatchTx ts d = (if ts = [] then Inr d else fallbackInsertTransfers ts d)"

text \<open>
  The variants on the pool's own connection copy the rows if the driver connection is a \<open>pgx.Conn\<close>. COPY knows
  no conflict clause: one duplicate or dangling row makes the whole statement fail.
\<close>

definition copy_block_row :: "Block \<Rightarrow> BlockRow" where
  "copy_block_row b = (block_row b)\<lparr>br_timestamp := uint (Timestamp b), br_gas_limit := uint (GasLimit b), br_gas_used := uint (GasUsed b)\<rparr>"

definition InsertBlocksBatch :: "go_error option \<Rightarrow> bool \<Rightarrow> Block list \<Rightarrow> db \<Rightarrow> db \<times> go_error option" where
  "InsertBlocksBatch conn_err is_pgx bs d =
     (if bs = [] then (d, None)
      else case conn_err of
        Some e \<Rightarrow> (d, Some (Wrapped ''failed to get raw conn'' e))
      | None \<Rightarrow>
          if \<not> is_pgx then (fallbackInsertBlocks bs d, None)
          else if distinct (map Number bs) \<and> Number ` set bs \<inter> br_number ` set (db_blocks d) = {}
          then (d\<lparr>db_blocks := db_blocks d @ map copy_block_row bs\<rparr>, None)
          else (d, Some (Wrapped ''batch insert blocks failed'' (OtherError ''duplicate key value violates unique constraint''))))"

definition InsertTransfersBatch :: "go_error option \<Rightarrow> bool \<Rightarrow> Transfer list \<Rightarrow> db \<Rightarrow> db \<times> go_error option" where
  "InsertTransfersBatch conn_err is_pgx ts d =
     (if ts = [] then (d, None)
      else case conn_err of
        Some e \<Rightarrow> (d, Some (Wrapped ''failed to get raw conn'' e))
      | None \<Rightarrow>
          if \<not> is_pgx
          then (case fallbackInsertTransfers ts d of
                  Inl e \<Rightarrow> (d, Some (Wrapped ''batch insert transfers failed'' e)) | Inr d1 \<Rightarrow> (d1, None))
          else
            let rows = map transfer_row ts in
            if distinct (map tr_key rows) \<and> tr_key ` set rows \<inter> tr_key ` set (db_transfers d) = {}
               \<and> tr_block_number ` set rows \<subseteq> br_number ` set (db_blocks d)
            then (d\<lparr>db_transfers := db_transfers d @ rows\<rparr>, None)
            else (d, Some (Wrapped ''batch insert transfers failed'' (OtherError ''violates constraint''))))"

subsection \<open>The database sink (sink\_postgres.go)\<close>

text \<open>The sink stores the activity type, which the bulk inserter leaves to its default.\<close>

definition typed_row :: "Transfer \<Rightarrow> TransferRow" where
  "typed_row t = (transfer_row t)\<lparr>tr_activity_type := Type t\<rparr>"

definition PostgresSink_WriteTransfers :: "bool \<Rightarrow> Transfer list \<Rightarrow> db \<Rightarrow> db \<times> go_error option" where
  "PostgresSink_WriteTransfers db_up ts d =
     (if ts = [] then (d, None)
      else if \<not> db_up then (d, Some (Wrapped ''postgres_sink_transfer_failed'' (OtherError ''connection refused'')))
      else case insert_transfer_rows (map typed_row ts) d of
        Inl e \<Rightarrow> (d, Some (Wrapped ''postgres_sink_transfer_failed'' e))
      | Inr d1 \<Rightarrow> (d1, None))"

definition PostgresSink_WriteBlocks :: "go_error option \<Rightarrow> bool \<Rightarrow> Block list \<Rightarrow> db \<Rightarrow> db \<times> go_error option" where
  "PostgresSink_WriteBlocks conn_err is_pgx bs d = (if bs = [] then (d, None) else InsertBlocksBatch conn_err is_pgx bs d)"

subsection \<open>Checkpoints and pruning\<close>

definition upsert_checkpoint :: "int \<Rightarrow> int \<Rightarrow> db \<Rightarrow> db" where
  "upsert_checkpoint chain n d = d\<lparr>db_checkpoints := AList.update chain n (db_checkpoints d)\<rparr>"

definition upsert_status :: "int \<Rightarrow> StatusRow \<Rightarrow> db \<Rightarrow> db" where
  "upsert_status chain r d = d\<lparr>db_status := AList.update chain r (db_status d)\<rparr>"

text \<open>\<open>DELETE FROM blocks WHERE number >= n\<close>; the foreign key cascades to \<open>transfers\<close>.\<close>

definition delete_blocks_from :: "int \<Rightarrow> db \<Rightarrow> db" where
  "delete_blocks_from n d =
     d\<lparr>db_blocks := filter (\<lambda>r. \<not> br_number r \<ge> n) (db_blocks d),
       db_transfers := filter (\<lambda>r. \<not> tr_block_number r \<ge> n) (db_transfers d)\<rparr>"

text \<open>\<open>UPDATE sync_checkpoints SET last_synced_block = n\<close> has no \<open>WHERE\<close>.\<close>

definition set_all_checkpoints :: "int \<Rightarrow> db \<Rightarrow> db" where
  "set_all_checkpoints n d = d\<lparr>db_checkpoints := map (\<lambda>(c, m). (c, n)) (db_checkpoints d)\<rparr>"

definition set_all_status :: "int \<Rightarrow> db \<Rightarrow> db" where
  "set_all_status n d = d\<lparr>db_status := map (\<lambda>(c, r). (c, r\<lparr>st_last_processed := n\<rparr>)) (db_status d)\<rparr>"

text \<open>\<open>PruneFutureData\<close> of the processor's adapter, and of the guard's wrapper and the repository.\<close>

definition PruneFutureData :: "int \<Rightarrow> db \<Rightarrow> db" where
  "PruneFutureData chainHead d = set_all_checkpoints chainHead (delete_blocks_from (chainHead + 1) d)"

definition Wrapper_PruneFutureData :: "int \<Rightarrow> db \<Rightarrow> db" where
  "Wrapper_PruneFutureData chainHead d = set_all_status chainHead (PruneFutureData chainHead d)"

definition UpdateSyncCursor :: "int \<Rightarrow> db \<Rightarrow> db" where
  "UpdateSyncCursor height d = set_all_checkpoints height d"

definition Wrapper_UpdateSyncCursor :: "int \<Rightarrow> db \<Rightarrow> db" where
  "Wrapper_UpdateSyncCursor height d = set_all_status height (set_all_checkpoints height d)"

definition GetMaxStoredBlock :: "db \<Rightarrow> int" where
  "GetMaxStoredBlock d = (if db_blocks d = [] then 0 else Max (br_number ` set (db_blocks d)))"

text \<open>\<open>SELECT ... FROM sync_checkpoints LIMIT 1\<close> returns some row; no row is an error.\<close>

definition GetSyncCursor :: "db \<Rightarrow> go_error + int" where
  "GetSyncCursor d =
     (case db_checkpoints d of [] \<Rightarrow> Inl (OtherError ''sql: no rows in result set'') | (c, n) # _ \<Rightarrow> Inr (wrap_i64 n))"

definition Repository_GetLatestBlockNumber :: "int \<Rightarrow> db \<Rightarrow> int" where
  "Repository_GetLatestBlockNumber chain d = (case map_of (db_checkpoints d) chain of None \<Rightarrow> 0 | Some n \<Rightarrow> n)"

definition Repository_UpdateCheckpoint :: "int \<Rightarrow> int \<Rightarrow> db \<Rightarrow> db" where
  "Repository_UpdateCheckpoint chain n d = upsert_checkpoint chain n d"

subsection \<open>The repository (internal/database/repository.go)\<close>

text \<open>
  \<open>SaveBlock\<close> names four columns, the others take their defaults; a \<open>uint64\<close> beyond \<open>int64\<close> is refused by the
  driver.
\<close>

definition SaveBlock :: "Block \<Rightarrow> db \<Rightarrow> go_error + db" where
  "SaveBlock b d =
     (if uint (Timestamp b) > max_i64 then Inl (OtherError ''value out of range'')
      else Inr (insert_block
        \<lparr>br_number = Number b, br_hash = Hash b, br_parent_hash = ParentHash b, br_timestamp = uint (Timestamp b),
         br_gas_limit = 0, br_gas_used = 0, br_base_fee = None, br_tx_count = 0\<rparr> d))"

definition SaveTransfer :: "Transfer \<Rightarrow> db \<Rightarrow> go_error + db" where
  "SaveTransfer t d = insert_transfer (typed_row t) d"

text \<open>A status row that exists keeps what the update does not name.\<close>

definition UpdateSyncStatus :: "int \<Rightarrow> int \<Rightarrow> string \<Rightarrow> db \<Rightarrow> db" where
  "UpdateSyncStatus chain n provider d =
     upsert_status chain
       (case map_of (db_status d) chain of
          None \<Rightarrow> \<lparr>st_last_synced = 0, st_latest_block = 0, st_sync_lag = 0, st_last_processed = n,
                   st_rpc_provider = Some provider, st_status = ''syncing'', st_error = None\<rparr>
        | Some r \<Rightarrow> r\<lparr>st_last_processed := n, st_rpc_provider := Some provider, st_status := ''syncing'', st_error := None\<rparr>) d"

definition RecordSyncError :: "int \<Rightarrow> string \<Rightarrow> db \<Rightarrow> db" where
  "RecordSyncError chain msg d =
     (case map_of (db_status d) chain of
        None \<Rightarrow> d
      | Some r \<Rightarrow> upsert_status chain (r\<lparr>st_status := ''error'', st_error := Some msg\<rparr>) d)"

text \<open>
  \<open>GetSyncStatus\<close> reads the row into an anonymous struct whose fields have no column tags: the package
  sqlx looks for the lower-case field names, finds no column of this name in the result and returns an
  error, which the function answers with nil.
\<close>

definition GetSyncStatus :: "int \<Rightarrow> db \<Rightarrow> int option \<times> string \<times> go_error option" where
  "GetSyncStatus chain d =
     (let columns = [''last_processed_block'', ''rpc_provider'']; fields = [''lastprocessedblock'', ''rpcprovider''];
          found = map_of (db_status d) chain in
      if found = None \<or> \<not> set columns \<subseteq> set fields then (None, [], None)
      else (SetString10 [], [], None))"

definition UpdateTokenSymbol :: "string \<Rightarrow> string \<Rightarrow> db \<Rightarrow> db" where
  "UpdateTokenSymbol token symbol d =
     d\<lparr>db_transfers := map (\<lambda>r. if tr_token r = token \<and> tr_symbol r = [] then r\<lparr>tr_symbol := symbol\<rparr> else r) (db_transfers d)\<rparr>"

definition Repository_PruneFutureData :: "int \<Rightarrow> db \<Rightarrow> db" where
  "Repository_PruneFutureData chainHead d = set_all_status chainHead (set_all_checkpoints chainHead (delete_blocks_from (chainHead + 1) d))"

definition Repository_UpdateSyncCursor :: "int \<Rightarrow> db \<Rightarrow> db" where
  "Repository_UpdateSyncCursor height d = set_all_status height (set_all_checkpoints height d)"

text \<open>\<open>SELECT hash FROM blocks WHERE number = n\<close>.\<close>

definition block_hash :: "int \<Rightarrow> db \<Rightarrow> string option" where
  "block_hash n d = map_option br_hash (find (\<lambda>r. br_number r = n) (db_blocks d))"

subsection \<open>Integrity\<close>

definition db_wf :: "db \<Rightarrow> bool" where
  "db_wf d \<longleftrightarrow> distinct (map br_number (db_blocks d)) \<and> distinct (map tr_key (db_transfers d))
     \<and> tr_block_number ` set (db_transfers d) \<subseteq> br_number ` set (db_blocks d)"

text \<open>The statements the engine sends to the data tables.\<close>

inductive db_step :: "db \<Rightarrow> db \<Rightarrow> bool" where
  blocks: "db_step d (InsertBlocksBatchTx bs d)"
| transfers: "InsertTransfersBatchTx ts d = Inr d' \<Longrightarrow> db_step d d'"
| checkpoint: "db_step d (upsert_checkpoint c n d)"
| status: "db_step d (upsert_status c r d)"
| delete: "db_step d (delete_blocks_from n d)"
| prune: "db_step d (PruneFutureData n d)"
| wrapper_prune: "db_step d (Wrapper_PruneFutureData n d)"
| cursor: "db_step d (UpdateSyncCursor n d)"
| wrapper_cursor: "db_step d (Wrapper_UpdateSyncCursor n d)"
| copy_blocks: "db_step d (fst (InsertBlocksBatch ce pg bs d))"
| copy_transfers: "db_step d (fst (InsertTransfersBatch ce pg ts d))"
| sink: "db_step d (fst (PostgresSink_WriteTransfers up ts d))"
| save_block: "SaveBlock b d = Inr d' \<Longrightarrow> db_step d d'"
| save_transfer: "SaveTransfer t d = Inr d' \<Longrightarrow> db_step d d'"
| sync_error: "db_step d (RecordSyncError c msg d)"
| symbol: "db_step d (UpdateTokenSymbol a sy d)"

lemma insert_block_wf: "db_wf d \<Longrightarrow> db_wf (insert_block r d)"
  by (auto simp: db_wf_def insert_block_def)

lemma insert_transfer_wf: "db_wf d \<Longrightarrow> insert_transfer r d = Inr d' \<Longrightarrow> db_wf d'"
  unfolding db_wf_def insert_transfer_def by (simp split: if_splits) (fastforce simp: subset_iff)

lemma insert_blocks_wf: "db_wf d \<Longrightarrow> db_wf (fallbackInsertBlocks bs d)"
  unfolding fallbackInsertBlocks_def by (induction bs arbitrary: d) (auto intro: insert_block_wf)

lemma insert_rows_wf: "db_wf d \<Longrightarrow> insert_transfer_rows rs d = Inr d' \<Longrightarrow> db_wf d'"
  by (induction rs arbitrary: d) (auto intro: insert_transfer_wf split: sum.splits)

lemma delete_wf: "db_wf d \<Longrightarrow> db_wf (delete_blocks_from n d)"
  by (force simp: db_wf_def delete_blocks_from_def distinct_map_filter)

lemma meta_wf [simp]:
  "db_wf (upsert_checkpoint c n d) = db_wf d" "db_wf (upsert_status c r d) = db_wf d"
  "db_wf (set_all_checkpoints n d) = db_wf d" "db_wf (set_all_status n d) = db_wf d"
  by (simp_all add: db_wf_def upsert_checkpoint_def upsert_status_def set_all_checkpoints_def set_all_status_def)

lemma copy_block_row_number [simp]: "br_number (copy_block_row b) = Number b"
  by (simp add: copy_block_row_def block_row_def)

lemma copied_blocks_wf:
  "db_wf d \<Longrightarrow> distinct (map Number bs) \<Longrightarrow> Number ` set bs \<inter> br_number ` set (db_blocks d) = {}
    \<Longrightarrow> db_wf (d\<lparr>db_blocks := db_blocks d @ map copy_block_row bs\<rparr>)"
  by (auto simp: db_wf_def comp_def image_image)

lemma copied_transfers_wf:
  "db_wf d \<Longrightarrow> distinct (map tr_key rows) \<Longrightarrow> tr_key ` set rows \<inter> tr_key ` set (db_transfers d) = {}
    \<Longrightarrow> tr_block_number ` set rows \<subseteq> br_number ` set (db_blocks d) \<Longrightarrow> db_wf (d\<lparr>db_transfers := db_transfers d @ rows\<rparr>)"
  by (auto simp: db_wf_def)

lemma InsertBlocksBatch_wf: "db_wf d \<Longrightarrow> db_wf (fst (InsertBlocksBatch ce pg bs d))"
  by (simp add: InsertBlocksBatch_def insert_blocks_wf copied_blocks_wf split: option.splits)

lemma InsertTransfersBatch_wf: "db_wf d \<Longrightarrow> db_wf (fst (InsertTransfersBatch ce pg ts d))"
  using insert_rows_wf [of d "map transfer_row ts"] copied_transfers_wf [of d "map transfer_row ts"]
  unfolding InsertTransfersBatch_def fallbackInsertTransfers_def Let_def by (auto simp del: set_map map_map split: option.splits sum.splits)

lemma sink_wf: "db_wf d \<Longrightarrow> db_wf (fst (PostgresSink_WriteTransfers up ts d))"
  by (auto simp: PostgresSink_WriteTransfers_def intro: insert_rows_wf split: sum.splits)

lemma UpdateTokenSymbol_wf: "db_wf (UpdateTokenSymbol a sy d) = db_wf d"
proof -
  let ?f = "\<lambda>r. if tr_token r = a \<and> tr_symbol r = [] then r\<lparr>tr_symbol := sy\<rparr> else r"
  have "tr_key (?f r) = tr_key r" "tr_block_number (?f r) = tr_block_number r" for r by (simp_all add: tr_key_def)
  then have keys: "map tr_key (map ?f ts) = map tr_key ts" "map tr_block_number (map ?f ts) = map tr_block_number ts" for ts :: "TransferRow list"
    by simp_all
  from arg_cong [OF keys(2), of set] have "tr_block_number ` set (map ?f ts) = tr_block_number ` set ts" for ts :: "TransferRow list"
    unfolding set_map .
  note blocks = this
  have "db_blocks (UpdateTokenSymbol a sy d) = db_blocks d" "db_transfers (UpdateTokenSymbol a sy d) = map ?f (db_transfers d)"
    by (simp_all add: UpdateTokenSymbol_def)
  then show ?thesis unfolding db_wf_def by (simp only: keys blocks)
qed

lemma db_step_wf: "db_step d d' \<Longrightarrow> db_wf d \<Longrightarrow> db_wf d'"
proof (induction rule: db_step.induct)
  case (sync_error d c msg)
  then show ?case by (simp add: RecordSyncError_def split: option.splits)
qed (auto simp: InsertBlocksBatchTx_def InsertTransfersBatchTx_def fallbackInsertTransfers_def PruneFutureData_def
    Wrapper_PruneFutureData_def UpdateSyncCursor_def Wrapper_UpdateSyncCursor_def SaveBlock_def SaveTransfer_def
    InsertBlocksBatch_wf InsertTransfersBatch_wf sink_wf UpdateTokenSymbol_wf
    intro: insert_blocks_wf insert_rows_wf insert_block_wf insert_transfer_wf delete_wf split: if_splits)

text \<open>A status that was written is never read back.\<close>

lemma sync_status_never_read: "GetSyncStatus chain d = (None, [], None)"
  by (simp add: GetSyncStatus_def)


definition sample_model_block :: "int \<Rightarrow> Block" where
  "sample_model_block n =
     \<lparr>Number = n, Hash = ''h'', ParentHash = ''p'', Timestamp = 0, GasLimit = 0, GasUsed = 0,
      BaseFeePerGas = None, TransactionCount = 0\<rparr>"


end
