(* ===== verification/Async_Writer.thy ===== *)
theory Async_Writer
  imports Storage Orchestrator
begin

section \<open>The asynchronous writer (internal/engine/async\_writer\_*.go)\<close>

text \<open>
  Persist tasks wait in \<open>taskChan\<close>; the run loop collects them in a local batch and writes it
  in one transaction when it is full, on a tick, or at once when the queue is deep.

  \<^item> \<open>w_batch\<close> is the local variable \<open>batch\<close> of \<open>run\<close>, \<open>w_cancelled\<close> the state of \<open>w.ctx\<close>,
    \<open>w_db\<close> the tables, \<open>w_written\<close> the tasks whose transactions were committed, in order;
    \<open>w_cmds\<close> the commands dispatched to the orchestrator, \<open>w_latest\<close> the \<open>LatestHeight\<close> of its
    snapshot.
  \<^item> \<open>db_up\<close> says whether the server carries out the transaction; \<open>BeginTxx\<close> on a cancelled
    context fails in any case (package database/sql). A statement that fails aborts the
    transaction, so its commit fails too.
\<close>

record AsyncWriter =
  w_taskChan :: "PersistTask chan"
  w_chainID :: int
  w_ephemeralMode :: bool
  w_batchSize :: nat
  w_cancelled :: bool
  w_diskWatermark :: u64
  w_emergencyDrainCooldown :: bool
  w_batch :: "PersistTask list"
  w_db :: db
  w_written :: "PersistTask list"
  w_cmds :: "(MsgType \<times> MsgData) list"
  w_latest :: u64

definition NewAsyncWriter :: "db \<Rightarrow> bool \<Rightarrow> int \<Rightarrow> u64 \<Rightarrow> AsyncWriter" where
  "NewAsyncWriter d ephemeral chain latest =
     \<lparr>w_taskChan = chan_make 15000, w_chainID = chain, w_ephemeralMode = ephemeral, w_batchSize = 200,
      w_cancelled = False, w_diskWatermark = 0, w_emergencyDrainCooldown = False, w_batch = [], w_db = d,
      w_written = [], w_cmds = [], w_latest = latest\<rparr>"

definition Enqueue :: "PersistTask \<Rightarrow> AsyncWriter \<Rightarrow> AsyncWriter \<times> go_error option" where
  "Enqueue t w =
     (case chan_try_send t (w_taskChan w) of
        (c, True) \<Rightarrow> (w\<lparr>w_taskChan := c\<rparr>, None)
      | (c, False) \<Rightarrow> (w, Some ContextDeadlineExceeded))"

text \<open>\<open>Shutdown\<close> cancels the context; the run loop sees it as the event \<open>WDone\<close>.\<close>

definition Shutdown :: "AsyncWriter \<Rightarrow> AsyncWriter" where
  "Shutdown w = w\<lparr>w_cancelled := True\<rparr>"

subsection \<open>Flushing (async\_writer\_flush.go)\<close>

definition max_height :: "PersistTask list \<Rightarrow> u64" where
  "max_height batch = fold (\<lambda>t m. if task_Height t > m then task_Height t else m) batch 0"

definition mask63 :: "u64 \<Rightarrow> u64" where
  "mask63 h = take_bit 63 h"

definition updateCheckpointsTx :: "int \<Rightarrow> u64 \<Rightarrow> u64 \<Rightarrow> db \<Rightarrow> db" where
  "updateCheckpointsTx chain maxHeight latestHeight d =
     (let synced = SafeUint64ToInt64 (mask63 maxHeight); latest = SafeUint64ToInt64 (mask63 latestHeight)
      in upsert_status chain
           (case map_of (db_status d) chain of
              None \<Rightarrow> \<lparr>st_last_synced = synced, st_latest_block = latest, st_sync_lag = latest - synced, st_last_processed = synced,
                       st_rpc_provider = None, st_status = ''syncing'', st_error = None\<rparr>
            | Some r \<Rightarrow> r\<lparr>st_last_synced := synced, st_latest_block := latest, st_sync_lag := latest - synced, st_last_processed := synced\<rparr>)
           (upsert_checkpoint chain (uint maxHeight) d))"

definition write_tx :: "AsyncWriter \<Rightarrow> PersistTask list \<Rightarrow> db \<Rightarrow> go_error + db" where
  "write_tx w batch d =
     (case InsertTransfersBatchTx (concat (map task_Transfers batch)) (InsertBlocksBatchTx (map task_Block batch) d) of
        Inl e \<Rightarrow> Inl e
      | Inr d1 \<Rightarrow> Inr (updateCheckpointsTx (w_chainID w) (max_height batch) (w_latest w) d1))"

definition handleEphemeralFlush :: "PersistTask list \<Rightarrow> AsyncWriter \<Rightarrow> AsyncWriter" where
  "handleEphemeralFlush batch w =
     w\<lparr>w_diskWatermark := max_height batch, w_cmds := w_cmds w @ [(CmdCommitDisk, DUint64 (max_height batch))]\<rparr>"

definition flush :: "bool \<Rightarrow> PersistTask list \<Rightarrow> AsyncWriter \<Rightarrow> AsyncWriter" where
  "flush db_up batch w =
     (if batch = [] then w
      else if w_ephemeralMode w then handleEphemeralFlush batch w
      else if w_cancelled w \<or> \<not> db_up then w
      else case write_tx w batch (w_db w) of
             Inl e \<Rightarrow> w
           | Inr d \<Rightarrow>
               w\<lparr>w_db := d, w_written := w_written w @ batch, w_diskWatermark := max_height batch,
                 w_cmds := w_cmds w @ [(CmdCommitDisk, DUint64 (max_height batch))]\<rparr>)"

text \<open>
  \<open>emergencyDrain\<close>: while the queue is deeper than half its capacity its head is moved to the
  mega batch. The cooldown ends with the event \<open>WCooldown\<close>.
\<close>

definition emergencyDrain :: "bool \<Rightarrow> AsyncWriter \<Rightarrow> AsyncWriter" where
  "emergencyDrain db_up w =
     (if w_emergencyDrainCooldown w then w
      else
        let c = w_taskChan w; excess = chan_len c - capacity c * 50 div 100;
            mega = take excess (items c);
            w1 = w\<lparr>w_emergencyDrainCooldown := True, w_taskChan := c\<lparr>items := drop excess (items c)\<rparr>,
                   w_cmds := w_cmds w @ [(CmdSetSystemState, DSystemState SystemStateDegraded)]\<rparr>;
            w2 = flush db_up mega w1
        in w2\<lparr>w_cmds := w_cmds w2 @ [(CmdSetSystemState, DSystemState SystemStateRunning)]\<rparr>)"

subsection \<open>The run loop (async\_writer\_core.go)\<close>

datatype writer_event = WDone | WTask | WTick | WCooldown

definition on_task :: "bool \<Rightarrow> AsyncWriter \<Rightarrow> AsyncWriter" where
  "on_task db_up w =
     (case items (w_taskChan w) of
        [] \<Rightarrow> w
      | t # ts \<Rightarrow>
          (let w1 = w\<lparr>w_taskChan := (w_taskChan w)\<lparr>items := ts\<rparr>, w_batch := w_batch w @ [t]\<rparr>
           in if length ts > capacity (w_taskChan w) * 75 div 100
              then emergencyDrain db_up ((flush db_up (w_batch w1) w1)\<lparr>w_batch := []\<rparr>)
              else if length (w_batch w1) \<ge> w_batchSize w
              then (flush db_up (w_batch w1) w1)\<lparr>w_batch := []\<rparr>
              else w1))"

fun writer_step :: "writer_event \<Rightarrow> bool \<Rightarrow> AsyncWriter \<Rightarrow> AsyncWriter" where
  "writer_step WDone db_up w = (flush db_up (w_batch w) w)\<lparr>w_batch := []\<rparr>"
| "writer_step WTask db_up w = on_task db_up w"
| "writer_step WTick db_up w =
     (if w_batch w \<noteq> [] then (flush db_up (w_batch w) w)\<lparr>w_batch := []\<rparr> else w)"
| "writer_step WCooldown db_up w = w\<lparr>w_emergencyDrainCooldown := False\<rparr>"

text \<open>The run loop ends with \<open>WDone\<close>.\<close>

fun writer_run :: "(writer_event \<times> bool) list \<Rightarrow> AsyncWriter \<Rightarrow> AsyncWriter" where
  "writer_run [] w = w"
| "writer_run ((e, up) # es) w =
     (if e = WDone then writer_step WDone up w else writer_run es (writer_step e up w))"

subsection \<open>The queue as a sequence\<close>

text \<open>The tasks of a writer in the order they were handed over: written, collected, waiting.\<close>

definition pipeline_of :: "AsyncWriter \<Rightarrow> PersistTask list" where
  "pipeline_of w = w_written w @ w_batch w @ items (w_taskChan w)"

text \<open>Tasks as the processor makes them: a transfer belongs to the block of its task.\<close>

definition task_ok :: "PersistTask \<Rightarrow> bool" where
  "task_ok t \<longleftrightarrow> (\<forall>tr \<in> set (task_Transfers t). BlockNumber tr = Number (task_Block t))"

definition writer_ok :: "AsyncWriter \<Rightarrow> bool" where
  "writer_ok w \<longleftrightarrow> \<not> w_ephemeralMode w \<and> \<not> w_cancelled w
     \<and> (\<forall>t \<in> set (w_batch w @ items (w_taskChan w)). task_ok t)"

lemma numbers_insert_blocks:
  "br_number ` set (db_blocks (fallbackInsertBlocks bs d)) = br_number ` set (db_blocks d) \<union> Number ` set bs"
  unfolding fallbackInsertBlocks_def
  by (induction bs arbitrary: d) (auto simp: insert_block_def block_row_def)

lemma insert_rows_ok:
  "tr_block_number ` set rs \<subseteq> br_number ` set (db_blocks d) \<Longrightarrow>
     \<exists>d'. insert_transfer_rows rs d = Inr d' \<and> db_blocks d' = db_blocks d"
proof (induction rs arbitrary: d)
  case (Cons r rs)
  obtain d1 where "insert_transfer r d = Inr d1" "db_blocks d1 = db_blocks d"
    using Cons.prems by (cases "tr_key r \<in> tr_key ` set (db_transfers d)") (simp_all add: insert_transfer_def)
  moreover obtain d' where "insert_transfer_rows rs d1 = Inr d'" "db_blocks d' = db_blocks d1"
    using Cons.IH [of d1] Cons.prems calculation by auto
  ultimately show ?case by simp
qed simp

lemma write_tx_ok:
  assumes "\<forall>t \<in> set batch. task_ok t"
  shows "\<exists>d'. write_tx w batch d = Inr d'
    \<and> br_number ` set (db_blocks d') = br_number ` set (db_blocks d) \<union> (Number \<circ> task_Block) ` set batch"
proof -
  let ?d1 = "InsertBlocksBatchTx (map task_Block batch) d"
  have b: "br_number ` set (db_blocks ?d1) = br_number ` set (db_blocks d) \<union> (Number \<circ> task_Block) ` set batch"
    by (auto simp: InsertBlocksBatchTx_def numbers_insert_blocks)
  have "tr_block_number ` set (map transfer_row (concat (map task_Transfers batch))) \<subseteq> br_number ` set (db_blocks ?d1)"
    using assms unfolding b by (force simp: task_ok_def transfer_row_def)
  then obtain d2 where "InsertTransfersBatchTx (concat (map task_Transfers batch)) ?d1 = Inr d2" "db_blocks d2 = db_blocks ?d1"
    using insert_rows_ok [of "map transfer_row (concat (map task_Transfers batch))" ?d1]
    unfolding InsertTransfersBatchTx_def fallbackInsertTransfers_def by (metis (no_types))
  with b show ?thesis
    by (simp add: write_tx_def updateCheckpointsTx_def Let_def upsert_status_def upsert_checkpoint_def)
qed

lemma max_height_fold: "fold (\<lambda>t m. if task_Height t > m then task_Height t else m) batch h0 = fold max (map task_Height batch) h0"
  by (induction batch arbitrary: h0) (auto simp: max_def)

lemma max_height_upper: "t \<in> set batch \<Longrightarrow> task_Height t \<le> max_height batch"
  using Max.set_eq_fold [of 0 "map task_Height batch", symmetric]
  by (auto simp: max_height_def max_height_fold intro: Max_ge)

lemma max_height_attained: "batch \<noteq> [] \<Longrightarrow> \<exists>t \<in> set batch. task_Height t = max_height batch"
proof (induction batch rule: rev_induct)
  case (snoc t ts)
  have "max_height (ts @ [t]) = (if task_Height t > max_height ts then task_Height t else max_height ts)"
    by (simp add: max_height_def)
  moreover have "max_height [] = 0" by (simp add: max_height_def)
  ultimately show ?case using snoc by (cases "ts = []") (auto simp: word_gt_0)
qed simp

lemma max_height_last:
  assumes "batch \<noteq> []" and "sorted (map task_Height batch)"
  shows "max_height batch = task_Height (last batch)"
proof -
  from assms(1) obtain ts t where b: "batch = ts @ [t]" by (cases batch rule: rev_cases) auto
  obtain t' where t': "t' \<in> set batch" "task_Height t' = max_height batch"
    using max_height_attained [OF assms(1)] by blast
  then have "max_height batch \<le> task_Height t" using assms(2) b by (auto simp: sorted_append)
  moreover have "task_Height t \<le> max_height batch" using b by (intro max_height_upper) simp
  ultimately show ?thesis using b by simp
qed

text \<open>The checkpoint of the writer's chain is the height of the task written last.\<close>

definition checkpoint_current :: "AsyncWriter \<Rightarrow> bool" where
  "checkpoint_current w \<longleftrightarrow> w_written w \<noteq> [] \<longrightarrow>
     map_of (db_checkpoints (w_db w)) (w_chainID w) = Some (uint (task_Height (last (w_written w))))"

lemma checkpoint_current_frame [simp]:
  "checkpoint_current (w\<lparr>w_batch := b\<rparr>) = checkpoint_current w"
  "checkpoint_current (w\<lparr>w_taskChan := c\<rparr>) = checkpoint_current w"
  "checkpoint_current (w\<lparr>w_cmds := cs\<rparr>) = checkpoint_current w"
  "checkpoint_current (w\<lparr>w_emergencyDrainCooldown := cd\<rparr>) = checkpoint_current w"
  by (simp_all add: checkpoint_current_def)

lemma flush_ok:
  assumes "\<not> w_ephemeralMode w" "\<not> w_cancelled w" "\<forall>t \<in> set batch. task_ok t"
  shows "w_written (flush True batch w) = w_written w @ batch" "w_taskChan (flush True batch w) = w_taskChan w"
    and "w_batch (flush True batch w) = w_batch w"
    and "w_ephemeralMode (flush True batch w) = w_ephemeralMode w" "w_cancelled (flush True batch w) = w_cancelled w"
    and "br_number ` set (db_blocks (w_db (flush True batch w)))
       = br_number ` set (db_blocks (w_db w)) \<union> (Number \<circ> task_Block) ` set batch"
    and "w_chainID (flush True batch w) = w_chainID w"
    and "sorted (map task_Height batch) \<Longrightarrow> checkpoint_current w \<Longrightarrow> checkpoint_current (flush True batch w)"
proof -
  obtain d' where d': "write_tx w batch (w_db w) = Inr d'"
      "br_number ` set (db_blocks d') = br_number ` set (db_blocks (w_db w)) \<union> (Number \<circ> task_Block) ` set batch"
    using write_tx_ok [OF assms(3), of w "w_db w"] by blast
  then have ck: "map_of (db_checkpoints d') (w_chainID w) = Some (uint (max_height batch))"
    by (auto simp: write_tx_def updateCheckpointsTx_def Let_def upsert_status_def upsert_checkpoint_def update_conv'
        split: sum.splits)
  show "w_written (flush True batch w) = w_written w @ batch" "w_taskChan (flush True batch w) = w_taskChan w"
    "w_batch (flush True batch w) = w_batch w" "w_ephemeralMode (flush True batch w) = w_ephemeralMode w"
    "w_cancelled (flush True batch w) = w_cancelled w" "w_chainID (flush True batch w) = w_chainID w"
    "br_number ` set (db_blocks (w_db (flush True batch w)))
       = br_number ` set (db_blocks (w_db w)) \<union> (Number \<circ> task_Block) ` set batch"
    using assms(1,2) d' by (auto simp: flush_def)
  show "checkpoint_current (flush True batch w)" if "sorted (map task_Height batch)" "checkpoint_current w"
    using assms(1,2) d'(1) ck that max_height_last [of batch]
    by (cases "batch = []") (auto simp: flush_def checkpoint_current_def)
qed

definition written_stored :: "AsyncWriter \<Rightarrow> bool" where
  "written_stored w \<longleftrightarrow> (Number \<circ> task_Block) ` set (w_written w) \<subseteq> br_number ` set (db_blocks (w_db w))"

text \<open>One step of a healthy writer moves tasks along the pipeline and loses none.\<close>

definition healthy_step :: "AsyncWriter \<Rightarrow> AsyncWriter \<Rightarrow> bool" where
  "healthy_step w w' \<longleftrightarrow> writer_ok w' \<and> pipeline_of w' = pipeline_of w \<and> (written_stored w \<longrightarrow> written_stored w')
     \<and> w_chainID w' = w_chainID w
     \<and> (sorted (map task_Height (pipeline_of w)) \<and> checkpoint_current w \<longrightarrow> checkpoint_current w')
     \<and> length (items (w_taskChan w')) \<le> length (items (w_taskChan w))"

lemma healthy_trans: "healthy_step w w1 \<Longrightarrow> healthy_step w1 w2 \<Longrightarrow> healthy_step w w2"
  by (auto simp: healthy_step_def)

lemma flush_batch_healthy:
  assumes "writer_ok w"
  shows "healthy_step w ((flush True (w_batch w) w)\<lparr>w_batch := []\<rparr>)"
proof -
  have "\<not> w_ephemeralMode w" "\<not> w_cancelled w" "\<forall>t \<in> set (w_batch w). task_ok t"
    using assms by (auto simp: writer_ok_def)
  note f = flush_ok [OF this]
  show ?thesis using f assms
    by (auto simp: healthy_step_def writer_ok_def pipeline_of_def written_stored_def sorted_append)
qed

lemma emergencyDrain_healthy:
  assumes "writer_ok w" and "w_batch w = []"
  shows "healthy_step w (emergencyDrain True w) \<and> w_batch (emergencyDrain True w) = []"
proof (cases "w_emergencyDrainCooldown w")
  case True
  then show ?thesis using assms by (simp add: emergencyDrain_def healthy_step_def)
next
  case False
  let ?c = "w_taskChan w"
  let ?n = "chan_len ?c - capacity ?c * 50 div 100"
  define u where "u = w\<lparr>w_emergencyDrainCooldown := True, w_taskChan := ?c\<lparr>items := drop ?n (items ?c)\<rparr>,
      w_cmds := w_cmds w @ [(CmdSetSystemState, DSystemState SystemStateDegraded)]\<rparr>"
  have u: "\<not> w_ephemeralMode u" "\<not> w_cancelled u" "\<forall>t \<in> set (take ?n (items ?c)). task_ok t"
    using assms by (auto simp: u_def writer_ok_def dest: in_set_takeD)
  note f = flush_ok [OF u]
  have "emergencyDrain True w = (flush True (take ?n (items ?c)) u)
      \<lparr>w_cmds := w_cmds (flush True (take ?n (items ?c)) u) @ [(CmdSetSystemState, DSystemState SystemStateRunning)]\<rparr>"
    using False by (simp add: emergencyDrain_def Let_def u_def)
  with f assms show ?thesis
    by (auto simp: healthy_step_def writer_ok_def pipeline_of_def written_stored_def u_def sorted_append take_map [symmetric]
        dest: in_set_dropD intro: sorted_wrt_take)
qed

lemma on_task_healthy:
  assumes "writer_ok w"
  shows "healthy_step w (on_task True w)
    \<and> (items (w_taskChan w) \<noteq> [] \<longrightarrow> length (items (w_taskChan (on_task True w))) < length (items (w_taskChan w)))"
proof (cases "items (w_taskChan w)")
  case Nil
  then show ?thesis using assms by (simp add: on_task_def healthy_step_def)
next
  case (Cons t ts)
  define u where "u = w\<lparr>w_taskChan := (w_taskChan w)\<lparr>items := ts\<rparr>, w_batch := w_batch w @ [t]\<rparr>"
  have u: "writer_ok u" "pipeline_of u = pipeline_of w" "written_stored u = written_stored w" "items (w_taskChan u) = ts"
      "w_chainID u = w_chainID w" "checkpoint_current u = checkpoint_current w"
    using assms Cons by (auto simp: u_def writer_ok_def pipeline_of_def written_stored_def)
  let ?v = "(flush True (w_batch u) u)\<lparr>w_batch := []\<rparr>"
  have v: "healthy_step u ?v" using u(1) by (rule flush_batch_healthy)
  then have d: "healthy_step u (emergencyDrain True ?v)"
    using emergencyDrain_healthy [of ?v] healthy_trans by (simp add: healthy_step_def)
  have "on_task True w = (if length ts > capacity (w_taskChan w) * 75 div 100 then emergencyDrain True ?v
      else if length (w_batch u) \<ge> w_batchSize w then ?v else u)"
    unfolding on_task_def u_def using Cons by (simp only: list.case Let_def)
  then have "healthy_step u (on_task True w)"
    using v d u(1) by (simp add: healthy_step_def)
  with u Cons show ?thesis by (auto simp: healthy_step_def)
qed

lemma step_healthy:
  assumes "writer_ok w" and "e \<noteq> WDone"
  shows "healthy_step w (writer_step e True w)"
proof (cases e)
  case WTick
  then show ?thesis using assms flush_batch_healthy [OF assms(1)] by (simp add: healthy_step_def)
next
  case WCooldown
  then show ?thesis using assms by (simp add: healthy_step_def writer_ok_def pipeline_of_def written_stored_def)
qed (use assms on_task_healthy in auto)

lemma run_healthy:
  "writer_ok w \<Longrightarrow> \<forall>(e, up) \<in> set es. e \<noteq> WDone \<and> up \<Longrightarrow> healthy_step w (writer_run es w)"
proof (induction es arbitrary: w)
  case (Cons x es)
  obtain e up where x: "x = (e, up)" by fastforce
  then have e: "e \<noteq> WDone" "up" using Cons.prems(2) by auto
  have "healthy_step w (writer_step e True w)" using step_healthy [OF Cons.prems(1) e(1)] .
  moreover have "healthy_step (writer_step e True w) (writer_run es (writer_step e True w))"
    using calculation Cons.prems(2) by (intro Cons.IH) (auto simp: healthy_step_def)
  ultimately show ?case using x e healthy_trans by simp
qed (simp add: healthy_step_def)

lemma run_append:
  "\<forall>(e, up) \<in> set es. e \<noteq> WDone \<Longrightarrow> writer_run (es @ es') w = writer_run es' (writer_run es w)"
  by (induction es arbitrary: w) auto

lemma drain_queue:
  "writer_ok w \<Longrightarrow> length (items (w_taskChan w)) \<le> n \<Longrightarrow>
     healthy_step w (writer_run (replicate n (WTask, True)) w) \<and> items (w_taskChan (writer_run (replicate n (WTask, True)) w)) = []"
proof (induction n arbitrary: w)
  case 0
  then show ?case by (simp add: healthy_step_def)
next
  case (Suc n)
  let ?v = "on_task True w"
  have v: "healthy_step w ?v" "items (w_taskChan w) \<noteq> [] \<longrightarrow> length (items (w_taskChan ?v)) < length (items (w_taskChan w))"
    using on_task_healthy [OF Suc.prems(1)] by auto
  have "length (items (w_taskChan ?v)) \<le> n"
    using v Suc.prems(2) by (cases "items (w_taskChan w) = []") (auto simp: healthy_step_def)
  with Suc.IH [of ?v] v(1) healthy_trans show ?case by (auto simp: healthy_step_def)
qed

subsection \<open>Properties\<close>

text \<open>
  (C8) The writer is a lossless FIFO while the database is up: after any interleaving of task,
  tick and cooldown events (emergency drains included), enough further task events and a tick
  commit every task handed over so far, in the order of the queue and once each, and the
  block of every task is stored.
\<close>

theorem writer_persists_in_order:
  assumes "writer_ok w" and "written_stored w" and "\<forall>(e, up) \<in> set es. e \<noteq> WDone \<and> up"
    and "length (items (w_taskChan w)) \<le> n"
  defines "w' \<equiv> writer_run (es @ replicate n (WTask, True) @ [(WTick, True)]) w"
  shows "w_written w' = pipeline_of w
    \<and> (\<forall>t \<in> set (pipeline_of w). Number (task_Block t) \<in> br_number ` set (db_blocks (w_db w')))"
proof -
  define u where "u = writer_run es w"
  define v where "v = writer_run (replicate n (WTask, True)) u"
  have u: "healthy_step w u" unfolding u_def by (rule run_healthy [OF assms(1,3)])
  then have "writer_ok u" "length (items (w_taskChan u)) \<le> n" using assms(4) by (auto simp: healthy_step_def)
  then have v: "healthy_step u v" "items (w_taskChan v) = []" unfolding v_def using drain_queue by blast+
  have w': "w' = writer_step WTick True v"
    unfolding w'_def u_def v_def using assms(3) by (auto simp: run_append split_beta)
  have "healthy_step v w'" unfolding w' using v(1) by (intro step_healthy) (simp_all add: healthy_step_def)
  with u v healthy_trans have h: "healthy_step w w'" by blast
  have "w_batch w' = []" "items (w_taskChan w') = []"
    using v(2) \<open>healthy_step v w'\<close> by (auto simp: w' healthy_step_def)
  then have "w_written w' = pipeline_of w" using h by (simp add: healthy_step_def pipeline_of_def)
  with h assms(2) show ?thesis by (auto simp: healthy_step_def written_stored_def image_subset_iff)
qed

definition sample_task :: "int \<Rightarrow> PersistTask" where
  "sample_task n = \<lparr>task_Height = num_u64 n, task_Block = sample_model_block n, task_Transfers = [], task_Sequence = 0\<rparr>"

definition sample_writer :: "PersistTask list \<Rightarrow> PersistTask list \<Rightarrow> AsyncWriter" where
  "sample_writer batch q =
     (NewAsyncWriter empty_db False 1 0)\<lparr>w_batch := batch, w_taskChan := \<lparr>items = q, capacity = 4\<rparr>\<rparr>"

theorem writer_persists_in_order_witness:
  "w_written (writer_run ([(WCooldown, True)] @ replicate 2 (WTask, True) @ [(WTick, True)])
      (sample_writer [sample_task 5] [sample_task 6, sample_task 7])) = map sample_task [5, 6, 7]"
proof -
  let ?w = "sample_writer [sample_task 5] [sample_task 6, sample_task 7]"
  have "writer_ok ?w" "written_stored ?w"
    by (simp_all add: writer_ok_def written_stored_def sample_writer_def NewAsyncWriter_def sample_task_def task_ok_def)
  with writer_persists_in_order [of ?w "[(WCooldown, True)]" 2] show ?thesis
    by (simp add: sample_writer_def pipeline_of_def NewAsyncWriter_def)
qed



text \<open>
  Shutting down loses the tasks that are not written yet: the final flush of the run loop
  runs on the context that \<open>Shutdown\<close> has just cancelled, so its transaction cannot begin; the
  collected batch is dropped and the queue is never read again.
\<close>

lemma shutdown_drops_pending_tasks:
  assumes "\<not> w_ephemeralMode w"
  shows "let w' = writer_run ((WDone, up) # es) (Shutdown w)
    in w_db w' = w_db w \<and> w_written w' = w_written w \<and> w_batch w' = [] \<and> w_taskChan w' = w_taskChan w"
  using assms by (simp add: Shutdown_def flush_def)

text \<open>
  A flush that fails loses its batch: when the transaction of a tick does not go through, the
  batch is emptied all the same, nothing is written, no error is reported and nothing is
  announced, so the tasks are gone.
\<close>

lemma failed_flush_drops_batch:
  assumes "\<not> w_ephemeralMode w"
  shows "writer_step WTick False w = w\<lparr>w_batch := []\<rparr>"
  using assms by (simp add: flush_def)

definition plain_rows :: "db \<Rightarrow> bool" where
  "plain_rows d \<longleftrightarrow> (\<forall>r \<in> set (db_transfers d). tr_activity_type r = ''TRANSFER'')"

lemma insert_rows_plain:
  "insert_transfer_rows rs d = Inr d' \<Longrightarrow> \<forall>r \<in> set rs. tr_activity_type r = ''TRANSFER'' \<Longrightarrow> plain_rows d \<Longrightarrow> plain_rows d'"
proof (induction rs arbitrary: d)
  case (Cons r rs)
  from Cons.prems(1) obtain d1 where d1: "insert_transfer r d = Inr d1" "insert_transfer_rows rs d1 = Inr d'"
    by (auto split: sum.splits)
  have "plain_rows d1"
    using d1(1) Cons.prems(2,3) by (auto simp: insert_transfer_def plain_rows_def split: if_splits)
  with Cons.IH [OF d1(2)] Cons.prems(2) show ?case by simp
qed simp

lemma insert_blocks_transfers: "db_transfers (InsertBlocksBatchTx bs d) = db_transfers d"
proof -
  have "db_transfers (fold (\<lambda>b. insert_block (block_row b)) bs d) = db_transfers d"
    by (induction bs arbitrary: d) (auto simp: insert_block_def)
  then show ?thesis by (simp add: InsertBlocksBatchTx_def fallbackInsertBlocks_def)
qed

lemma flush_plain: "plain_rows (w_db w) \<Longrightarrow> plain_rows (w_db (flush up batch w))"
proof -
  assume p: "plain_rows (w_db w)"
  have "plain_rows d'" if "write_tx w batch (w_db w) = Inr d'" for d'
    using that p insert_rows_plain [of "map transfer_row (concat (map task_Transfers batch))"]
    by (auto simp: write_tx_def InsertTransfersBatchTx_def fallbackInsertTransfers_def updateCheckpointsTx_def Let_def
        upsert_status_def upsert_checkpoint_def plain_rows_def insert_blocks_transfers transfer_row_def
        split: sum.splits if_splits)
  with p show ?thesis by (auto simp: flush_def handleEphemeralFlush_def split: sum.splits)
qed

lemma emergencyDrain_plain: "plain_rows (w_db w) \<Longrightarrow> plain_rows (w_db (emergencyDrain up w))"
  by (simp add: emergencyDrain_def Let_def flush_plain)

lemma writer_step_plain:
  assumes "plain_rows (w_db w)"
  shows "plain_rows (w_db (writer_step e up w))"
proof (cases e)
  case WTask
  with assms show ?thesis
    by (cases "items (w_taskChan w)") (simp_all add: on_task_def Let_def emergencyDrain_plain flush_plain)
qed (use assms in \<open>simp_all add: flush_plain\<close>)

text \<open>
  The writer loses the activity type: the bulk insert has no column for it, so every row
  it stores carries the default \<open>TRANSFER\<close>, whatever activity the processor recognised.
\<close>

lemma activity_type_not_stored:
  assumes "\<forall>r \<in> set (db_transfers (w_db w)). tr_activity_type r = ''TRANSFER''"
  shows "\<forall>r \<in> set (db_transfers (w_db (writer_run es w))). tr_activity_type r = ''TRANSFER''"
proof -
  have "plain_rows (w_db w) \<Longrightarrow> plain_rows (w_db (writer_run es w))"
    by (induction es w rule: writer_run.induct) (auto intro: writer_step_plain simp del: writer_step.simps)
  with assms show ?thesis by (simp add: plain_rows_def)
qed

end
