(* ===== verification/Orchestrator_Props.thy ===== *)
theory Orchestrator_Props
  imports Orchestrator
begin

section \<open>What the coordinator promises\<close>

text \<open>
  The contract of the monotone watermarks (\<open>SyncedCursor\<close>, \<open>FetchedHeight\<close>) as a locale with
  its two interpretations, the step relation of the actor loop and the administrative calls,
  its invariant over all reachable states, and the adaptive safety buffer.
\<close>

subsection \<open>Monotone watermarks\<close>

locale watermark =
  fixes level :: "'s \<Rightarrow> 'w :: linorder"
    and raise_to :: "'w \<Rightarrow> 's \<Rightarrow> 's"
  assumes raise_level: "level (raise_to h s) = max (level s) h"
begin

lemma level_mono: "level s \<le> level (raise_to h s)"
  by (simp add: raise_level)

lemma level_fold: "level (fold raise_to hs s) = fold max hs (level s)"
  by (induction hs arbitrary: s) (simp_all add: raise_level max.commute)

lemma level_fold_Max: "level (fold raise_to hs s) = Max (insert (level s) (set hs))"
  by (simp add: level_fold flip: Max.set_eq_fold)

lemma level_fold_order: "mset hs = mset hs' \<Longrightarrow> level (fold raise_to hs s) = level (fold raise_to hs' s)"
  by (metis level_fold_Max mset_eq_setD)

end

definition plain_msg :: "MsgType \<Rightarrow> MsgData \<Rightarrow> Message" where
  "plain_msg t d = \<lparr>msg_Type = t, msg_Data = d, msg_Reply = False, msg_Sequence = 0\<rparr>"

abbreviation deliver :: "time \<Rightarrow> MsgType \<Rightarrow> MsgData \<Rightarrow> Orchestrator \<Rightarrow> Orchestrator" where
  "deliver now t d o' \<equiv> fst (process now (plain_msg t d) o')"

lemmas handler_defs =
  handleUpdateChainHeight_def handleFetchFailed_def handleFetchSuccess_def handleNotifyFetch_def
  handleLogEvent_def handleCommitBatch_def handleCommitDisk_def handleResetCursor_def
  handleIncrementTransfers_def handleToggleEcoMode_def handleSetSystemState_def

lemma snapshot_fields [frames, simp]:
  "SyncedCursor (ostate (updateProgressAndSnapshot now o')) = SyncedCursor (ostate o')"
  "FetchedHeight (ostate (updateProgressAndSnapshot now o')) = FetchedHeight (ostate o')"
  "LatestHeight (ostate (updateProgressAndSnapshot now o')) = LatestHeight (ostate o')"
  "TargetHeight (ostate (updateProgressAndSnapshot now o')) = TargetHeight (ostate o')"
  "SafetyBuffer (ostate (updateProgressAndSnapshot now o')) = SafetyBuffer (ostate o')"
  "SuccessCount (ostate (updateProgressAndSnapshot now o')) = SuccessCount (ostate o')"
  "pendingHeightUpdate (updateProgressAndSnapshot now o') = pendingHeightUpdate o'"
  "cmdChan (updateProgressAndSnapshot now o') = cmdChan o'"
  "snapshot (updateProgressAndSnapshot now o') = ostate (updateProgressAndSnapshot now o')"
  by (simp_all add: updateProgressAndSnapshot_def Let_def split: prod.splits)

lemma saturating_target: "uint (if h > b then h - b else 0 :: u64) = max 0 (uint h - uint b)"
proof (cases "h > b")
  case True
  then have "0 < uint h - uint b" by (simp add: word_less_def)
  with True show ?thesis by (simp add: uint_diff_le)
next
  case False
  then have "uint h - uint b \<le> 0" by (simp add: word_less_def)
  with False show ?thesis by simp
qed

lemma deliver_CommitDisk:
  "SyncedCursor (ostate (deliver now CmdCommitDisk (DUint64 h) o')) = max (SyncedCursor (ostate o')) h"
  by (auto simp: process_def handle_msg_def plain_msg_def handleCommitDisk_def)

lemma deliver_NotifyFetched:
  "FetchedHeight (ostate (deliver now CmdNotifyFetched (DUint64 h) o')) = max (FetchedHeight (ostate o')) h"
  by (auto simp: process_def handle_msg_def plain_msg_def handleNotifyFetch_def)

interpretation disk_cursor: watermark "\<lambda>o'. SyncedCursor (ostate o')" "\<lambda>h. deliver now CmdCommitDisk (DUint64 h)" for now
  by unfold_locales (rule deliver_CommitDisk)

interpretation fetch_cursor: watermark "\<lambda>o'. FetchedHeight (ostate o')" "\<lambda>h. deliver now CmdNotifyFetched (DUint64 h)" for now
  by unfold_locales (rule deliver_NotifyFetched)

subsection \<open>Steps of the actor and of the administrative callers\<close>

inductive orch_step :: "Orchestrator \<times> GlobalState \<Rightarrow> Orchestrator \<times> GlobalState \<Rightarrow> bool" where
  receive: "items (cmdChan o') = m # ms \<Longrightarrow>
     orch_step (o', gs) (fst (process now m (o'\<lparr>cmdChan := (cmdChan o')\<lparr>items := ms\<rparr>\<rparr>)), gs)"
| decide: "evaluateSystemState now (evaluateEcoMode now o', gs) = Some og \<Longrightarrow> orch_step (o', gs) og"
| merge: "orch_step (o', gs) (flushPendingHeightUpdate o', gs)"
| send: "orch_step (o', gs) (fst (Dispatch pd t d o'), gs)"
| snap_to_reality: "orch_step (o', gs) (SnapToReality h o', gs)"
| force_cursors: "orch_step (o', gs) (ForceSetCursors h o', gs)"
| reset_to_zero: "orch_step (o', gs) (ResetToZero o', gs)"
| load_initial: "orch_step (o', gs) (LoadInitialState c m o', gs)"
| heal: "orch_step (o', gs) (auditAndHeal o', gs)"
| subscribe: "orch_step (o', gs) (Subscribe o', gs)"
| broadcast: "orch_step (o', gs) (broadcastSnapshot s o', gs)"
| link_writer: "orch_step (o', gs) (SetAsyncWriter w o', gs)"

inductive orch_reach :: "Orchestrator \<times> GlobalState \<Rightarrow> bool" where
  start: "orch_reach (newOrchestrator now, initGlobalState now)"
| step: "orch_reach og \<Longrightarrow> orch_step og og' \<Longrightarrow> orch_reach og'"

definition state_ok :: "CoordinatorState \<Rightarrow> bool" where
  "state_ok s \<longleftrightarrow> 1 \<le> SafetyBuffer s \<and> SafetyBuffer s \<le> 20
     \<and> (SafetyBuffer s > 1 \<longrightarrow> SuccessCount s < 50)"

definition progress_ok :: "CoordinatorState \<Rightarrow> bool" where
  "progress_ok s \<longleftrightarrow> 0 \<le> Progress s \<and> Progress s \<le> 100"

definition orch_inv :: "Orchestrator \<times> GlobalState \<Rightarrow> bool" where
  "orch_inv og \<longleftrightarrow> state_ok (ostate (fst og)) \<and> progress_ok (ostate (fst og))
     \<and> progress_ok (snapshot (fst og)) \<and> chan_wf (cmdChan (fst og))
     \<and> chan_wf (broadcastCh (fst og)) \<and> mu (snd og) = Unlocked"

lemma word_incr_bound: "(b :: u64) < 20 \<Longrightarrow> 1 \<le> b \<Longrightarrow> 1 \<le> b + 1 \<and> b + 1 \<le> 20"
  by (simp add: word_le_nat_alt word_less_nat_alt unat_word_ariths)

lemma word_decr_bound: "(b :: u64) \<le> 20 \<Longrightarrow> 1 < b \<Longrightarrow> 1 \<le> b - 1 \<and> b - 1 \<le> 20"
  by (auto simp: word_le_nat_alt word_less_nat_alt unat_sub_if')

lemma state_ok_failed: "state_ok (ostate o') \<Longrightarrow> state_ok (ostate (handleFetchFailed d o'))"
  using word_incr_bound [of "SafetyBuffer (ostate o')"]
  by (auto simp: state_ok_def handleFetchFailed_def split: MsgData.splits)

lemma state_ok_success: "state_ok (ostate o') \<Longrightarrow> state_ok (ostate (handleFetchSuccess o'))"
  using word_decr_bound [of "SafetyBuffer (ostate o')"]
  by (auto simp: state_ok_def handleFetchSuccess_def Let_def)

lemma handle_msg_state_ok: "state_ok (ostate o') \<Longrightarrow> state_ok (ostate (handle_msg now m o'))"
proof (cases "msg_Type m")
  case CmdFetchFailed
  then show "state_ok (ostate o') \<Longrightarrow> ?thesis" by (simp add: handle_msg_def state_ok_failed)
next
  case CmdFetchSuccess
  then show "state_ok (ostate o') \<Longrightarrow> ?thesis" by (simp add: handle_msg_def state_ok_success)
qed (auto simp: handle_msg_def handler_defs state_ok_def split: MsgData.splits option.splits)

lemma handle_msg_frame [frames, simp]:
  "Progress (ostate (handle_msg now m o')) = Progress (ostate o')"
  "cmdChan (handle_msg now m o') = cmdChan o'"
  "broadcastCh (handle_msg now m o') = broadcastCh o'"
  by (auto simp: handle_msg_def handler_defs Let_def split: MsgType.splits MsgData.splits option.splits)

lemma ratio_nonneg: "0 \<le> rat_of_int (uint (a :: u64)) / rat_of_int (uint (b :: u64)) * 100"
  by (intro mult_nonneg_nonneg divide_nonneg_nonneg) (simp_all del: of_int_uint)

lemma progress_ok_update: "progress_ok (ostate o') \<Longrightarrow> progress_ok (ostate (updateProgressAndSnapshot now o'))"
  using ratio_nonneg [of "SyncedCursor (ostate o')" "LatestHeight (ostate o')"]
  by (simp add: progress_ok_def updateProgressAndSnapshot_def Let_def split: prod.splits)

lemma chan_wf_update: "chan_wf (broadcastCh o') \<Longrightarrow> chan_wf (broadcastCh (updateProgressAndSnapshot now o'))"
  by (simp add: updateProgressAndSnapshot_def Let_def chan_try_send_wf split: prod.splits)
    (metis chan_try_send_wf fst_conv)

lemma process_inv:
  assumes "orch_inv (o', gs)"
  shows "orch_inv (fst (process now m o'), gs)"
  using assms handle_msg_state_ok [of o' now m] progress_ok_update [of "handle_msg now m o'" now]
    chan_wf_update [of "handle_msg now m o'" now]
  by (simp add: orch_inv_def process_def state_ok_def progress_ok_def)

lemma evaluateEcoMode_inv: "orch_inv (o', gs) \<Longrightarrow> orch_inv (evaluateEcoMode now o', gs)"
  by (simp add: orch_inv_def evaluateEcoMode_def Let_def state_ok_def progress_ok_def)

lemma evaluateSystemState_total:
  "mu gs = Unlocked \<Longrightarrow> \<exists>og. evaluateSystemState now (o', gs) = Some og"
  by (simp add: evaluateSystemState_def UpdatePipelineDepth_unlocked GlobalState_Snapshot_def
      Let_def split: prod.splits option.splits)

lemma evaluateSystemState_inv:
  assumes "orch_inv (o', gs)" and "evaluateSystemState now (o', gs) = Some og"
  shows "orch_inv og"
  using assms
  by (auto simp: orch_inv_def evaluateSystemState_def UpdatePipelineDepth_unlocked
      GlobalState_Snapshot_def Let_def state_ok_def progress_ok_def
      split: prod.splits option.splits if_splits)

lemma orch_step_inv: "orch_step og og' \<Longrightarrow> orch_inv og \<Longrightarrow> orch_inv og'"
proof (induction rule: orch_step.induct)
  case (receive o' m ms gs now)
  then have "orch_inv (o'\<lparr>cmdChan := (cmdChan o')\<lparr>items := ms\<rparr>\<rparr>, gs)"
    by (simp add: orch_inv_def chan_wf_def chan_len_def)
  then show ?case by (rule process_inv)
next
  case (decide now o' gs og)
  then show ?case using evaluateSystemState_inv [OF evaluateEcoMode_inv] by blast
next
  case (send o' gs pd t d)
  then show ?case by (simp add: orch_inv_def Dispatch_def Let_def chan_try_send_wf)
next
  case (load_initial o' gs c m)
  then show ?case
    by (auto simp: orch_inv_def LoadInitialState_def Let_def state_ok_def progress_ok_def
        split: option.splits)
qed (simp_all add: orch_inv_def state_ok_def progress_ok_def flushPendingHeightUpdate_def
      SnapToReality_def ForceSetCursors_def ResetToZero_def clear_fetcher_def set_cursors_def
      auditAndHeal_def Subscribe_def broadcastSnapshot_def SetAsyncWriter_def Let_def
      split: option.splits)

lemma orch_reach_inv: "orch_reach og \<Longrightarrow> orch_inv og"
proof (induction rule: orch_reach.induct)
  case (start now)
  show ?case
    by (simp add: orch_inv_def newOrchestrator_def fresh_state_def zero_state_def initGlobalState_def
        state_ok_def progress_ok_def chan_wf_def chan_make_def chan_len_def)
next
  case (step og og')
  then show ?case by (blast intro: orch_step_inv)
qed

subsection \<open>The adaptive safety buffer\<close>

text \<open>Success messages still needed until the buffer is back at one block.\<close>

definition successes_needed :: "CoordinatorState \<Rightarrow> nat" where
  "successes_needed s = 50 * (unat (SafetyBuffer s) - 1) - (if SafetyBuffer s > 1 then unat (SuccessCount s) else 0)"

lemma deliver_success:
  "ostate (deliver now CmdFetchSuccess DNil o') =
     ostate (updateProgressAndSnapshot now (handleFetchSuccess o'))"
  by (simp add: process_def handle_msg_def plain_msg_def)

lemma state_ok_deliver: "state_ok (ostate o') \<Longrightarrow> state_ok (ostate (deliver now CmdFetchSuccess DNil o'))"
  using state_ok_success [of o'] by (simp add: deliver_success state_ok_def)

lemma successes_needed_step:
  assumes "state_ok (ostate o')"
  shows "successes_needed (ostate (deliver now CmdFetchSuccess DNil o')) \<le> successes_needed (ostate o') - 1"
proof (cases "SafetyBuffer (ostate o') > 1")
  case True
  let ?b = "unat (SafetyBuffer (ostate o'))" and ?c = "unat (SuccessCount (ostate o'))"
  have b: "1 < ?b" using True by (simp add: word_less_nat_alt)
  have c: "?c < 50" using assms True by (simp add: state_ok_def word_less_nat_alt)
  then have c1: "unat (SuccessCount (ostate o') + 1) = ?c + 1"
    by (simp add: unat_word_ariths)
  have b1: "unat (SafetyBuffer (ostate o') - 1) = ?b - 1"
    using b by (simp add: unat_sub_if')
  show ?thesis
  proof (cases "50 \<le> ?c + 1")
    case True2: True
    then have "50 \<le> SuccessCount (ostate o') + 1" by (simp add: word_le_nat_alt c1)
    with True b b1 c True2 show ?thesis
      by (simp add: deliver_success handleFetchSuccess_def successes_needed_def Let_def)
  next
    case False
    then have "\<not> 50 \<le> SuccessCount (ostate o') + 1" by (simp add: word_le_nat_alt c1)
    with True b c1 c show ?thesis
      by (simp add: deliver_success handleFetchSuccess_def successes_needed_def Let_def)
  qed
next
  case False
  with assms have "SafetyBuffer (ostate o') = 1" by (simp add: state_ok_def)
  then show ?thesis
    by (simp add: deliver_success handleFetchSuccess_def successes_needed_def Let_def)
qed

lemma successes_needed_run:
  assumes "state_ok (ostate o')"
  shows "state_ok (ostate (((deliver now CmdFetchSuccess DNil) ^^ n) o'))
    \<and> successes_needed (ostate (((deliver now CmdFetchSuccess DNil) ^^ n) o')) \<le> successes_needed (ostate o') - n"
proof (induction n)
  case (Suc n)
  then show ?case
    using state_ok_deliver successes_needed_step by (fastforce intro: order.trans)
qed (use assms in simp)

lemma successes_needed_zero: "state_ok s \<Longrightarrow> successes_needed s = 0 \<Longrightarrow> SafetyBuffer s = 1"
proof -
  assume ok: "state_ok s" and z: "successes_needed s = 0"
  have "\<not> SafetyBuffer s > 1"
  proof
    assume gt: "SafetyBuffer s > 1"
    with ok have "unat (SuccessCount s) < 50" "1 < unat (SafetyBuffer s)"
      by (simp_all add: state_ok_def word_less_nat_alt)
    with gt z show False by (simp add: successes_needed_def)
  qed
  with ok show "SafetyBuffer s = 1" by (simp add: state_ok_def)
qed

subsection \<open>Properties\<close>



text \<open>(C14) Disk-commit notices may arrive in any order: after any sequence of them the synced
  cursor is the largest height reported so far, and two orders of the same notices agree.\<close>

theorem commit_notices_commute:
  assumes "mset hs = mset hs'"
  shows "SyncedCursor (ostate (fold (\<lambda>h. deliver now CmdCommitDisk (DUint64 h)) hs o'))
      = Max (insert (SyncedCursor (ostate o')) (set hs))
    \<and> SyncedCursor (ostate (fold (\<lambda>h. deliver now CmdCommitDisk (DUint64 h)) hs' o'))
      = SyncedCursor (ostate (fold (\<lambda>h. deliver now CmdCommitDisk (DUint64 h)) hs o'))"
  using disk_cursor.level_fold_Max [of now hs o'] disk_cursor.level_fold_order [OF assms, of now o'] by simp

theorem commit_notices_commute_witness:
  "SyncedCursor (ostate (fold (\<lambda>h. deliver 0 CmdCommitDisk (DUint64 h)) [7, 9, 8] (newOrchestrator 0))) = 9"
  using commit_notices_commute [of "[7, 9, 8]" "[7, 9, 8]" 0 "newOrchestrator 0"]
  by (simp add: newOrchestrator_def fresh_state_def)

text \<open>Once fetches succeed again, fifty success notices per extra block bring the safety
  buffer back to one block, from any state whose buffer is within its bounds.\<close>

lemma safety_buffer_recovers:
  assumes "orch_reach (o', gs)" and "n \<ge> 50 * (unat (SafetyBuffer (ostate o')) - 1)"
  shows "SafetyBuffer (ostate (((deliver now CmdFetchSuccess DNil) ^^ n) o')) = 1"
proof -
  have ok: "state_ok (ostate o')" using orch_reach_inv [OF assms(1)] by (simp add: orch_inv_def)
  have "successes_needed (ostate o') \<le> n" using assms(2) by (simp add: successes_needed_def)
  with successes_needed_run [OF ok, where now = now and n = n] show ?thesis
    using successes_needed_zero by simp
qed

text \<open>(C17) A chain-height notice above the known height sets the target to that height less the
  safety buffer, never below zero and never wrapping, and publishes nothing until the merge
  tick, which then raises the latest height to it; no command and no merge lowers the latest
  height, and only a cursor reset lowers the synced cursor.\<close>

theorem chain_height_update:
  "LatestHeight (ostate (fst (process now m o'))) = LatestHeight (ostate o')
    \<and> LatestHeight (ostate o') \<le> LatestHeight (ostate (flushPendingHeightUpdate o'))
    \<and> (msg_Type m \<noteq> CmdResetCursor \<longrightarrow>
         SyncedCursor (ostate o') \<le> SyncedCursor (ostate (fst (process now m o'))))
    \<and> (m = plain_msg CmdUpdateChainHeight (DUint64 h) \<and> h > LatestHeight (ostate o') \<longrightarrow>
         uint (TargetHeight (ostate (fst (process now m o')))) = max 0 (uint h - uint (SafetyBuffer (ostate o')))
         \<and> LatestHeight (ostate (flushPendingHeightUpdate (fst (process now m o')))) = h)"
proof (intro conjI impI)
  show "LatestHeight (ostate (fst (process now m o'))) = LatestHeight (ostate o')"
    by (auto simp: process_def handle_msg_def handler_defs Let_def
        split: MsgType.splits MsgData.splits option.splits)
  show "LatestHeight (ostate o') \<le> LatestHeight (ostate (flushPendingHeightUpdate o'))"
    by (auto simp: flushPendingHeightUpdate_def split: option.splits)
  show "SyncedCursor (ostate o') \<le> SyncedCursor (ostate (fst (process now m o')))"
    if "msg_Type m \<noteq> CmdResetCursor"
    using that by (auto simp: process_def handle_msg_def handler_defs Let_def
        split: MsgType.splits MsgData.splits option.splits)
  assume a: "m = plain_msg CmdUpdateChainHeight (DUint64 h) \<and> h > LatestHeight (ostate o')"
  then show "uint (TargetHeight (ostate (fst (process now m o')))) = max 0 (uint h - uint (SafetyBuffer (ostate o')))"
    using saturating_target [of "SafetyBuffer (ostate o')" h]
    by (simp add: process_def handle_msg_def plain_msg_def handleUpdateChainHeight_def
        split: if_splits)
  from a show "LatestHeight (ostate (flushPendingHeightUpdate (fst (process now m o')))) = h"
    by (simp add: process_def handle_msg_def plain_msg_def handleUpdateChainHeight_def
        flushPendingHeightUpdate_def)
qed

theorem chain_height_update_witness:
  "uint (TargetHeight (ostate (fst (process 0 (plain_msg CmdUpdateChainHeight (DUint64 100)) (newOrchestrator 0))))) = 99"
  using chain_height_update [of 0 "plain_msg CmdUpdateChainHeight (DUint64 100)" "newOrchestrator 0" 100]
  by (simp add: newOrchestrator_def fresh_state_def)

text \<open>The throttling test compares the result backlog with the current total backlog, not
  with a capacity: with an empty job queue any waiting result, even a single one, puts the
  system into the throttled state.\<close>

lemma throttled_by_any_result:
  assumes "mu gs = Unlocked" and "fetcher o' = Some (ch, r)" and "items ch = []"
    and "0 < r" and "r < 20000000"
  shows "\<exists>o1 gs1. evaluateSystemState now (o', gs) = Some (o1, gs1)
    \<and> SystemState (ostate o1) = SystemStateThrottled"
proof -
  have "tdiv (wrap_i32 (int r * 80)) 100 < int r"
    using assms(4,5) by (simp add: wrap_i32_id tdiv_nonneg)
  with assms show ?thesis
    by (simp add: evaluateSystemState_def Let_def UpdatePipelineDepth_unlocked
        GlobalState_Snapshot_def read_snapshot_def chan_len_def depth_i32_def wrap_i32_id)
qed

end
