(* ===== verification/Commit_Path.thy ===== *)
theory Commit_Path
  imports Pipeline Async_Writer Orchestrator_Props
begin

section \<open>From the processor to the disk and back\<close>

text \<open>
  The processor, the coordinator and the writer together: commit tasks go through the coordinator's
  command channel and the writer's queue into the database, the committed heights come back as
  commands. The three run as goroutines, so their steps interleave in any order.

  \<^item> \<open>todo\<close> are the tasks that the processor has yet to dispatch, in order.
  \<^item> \<open>coord\<close> and \<open>awriter\<close> share the task channel: \<open>asyncWriter\<close> of the one is \<open>w_taskChan\<close> of the other.
\<close>

record commit_path =
  todo :: "PersistTask list"
  coord :: Orchestrator
  awriter :: AsyncWriter

text \<open>
  A step: the processor dispatches its next task, another component dispatches a command, the
  coordinator takes a command from its channel, or the writer acts and dispatches what it announces.
\<close>

datatype path_event =
    HandOver
  | OtherCmd MsgType MsgData
  | Coordinate time
  | Write writer_event

definition dispatch_all :: "(MsgType \<times> MsgData) list \<Rightarrow> Orchestrator \<Rightarrow> Orchestrator" where
  "dispatch_all cs o' = fold (\<lambda>(t, d) q. fst (Dispatch False t d q)) cs o'"

definition new_cmds :: "AsyncWriter \<Rightarrow> AsyncWriter \<Rightarrow> (MsgType \<times> MsgData) list" where
  "new_cmds w w1 = drop (length (w_cmds w)) (w_cmds w1)"

fun path_step :: "path_event \<Rightarrow> commit_path \<Rightarrow> commit_path" where
  "path_step HandOver s =
     (case todo s of
        [] \<Rightarrow> s
      | t # ts \<Rightarrow> s\<lparr>todo := ts, coord := dispatch_all [(CmdCommitBatch, DTask t)] (coord s)\<rparr>)"
| "path_step (OtherCmd t d) s = s\<lparr>coord := dispatch_all [(t, d)] (coord s)\<rparr>"
| "path_step (Coordinate now) s =
     (case items (cmdChan (coord s)) of
        [] \<Rightarrow> s
      | m # ms \<Rightarrow>
          (let o1 = fst (process now m ((coord s)\<lparr>cmdChan := (cmdChan (coord s))\<lparr>items := ms\<rparr>\<rparr>))
           in s\<lparr>coord := o1,
                awriter := (case asyncWriter o1 of None \<Rightarrow> awriter s | Some ch \<Rightarrow> (awriter s)\<lparr>w_taskChan := ch\<rparr>)\<rparr>))"
| "path_step (Write e) s =
     (let w1 = writer_step e True (awriter s)
      in s\<lparr>awriter := w1, coord := dispatch_all (new_cmds (awriter s) w1) ((coord s)\<lparr>asyncWriter := Some (w_taskChan w1)\<rparr>)\<rparr>)"

text \<open>
  A full channel drops what is sent to it. \<open>fits\<close> says that this does not happen in a step, that the
  writer is not shut down, and that no other component commits or resets the cursor.
\<close>

fun fits :: "path_event \<Rightarrow> commit_path \<Rightarrow> bool" where
  "fits HandOver s \<longleftrightarrow> chan_len (cmdChan (coord s)) < capacity (cmdChan (coord s))"
| "fits (OtherCmd t d) s \<longleftrightarrow> t \<notin> {CmdCommitBatch, CmdCommitDisk, CmdResetCursor} \<and> chan_len (cmdChan (coord s)) < capacity (cmdChan (coord s))"
| "fits (Coordinate now) s \<longleftrightarrow> chan_len (w_taskChan (awriter s)) < capacity (w_taskChan (awriter s))"
| "fits (Write e) s \<longleftrightarrow> e \<noteq> WDone
     \<and> chan_len (cmdChan (coord s)) + length (new_cmds (awriter s) (writer_step e True (awriter s))) \<le> capacity (cmdChan (coord s))"

fun path_run :: "path_event list \<Rightarrow> commit_path \<Rightarrow> commit_path" where
  "path_run [] s = s"
| "path_run (e # es) s = path_run es (path_step e s)"

fun fits_run :: "path_event list \<Rightarrow> commit_path \<Rightarrow> bool" where
  "fits_run [] s \<longleftrightarrow> True"
| "fits_run (e # es) s \<longleftrightarrow> fits e s \<and> fits_run es (path_step e s)"

subsection \<open>What the writer announces\<close>

fun disk_height :: "MsgType \<times> MsgData \<Rightarrow> u64 option" where
  "disk_height (CmdCommitDisk, DUint64 h) = Some h"
| "disk_height m = None"

abbreviation disk_heights :: "(MsgType \<times> MsgData) list \<Rightarrow> u64 list" where
  "disk_heights cs \<equiv> List.map_filter disk_height cs"

text \<open>The new commands announce the highest of the newly written tasks and contain no others of weight.\<close>

definition reports :: "AsyncWriter \<Rightarrow> AsyncWriter \<Rightarrow> bool" where
  "reports w w' \<longleftrightarrow> (\<exists>cs ts. w_cmds w' = w_cmds w @ cs \<and> w_written w' = w_written w @ ts
     \<and> fst ` set cs \<subseteq> {CmdCommitDisk, CmdSetSystemState}
     \<and> (\<forall>c. fold max (disk_heights cs) c = fold max (map task_Height ts) c))"

lemma reports_refl: "w_cmds w' = w_cmds w \<Longrightarrow> w_written w' = w_written w \<Longrightarrow> reports w w'"
  unfolding reports_def by (intro exI [of _ "[]"]) (simp add: map_filter_simps)

lemma reports_trans [trans]:
  assumes "reports w w1" and "reports w1 w2"
  shows "reports w w2"
proof -
  from assms(1) obtain cs ts where
    1: "w_cmds w1 = w_cmds w @ cs" "w_written w1 = w_written w @ ts" "fst ` set cs \<subseteq> {CmdCommitDisk, CmdSetSystemState}"
      "\<forall>c. fold max (disk_heights cs) c = fold max (map task_Height ts) c"
    unfolding reports_def by (elim exE conjE)
  from assms(2) obtain cs' ts' where
    2: "w_cmds w2 = w_cmds w1 @ cs'" "w_written w2 = w_written w1 @ ts'" "fst ` set cs' \<subseteq> {CmdCommitDisk, CmdSetSystemState}"
      "\<forall>c. fold max (disk_heights cs') c = fold max (map task_Height ts') c"
    unfolding reports_def by (elim exE conjE)
  have "w_cmds w2 = w_cmds w @ cs @ cs'" "w_written w2 = w_written w @ ts @ ts'" using 1(1,2) 2(1,2) by simp_all
  moreover have "fst ` set (cs @ cs') \<subseteq> {CmdCommitDisk, CmdSetSystemState}" using 1(3) 2(3) by (simp add: image_Un)
  moreover have "fold max (disk_heights (cs @ cs')) c = fold max (map task_Height (ts @ ts')) c" for c
    by (simp add: map_filter_append 1(4) 2(4))
  ultimately show ?thesis unfolding reports_def by blast
qed

lemma fold_max_start: "fold max hs c = max (fold max hs 0) (c :: u64)"
proof (induction hs arbitrary: c)
  case (Cons h hs)
  show ?case using Cons [of "max h c"] Cons [of "max h 0"] by (simp add: max.assoc max.left_commute)
qed simp

lemma reports_state: "reports w (w\<lparr>w_cmds := w_cmds w @ [(CmdSetSystemState, d)]\<rparr>)"
  unfolding reports_def by (intro exI [of _ "[(CmdSetSystemState, d)]"] exI [of _ "[]"]) (simp add: map_filter_simps)

lemma reports_flush:
  assumes "\<not> w_ephemeralMode w" "\<not> w_cancelled w" "\<forall>t \<in> set batch. task_ok t"
  shows "reports w (flush True batch w)"
proof (cases "batch = []")
  case False
  obtain d where "write_tx w batch (w_db w) = Inr d" using write_tx_ok [OF assms(3), of w "w_db w"] by blast
  with False assms have f: "w_cmds (flush True batch w) = w_cmds w @ [(CmdCommitDisk, DUint64 (max_height batch))]"
    "w_written (flush True batch w) = w_written w @ batch" by (simp_all add: flush_def)
  have "fold max (map task_Height batch) c = max (max_height batch) c" for c
    using fold_max_start [of "map task_Height batch" c] by (simp add: max_height_def max_height_fold)
  then show ?thesis
    unfolding reports_def by (intro exI [of _ "[(CmdCommitDisk, DUint64 (max_height batch))]"] exI [of _ batch]) (simp add: f map_filter_simps)
qed (simp add: flush_def reports_refl)

lemma reports_frame:
  "reports w w' \<Longrightarrow> w_cmds u = w_cmds w' \<Longrightarrow> w_written u = w_written w' \<Longrightarrow> reports w u"
  "reports w w' \<Longrightarrow> w_cmds v = w_cmds w \<Longrightarrow> w_written v = w_written w \<Longrightarrow> reports v w'"
  by (simp_all add: reports_def)

lemma reports_drain:
  assumes "writer_ok w"
  shows "reports w (emergencyDrain True w)"
proof (cases "w_emergencyDrainCooldown w")
  case False
  let ?c = "w_taskChan w"
  let ?n = "chan_len ?c - capacity ?c * 50 div 100"
  let ?u = "w\<lparr>w_emergencyDrainCooldown := True, w_taskChan := ?c\<lparr>items := drop ?n (items ?c)\<rparr>,
    w_cmds := w_cmds w @ [(CmdSetSystemState, DSystemState SystemStateDegraded)]\<rparr>"
  let ?v = "flush True (take ?n (items ?c)) ?u"
  have "reports w ?u" using reports_state [of w] by (rule reports_frame(1)) simp_all
  also have "reports ?u ?v" using assms by (intro reports_flush) (auto simp: writer_ok_def dest: in_set_takeD)
  also have "reports ?v (?v\<lparr>w_cmds := w_cmds ?v @ [(CmdSetSystemState, DSystemState SystemStateRunning)]\<rparr>)" by (rule reports_state)
  finally show ?thesis using False by (simp add: emergencyDrain_def Let_def)
qed (simp add: emergencyDrain_def reports_refl)

lemma reports_flush_batch: "writer_ok w \<Longrightarrow> reports w ((flush True (w_batch w) w)\<lparr>w_batch := []\<rparr>)"
  using reports_flush [of w "w_batch w"] by (auto simp: writer_ok_def intro: reports_frame(1))

lemma reports_task:
  assumes "writer_ok w"
  shows "reports w (on_task True w)"
proof (cases "items (w_taskChan w)")
  case (Cons t ts)
  let ?u = "w\<lparr>w_taskChan := (w_taskChan w)\<lparr>items := ts\<rparr>, w_batch := w_batch w @ [t]\<rparr>"
  let ?v = "(flush True (w_batch ?u) ?u)\<lparr>w_batch := []\<rparr>"
  have u: "writer_ok ?u" using assms Cons by (auto simp: writer_ok_def)
  have wu: "reports w ?u" by (rule reports_refl) simp_all
  have wv: "reports w ?v" using wu reports_flush_batch [OF u] by (rule reports_trans)
  have "writer_ok ?v" using flush_batch_healthy [OF u] by (simp add: healthy_step_def)
  with wv have "reports w (emergencyDrain True ?v)" using reports_drain reports_trans by blast
  with wu wv show ?thesis using Cons by (simp add: on_task_def Let_def)
qed (simp add: on_task_def reports_refl)

lemma reports_step:
  assumes "writer_ok w" and "e \<noteq> WDone"
  shows "reports w (writer_step e True w)"
proof (cases e)
  case WTick
  with assms show ?thesis using reports_flush_batch [OF assms(1)] by (simp add: reports_refl)
next
  case WCooldown
  then show ?thesis by (simp add: reports_refl)
qed (use assms reports_task in auto)

subsection \<open>Nothing is lost on the way\<close>

definition pending :: "Orchestrator \<Rightarrow> (MsgType \<times> MsgData) list" where
  "pending o' = map (\<lambda>m. (msg_Type m, msg_Data m)) (items (cmdChan o'))"

text \<open>All tasks in order: written, in the writer's hands, in the command channel, not yet dispatched.\<close>

definition path_tasks :: "commit_path \<Rightarrow> PersistTask list" where
  "path_tasks s = pipeline_of (awriter s) @ List.map_filter commit_task (pending (coord s)) @ todo s"

text \<open>The synced cursor as it will be when the pending commands are processed.\<close>

definition cursor_view :: "Orchestrator \<Rightarrow> u64" where
  "cursor_view o' = fold max (disk_heights (pending o')) (SyncedCursor (ostate o'))"

definition path_ok :: "commit_path \<Rightarrow> bool" where
  "path_ok s \<longleftrightarrow> writer_ok (awriter s) \<and> written_stored (awriter s) \<and> asyncWriter (coord s) = Some (w_taskChan (awriter s))
     \<and> \<not> ctxDone (coord s) \<and> CmdResetCursor \<notin> fst ` set (pending (coord s))
     \<and> (\<forall>t \<in> set (List.map_filter commit_task (pending (coord s)) @ todo s). task_ok t)"

lemma pending_dispatch:
  "\<not> ctxDone o' \<Longrightarrow> chan_len (cmdChan o') + length cs \<le> capacity (cmdChan o') \<Longrightarrow>
     pending (dispatch_all cs o') = pending o' @ cs \<and> ostate (dispatch_all cs o') = ostate o'
     \<and> asyncWriter (dispatch_all cs o') = asyncWriter o' \<and> \<not> ctxDone (dispatch_all cs o')"
proof (induction cs arbitrary: o')
  case (Cons c cs)
  obtain t d where c: "c = (t, d)" by fastforce
  let ?o = "fst (Dispatch False t d o')"
  have "chan_len (cmdChan o') < capacity (cmdChan o')" using Cons.prems(2) by simp
  then have "\<not> ctxDone ?o" "chan_len (cmdChan ?o) + length cs \<le> capacity (cmdChan ?o)" "pending ?o = pending o' @ [c]"
    "ostate ?o = ostate o'" "asyncWriter ?o = asyncWriter o'"
    using Cons.prems c by (auto simp: Dispatch_def Let_def chan_try_send_def chan_len_def pending_def)
  moreover from Cons.IH [OF this(1,2)] have "pending (dispatch_all cs ?o) = pending ?o @ cs \<and> ostate (dispatch_all cs ?o) = ostate ?o
      \<and> asyncWriter (dispatch_all cs ?o) = asyncWriter ?o \<and> \<not> ctxDone (dispatch_all cs ?o)" .
  ultimately show ?case by (simp add: dispatch_all_def c)
qed (simp add: dispatch_all_def)

lemma process_frame:
  "cmdChan (fst (process now m o')) = cmdChan o'" "ctxDone (fst (process now m o')) = ctxDone o'"
  "asyncWriter (fst (process now m o')) =
     (case commit_task (msg_Type m, msg_Data m) of
        None \<Rightarrow> asyncWriter o' | Some t \<Rightarrow> map_option (\<lambda>ch. fst (chan_try_send t ch)) (asyncWriter o'))"
  "msg_Type m \<noteq> CmdResetCursor \<Longrightarrow> SyncedCursor (ostate (fst (process now m o'))) =
     (case disk_height (msg_Type m, msg_Data m) of
        None \<Rightarrow> SyncedCursor (ostate o') | Some h \<Rightarrow> max h (SyncedCursor (ostate o')))"
proof -
  have up: "asyncWriter (updateProgressAndSnapshot now q) = asyncWriter q" "ctxDone (updateProgressAndSnapshot now q) = ctxDone q" for q
    by (simp_all add: updateProgressAndSnapshot_def Let_def split: prod.splits)
  show "cmdChan (fst (process now m o')) = cmdChan o'" by (simp add: process_def)
  show "ctxDone (fst (process now m o')) = ctxDone o'"
    by (auto simp: process_def up handle_msg_def handler_defs Let_def split: MsgType.splits MsgData.splits option.splits)
  show "asyncWriter (fst (process now m o')) = (case commit_task (msg_Type m, msg_Data m) of
      None \<Rightarrow> asyncWriter o' | Some t \<Rightarrow> map_option (\<lambda>ch. fst (chan_try_send t ch)) (asyncWriter o'))"
    by (auto simp: process_def up handle_msg_def handler_defs Let_def split: MsgType.splits MsgData.splits option.splits)
  show "SyncedCursor (ostate (fst (process now m o'))) = (case disk_height (msg_Type m, msg_Data m) of
      None \<Rightarrow> SyncedCursor (ostate o') | Some h \<Rightarrow> max h (SyncedCursor (ostate o')))" if "msg_Type m \<noteq> CmdResetCursor"
    using that by (auto simp: process_def handle_msg_def handler_defs Let_def max_def split: MsgType.splits MsgData.splits option.splits)
qed

text \<open>One step keeps the tasks and moves the cursor only by what has been written.\<close>

definition conserves :: "commit_path \<Rightarrow> commit_path \<Rightarrow> bool" where
  "conserves s s' \<longleftrightarrow> path_ok s' \<and> path_tasks s' = path_tasks s
     \<and> (\<forall>c. cursor_view (coord s) = fold max (map task_Height (w_written (awriter s))) c
          \<longrightarrow> cursor_view (coord s') = fold max (map task_Height (w_written (awriter s'))) c)"

lemma conserves_trans: "conserves s s1 \<Longrightarrow> conserves s1 s2 \<Longrightarrow> conserves s s2"
  by (simp add: conserves_def)

lemma conserves_hand_over:
  assumes "path_ok s" and "fits HandOver s"
  shows "conserves s (path_step HandOver s)"
proof (cases "todo s")
  case (Cons t ts)
  have d: "pending (dispatch_all [(CmdCommitBatch, DTask t)] (coord s)) = pending (coord s) @ [(CmdCommitBatch, DTask t)]
      \<and> ostate (dispatch_all [(CmdCommitBatch, DTask t)] (coord s)) = ostate (coord s)
      \<and> asyncWriter (dispatch_all [(CmdCommitBatch, DTask t)] (coord s)) = asyncWriter (coord s)
      \<and> \<not> ctxDone (dispatch_all [(CmdCommitBatch, DTask t)] (coord s))"
    using assms by (intro pending_dispatch) (auto simp: path_ok_def)
  with assms(1) Cons show ?thesis
    by (auto simp: conserves_def path_ok_def path_tasks_def cursor_view_def map_filter_append map_filter_simps)
qed (use assms in \<open>simp add: conserves_def\<close>)

lemma conserves_other:
  assumes "path_ok s" and "fits (OtherCmd t d) s"
  shows "conserves s (path_step (OtherCmd t d) s)"
proof -
  have d: "pending (dispatch_all [(t, d)] (coord s)) = pending (coord s) @ [(t, d)] \<and> ostate (dispatch_all [(t, d)] (coord s)) = ostate (coord s)
      \<and> asyncWriter (dispatch_all [(t, d)] (coord s)) = asyncWriter (coord s) \<and> \<not> ctxDone (dispatch_all [(t, d)] (coord s))"
    using assms by (intro pending_dispatch) (auto simp: path_ok_def)
  have "commit_task (t, d) = None" "disk_height (t, d) = None" "t \<noteq> CmdResetCursor"
    using assms(2) by (cases t; cases d; simp)+
  with d assms(1) show ?thesis
    by (auto simp: conserves_def path_ok_def path_tasks_def cursor_view_def map_filter_append map_filter_simps)
qed

lemma conserves_coordinate:
  assumes "path_ok s" and "fits (Coordinate now) s"
  shows "conserves s (path_step (Coordinate now) s)"
proof (cases "items (cmdChan (coord s))")
  case (Cons m ms)
  let ?o = "(coord s)\<lparr>cmdChan := (cmdChan (coord s))\<lparr>items := ms\<rparr>\<rparr>"
  let ?p = "fst (process now m ?o)"
  have o: "pending (coord s) = (msg_Type m, msg_Data m) # pending ?o" "pending ?p = pending ?o" "ctxDone ?p = ctxDone (coord s)"
    "msg_Type m \<noteq> CmdResetCursor"
    using Cons assms(1) by (auto simp: pending_def process_frame path_ok_def)
  have cur: "cursor_view ?p = cursor_view (coord s)"
    using o process_frame(4) [OF o(4), of now ?o] by (auto simp: cursor_view_def map_filter_simps split: option.splits)
  show ?thesis
  proof (cases "commit_task (msg_Type m, msg_Data m)")
    case None
    with o cur assms(1) Cons show ?thesis
      by (auto simp: conserves_def path_ok_def path_tasks_def map_filter_simps process_frame(3) Let_def)
  next
    case (Some t)
    have "asyncWriter ?p = Some (fst (chan_try_send t (w_taskChan (awriter s))))"
      using Some assms(1) by (simp add: process_frame(3) path_ok_def)
    then have w: "asyncWriter ?p = Some ((w_taskChan (awriter s))\<lparr>items := items (w_taskChan (awriter s)) @ [t]\<rparr>)"
      using assms(2) by (simp add: chan_try_send_def)
    let ?w = "(awriter s)\<lparr>w_taskChan := (w_taskChan (awriter s))\<lparr>items := items (w_taskChan (awriter s)) @ [t]\<rparr>\<rparr>"
    have "task_ok t" using assms(1) o(1) Some by (simp add: path_ok_def map_filter_simps)
    then have "writer_ok ?w" "written_stored ?w" "pipeline_of ?w = pipeline_of (awriter s) @ [t]"
      using assms(1) by (auto simp: path_ok_def writer_ok_def written_stored_def pipeline_of_def)
    with o cur w assms(1) Cons Some show ?thesis
      by (auto simp: conserves_def path_ok_def path_tasks_def map_filter_simps Let_def)
  qed
qed (use assms in \<open>simp add: conserves_def\<close>)

lemma conserves_write:
  assumes "path_ok s" and "fits (Write e) s"
  shows "conserves s (path_step (Write e) s)"
proof -
  let ?w = "writer_step e True (awriter s)"
  let ?q = "(coord s)\<lparr>asyncWriter := Some (w_taskChan ?w)\<rparr>"
  have w: "healthy_step (awriter s) ?w" "reports (awriter s) ?w"
    using assms by (auto simp: path_ok_def intro!: step_healthy reports_step)
  from w(2) obtain cs ts where r: "w_cmds ?w = w_cmds (awriter s) @ cs" "w_written ?w = w_written (awriter s) @ ts"
    "fst ` set cs \<subseteq> {CmdCommitDisk, CmdSetSystemState}" "\<forall>c. fold max (disk_heights cs) c = fold max (map task_Height ts) c"
    unfolding reports_def by (elim exE conjE)
  have n: "new_cmds (awriter s) ?w = cs" by (simp add: new_cmds_def r(1))
  have d: "pending (dispatch_all cs ?q) = pending ?q @ cs \<and> ostate (dispatch_all cs ?q) = ostate ?q
      \<and> asyncWriter (dispatch_all cs ?q) = asyncWriter ?q \<and> \<not> ctxDone (dispatch_all cs ?q)"
    using assms by (intro pending_dispatch) (auto simp: path_ok_def n)
  have "commit_task c = None" if "c \<in> set cs" for c using r(3) that by (cases c rule: commit_task.cases) auto
  then have t: "List.map_filter commit_task cs = []" by (induction cs) (auto simp: map_filter_simps)
  have "CmdResetCursor \<notin> fst ` set cs" using r(3) by auto
  moreover have "pending ?q = pending (coord s)" by (simp add: pending_def)
  ultimately show ?thesis
    using w(1) d t r(2,4) assms(1)
    by (auto simp: conserves_def path_ok_def path_tasks_def cursor_view_def healthy_step_def n Let_def map_filter_append)
qed

lemma path_run_conserves: "path_ok s \<Longrightarrow> fits_run es s \<Longrightarrow> conserves s (path_run es s)"
proof (induction es arbitrary: s)
  case (Cons e es)
  have "conserves s (path_step e s)"
    using Cons.prems conserves_hand_over conserves_other conserves_coordinate conserves_write by (cases e) auto
  with Cons show ?case using conserves_trans [of s "path_step e s"] by (simp add: conserves_def)
qed (simp add: conserves_def)

subsection \<open>The path can always be emptied\<close>

definition quiet :: "commit_path \<Rightarrow> bool" where
  "quiet s \<longleftrightarrow> todo s = [] \<and> items (cmdChan (coord s)) = [] \<and> w_batch (awriter s) = [] \<and> items (w_taskChan (awriter s)) = []"

lemma path_run_append: "path_run (es @ es') s = path_run es' (path_run es s)"
  by (induction es arbitrary: s) auto

lemma fits_run_append: "fits_run (es @ es') s \<longleftrightarrow> fits_run es s \<and> fits_run es' (path_run es s)"
  by (induction es arbitrary: s) auto

abbreviation cmd_len :: "commit_path \<Rightarrow> nat" where
  "cmd_len s \<equiv> length (items (cmdChan (coord s)))"

abbreviation task_len :: "commit_path \<Rightarrow> nat" where
  "task_len s \<equiv> length (items (w_taskChan (awriter s)))"

abbreviation cmd_cap :: "commit_path \<Rightarrow> nat" where
  "cmd_cap s \<equiv> capacity (cmdChan (coord s))"

abbreviation task_cap :: "commit_path \<Rightarrow> nat" where
  "task_cap s \<equiv> capacity (w_taskChan (awriter s))"

lemma cmd_len_dispatch:
  "\<not> ctxDone o' \<Longrightarrow> chan_len (cmdChan o') + length cs \<le> capacity (cmdChan o') \<Longrightarrow>
     length (items (cmdChan (dispatch_all cs o'))) = length (items (cmdChan o')) + length cs
     \<and> capacity (cmdChan (dispatch_all cs o')) = capacity (cmdChan o')"
proof (induction cs arbitrary: o')
  case (Cons c cs)
  obtain t d where c: "c = (t, d)" by fastforce
  let ?o = "fst (Dispatch False t d o')"
  have "\<not> ctxDone ?o" "chan_len (cmdChan ?o) + length cs \<le> capacity (cmdChan ?o)"
    "length (items (cmdChan ?o)) = Suc (length (items (cmdChan o')))" "capacity (cmdChan ?o) = capacity (cmdChan o')"
    using Cons.prems by (auto simp: Dispatch_def Let_def chan_try_send_def chan_len_def)
  with Cons.IH [of ?o] show ?case by (simp add: dispatch_all_def c)
qed (simp add: dispatch_all_def)

lemma coordinate_all:
  "path_ok s \<Longrightarrow> task_len s + cmd_len s \<le> task_cap s \<Longrightarrow>
     \<exists>es. fits_run es s \<and> todo (path_run es s) = todo s \<and> cmd_len (path_run es s) = 0
       \<and> cmd_cap (path_run es s) = cmd_cap s \<and> task_cap (path_run es s) = task_cap s
       \<and> task_len (path_run es s) = task_len s + length (List.map_filter commit_task (pending (coord s)))
       \<and> w_batch (awriter (path_run es s)) = w_batch (awriter s)"
proof (induction "cmd_len s" arbitrary: s)
  case 0
  then show ?case by (intro exI [of _ "[]"]) (simp add: pending_def map_filter_simps)
next
  case (Suc n)
  let ?s = "path_step (Coordinate 0) s"
  obtain m ms where m: "items (cmdChan (coord s)) = m # ms" "length ms = n" using Suc.hyps(2) by (metis length_Suc_conv)
  have f: "fits (Coordinate 0) s" using Suc.prems(2) Suc.hyps(2) by (simp add: chan_len_def)
  let ?o = "(coord s)\<lparr>cmdChan := (cmdChan (coord s))\<lparr>items := ms\<rparr>\<rparr>"
  let ?k = "case commit_task (msg_Type m, msg_Data m) of None \<Rightarrow> 0 :: nat | Some _ \<Rightarrow> 1"
  have l: "cmd_len ?s = n" "cmd_cap ?s = cmd_cap s" "todo ?s = todo s" "task_cap ?s = task_cap s" "task_len ?s = task_len s + ?k"
    "w_batch (awriter ?s) = w_batch (awriter s)" "pending (coord s) = (msg_Type m, msg_Data m) # pending (coord ?s)"
    using m f Suc.prems(1)
    by (auto simp: path_ok_def process_frame Let_def chan_try_send_def pending_def split: option.splits)
  have "path_ok ?s" using conserves_coordinate [OF Suc.prems(1) f] by (simp add: conserves_def)
  moreover have "task_len ?s + cmd_len ?s \<le> task_cap ?s" using l Suc.prems(2) Suc.hyps(2) by (auto split: option.splits)
  ultimately obtain es where "fits_run es ?s" "todo (path_run es ?s) = todo ?s" "cmd_len (path_run es ?s) = 0"
    "cmd_cap (path_run es ?s) = cmd_cap ?s" "task_cap (path_run es ?s) = task_cap ?s"
    "task_len (path_run es ?s) = task_len ?s + length (List.map_filter commit_task (pending (coord ?s)))"
    "w_batch (awriter (path_run es ?s)) = w_batch (awriter ?s)"
    using Suc.hyps(1) [OF l(1) [symmetric]] by blast
  with f l show ?case by (intro exI [of _ "Coordinate 0 # es"]) (simp add: map_filter_simps split: option.splits)
qed

lemma flush_frame:
  "w_taskChan (flush up b w) = w_taskChan w" "w_batch (flush up b w) = w_batch w"
  "length (w_cmds (flush up b w)) \<le> Suc (length (w_cmds w))"
  by (simp_all add: flush_def handleEphemeralFlush_def split: sum.splits)

lemma drain_frame:
  "capacity (w_taskChan (emergencyDrain up w)) = capacity (w_taskChan w)"
  "length (w_cmds (emergencyDrain up w)) \<le> 3 + length (w_cmds w)"
proof -
  show "capacity (w_taskChan (emergencyDrain up w)) = capacity (w_taskChan w)" by (simp add: emergencyDrain_def Let_def flush_frame)
  show "length (w_cmds (emergencyDrain up w)) \<le> 3 + length (w_cmds w)"
    using flush_frame(3) [of up _ "w\<lparr>w_emergencyDrainCooldown := True, w_taskChan := _,
      w_cmds := w_cmds w @ [(CmdSetSystemState, DSystemState SystemStateDegraded)]\<rparr>"]
    by (simp add: emergencyDrain_def Let_def)
qed

lemma step_frame:
  "capacity (w_taskChan (writer_step e up w)) = capacity (w_taskChan w)"
  "length (w_cmds (writer_step e up w)) \<le> 4 + length (w_cmds w)"
proof -
  show "capacity (w_taskChan (writer_step e up w)) = capacity (w_taskChan w)"
    by (cases e) (simp_all add: on_task_def Let_def flush_frame drain_frame split: list.splits)
  have f: "length (w_cmds (flush up b v)) \<le> 4 + length (w_cmds w)" if "w_cmds v = w_cmds w" for b v
    using flush_frame(3) [of up b v] that by simp
  have d: "length (w_cmds (emergencyDrain up ((flush up b v)\<lparr>w_batch := []\<rparr>))) \<le> 4 + length (w_cmds w)" if "w_cmds v = w_cmds w" for b v
    using drain_frame(2) [of up "(flush up b v)\<lparr>w_batch := []\<rparr>"] flush_frame(3) [of up b v] that by simp
  show "length (w_cmds (writer_step e up w)) \<le> 4 + length (w_cmds w)"
    using f d by (cases e) (simp_all add: on_task_def Let_def split: list.splits)
qed

lemma write_step:
  assumes "path_ok s" and "cmd_len s + 4 \<le> cmd_cap s" and "e \<noteq> WDone"
  defines "s1 \<equiv> path_step (Write e) s"
  shows "fits (Write e) s \<and> path_ok s1 \<and> todo s1 = todo s \<and> awriter s1 = writer_step e True (awriter s)
    \<and> cmd_len s1 \<le> cmd_len s + 4 \<and> cmd_cap s1 = cmd_cap s \<and> task_cap s1 = task_cap s
    \<and> List.map_filter commit_task (pending (coord s1)) = List.map_filter commit_task (pending (coord s))"
proof -
  let ?w = "writer_step e True (awriter s)"
  have n: "length (new_cmds (awriter s) ?w) \<le> 4" using step_frame(2) [of e True "awriter s"] by (simp add: new_cmds_def)
  then have f: "fits (Write e) s" using assms(2,3) by (simp add: chan_len_def)
  have s1: "todo s1 = todo s" "awriter s1 = ?w" by (simp_all add: s1_def Let_def)
  have c: "conserves s s1" unfolding s1_def by (rule conserves_write [OF assms(1) f])
  moreover have "healthy_step (awriter s) ?w" using assms(1,3) by (intro step_healthy) (simp_all add: path_ok_def)
  ultimately have "List.map_filter commit_task (pending (coord s1)) = List.map_filter commit_task (pending (coord s))"
    using s1 by (simp add: conserves_def path_tasks_def healthy_step_def)
  moreover have "cmd_len s1 = cmd_len s + length (new_cmds (awriter s) ?w) \<and> cmd_cap s1 = cmd_cap s"
    using cmd_len_dispatch [of "(coord s)\<lparr>asyncWriter := Some (w_taskChan ?w)\<rparr>" "new_cmds (awriter s) ?w"] assms(1,2) n
    by (simp add: s1_def Let_def path_ok_def chan_len_def)
  ultimately show ?thesis using f c s1 n by (simp add: conserves_def step_frame)
qed

lemma write_all:
  "path_ok s \<Longrightarrow> task_len s \<le> n \<Longrightarrow> cmd_len s + 4 * (n + 1) \<le> cmd_cap s \<Longrightarrow>
     \<exists>es. fits_run es s \<and> todo (path_run es s) = todo s \<and> task_len (path_run es s) = 0 \<and> w_batch (awriter (path_run es s)) = []
       \<and> cmd_len (path_run es s) \<le> cmd_len s + 4 * (n + 1) \<and> cmd_cap (path_run es s) = cmd_cap s \<and> task_cap (path_run es s) = task_cap s
       \<and> List.map_filter commit_task (pending (coord (path_run es s))) = List.map_filter commit_task (pending (coord s))"
proof (induction n arbitrary: s)
  case 0
  let ?s = "path_step (Write WTick) s"
  have "w_batch (writer_step WTick True (awriter s)) = []" "w_taskChan (writer_step WTick True (awriter s)) = w_taskChan (awriter s)"
    by (simp_all add: flush_frame)
  with 0 write_step [OF 0(1), of WTick] show ?case by (intro exI [of _ "[Write WTick]"]) (simp del: writer_step.simps path_step.simps fits.simps)
next
  case (Suc n)
  let ?s = "path_step (Write WTask) s"
  have w: "fits (Write WTask) s" "path_ok ?s" "todo ?s = todo s" "awriter ?s = on_task True (awriter s)"
    "cmd_len ?s \<le> cmd_len s + 4" "cmd_cap ?s = cmd_cap s" "task_cap ?s = task_cap s"
    "List.map_filter commit_task (pending (coord ?s)) = List.map_filter commit_task (pending (coord s))"
    using write_step [OF Suc.prems(1), of WTask] Suc.prems(3) step_frame(1) [of WTask True "awriter s"]
    by (simp_all del: path_step.simps fits.simps)
  have "task_len ?s \<le> n"
    using on_task_healthy [of "awriter s"] Suc.prems(1,2) w(4)
    by (cases "items (w_taskChan (awriter s)) = []") (auto simp: path_ok_def healthy_step_def)
  then obtain es where "fits_run es ?s" "todo (path_run es ?s) = todo ?s" "task_len (path_run es ?s) = 0" "w_batch (awriter (path_run es ?s)) = []"
    "cmd_len (path_run es ?s) \<le> cmd_len ?s + 4 * (n + 1)" "cmd_cap (path_run es ?s) = cmd_cap ?s" "task_cap (path_run es ?s) = task_cap ?s"
    "List.map_filter commit_task (pending (coord (path_run es ?s))) = List.map_filter commit_task (pending (coord ?s))"
    using Suc.IH [OF w(2)] Suc.prems(3) w(5,6) by fastforce
  with w show ?case by (intro exI [of _ "Write WTask # es"]) (simp del: path_step.simps fits.simps)
qed

text \<open>
  With room for eight entries in both channels any number of tasks can be worked off without a
  loss, for example one at a time: it is handed over, queued, written, and its commit noted.
\<close>

lemma one_task_drains:
  assumes "path_ok s" and "cmd_len s = 0" and "task_len s = 0" and "todo s = t # ts" and "8 \<le> cmd_cap s" and "8 \<le> task_cap s"
  shows "\<exists>es. fits_run es s \<and> todo (path_run es s) = ts \<and> cmd_len (path_run es s) = 0 \<and> task_len (path_run es s) = 0
    \<and> w_batch (awriter (path_run es s)) = [] \<and> cmd_cap (path_run es s) = cmd_cap s \<and> task_cap (path_run es s) = task_cap s"
proof -
  note ok = path_run_conserves [unfolded conserves_def, THEN conjunct1]
  define s1 where "s1 = path_step HandOver s"
  have f: "fits HandOver s" using assms(2,5) by (simp add: chan_len_def)
  have 1: "cmd_len s1 = 1" "cmd_cap s1 = cmd_cap s" "awriter s1 = awriter s" "todo s1 = ts"
    using cmd_len_dispatch [of "coord s" "[(CmdCommitBatch, DTask t)]"] assms by (auto simp: s1_def path_ok_def chan_len_def)
  have ok1: "path_ok s1" using conserves_hand_over [OF assms(1) f] by (simp add: conserves_def s1_def)
  obtain es2 where 2: "fits_run es2 s1" "todo (path_run es2 s1) = ts" "cmd_len (path_run es2 s1) = 0" "cmd_cap (path_run es2 s1) = cmd_cap s"
    "task_cap (path_run es2 s1) = task_cap s"
    "task_len (path_run es2 s1) = length (List.map_filter commit_task (pending (coord s1)))"
    using coordinate_all [OF ok1] 1 assms(3,6) by auto
  define s2 where "s2 = path_run es2 s1"
  have ok2: "path_ok s2" unfolding s2_def by (rule ok [OF ok1 2(1)])
  have "length (pending (coord s1)) = 1" using 1(1) by (simp add: pending_def)
  then have l2: "task_len s2 \<le> 1"
    using 2(6) by (cases "pending (coord s1)") (auto simp: s2_def map_filter_simps split: option.splits)
  have e2: "List.map_filter commit_task (pending (coord s2)) = []" using 2(3) by (simp add: s2_def pending_def map_filter_simps)
  obtain es3 where 3: "fits_run es3 s2" "todo (path_run es3 s2) = ts" "task_len (path_run es3 s2) = 0" "w_batch (awriter (path_run es3 s2)) = []"
    "cmd_len (path_run es3 s2) \<le> 8" "cmd_cap (path_run es3 s2) = cmd_cap s" "task_cap (path_run es3 s2) = task_cap s"
    "List.map_filter commit_task (pending (coord (path_run es3 s2))) = []"
    using write_all [OF ok2 l2] 2 assms(5) e2 by (auto simp: s2_def)
  define s3 where "s3 = path_run es3 s2"
  have ok3: "path_ok s3" unfolding s3_def by (rule ok [OF ok2 3(1)])
  obtain es4 where 4: "fits_run es4 s3" "todo (path_run es4 s3) = ts" "cmd_len (path_run es4 s3) = 0" "task_len (path_run es4 s3) = 0"
    "w_batch (awriter (path_run es4 s3)) = []" "cmd_cap (path_run es4 s3) = cmd_cap s" "task_cap (path_run es4 s3) = task_cap s"
    using coordinate_all [OF ok3] 3 assms(6) by (auto simp: s3_def)
  have "fits_run (HandOver # es2 @ es3 @ es4) s" "path_run (HandOver # es2 @ es3 @ es4) s = path_run es4 s3"
    using f 2(1) 3(1) 4(1) by (simp_all add: fits_run_append path_run_append s1_def s2_def s3_def del: fits.simps path_step.simps)
  with 4 show ?thesis by metis
qed

lemma path_drains:
  "path_ok s \<Longrightarrow> cmd_len s = 0 \<Longrightarrow> task_len s = 0 \<Longrightarrow> w_batch (awriter s) = [] \<Longrightarrow> 8 \<le> cmd_cap s \<Longrightarrow> 8 \<le> task_cap s \<Longrightarrow>
     \<exists>es. fits_run es s \<and> quiet (path_run es s)"
proof (induction "todo s" arbitrary: s)
  case Nil
  then show ?case by (intro exI [of _ "[]"]) (simp add: quiet_def)
next
  case (Cons t ts)
  from one_task_drains [OF Cons.prems(1-3) Cons.hyps(2) [symmetric] Cons.prems(5,6)] obtain es where
    es: "fits_run es s" "todo (path_run es s) = ts" "cmd_len (path_run es s) = 0" "task_len (path_run es s) = 0"
      "w_batch (awriter (path_run es s)) = []" "cmd_cap (path_run es s) = cmd_cap s" "task_cap (path_run es s) = task_cap s" by blast
  have "path_ok (path_run es s)" using path_run_conserves [OF Cons.prems(1) es(1)] by (simp add: conserves_def)
  with Cons.hyps(1) [of "path_run es s"] es Cons.prems(5,6) obtain es' where
    "fits_run es' (path_run es s)" "quiet (path_run es' (path_run es s))" by auto
  with es(1) show ?case by (intro exI [of _ "es @ es'"]) (simp add: fits_run_append path_run_append)
qed

subsection \<open>End to end\<close>

text \<open>When the path is quiet, everything is on disk and the coordinator knows it.\<close>

lemma quiet_stored:
  assumes "path_ok s" and "fits_run es s" and "quiet (path_run es s)" and "w_written (awriter s) = []" and "pending (coord s) = []"
  shows "w_written (awriter (path_run es s)) = path_tasks s
    \<and> (Number \<circ> task_Block) ` set (path_tasks s) \<subseteq> br_number ` set (db_blocks (w_db (awriter (path_run es s))))
    \<and> SyncedCursor (ostate (coord (path_run es s))) = fold max (map task_Height (path_tasks s)) (SyncedCursor (ostate (coord s)))"
proof -
  let ?s = "path_run es s"
  have c: "conserves s ?s" by (rule path_run_conserves [OF assms(1,2)])
  have w: "w_written (awriter ?s) = path_tasks s"
    using c assms(3) by (simp add: conserves_def path_tasks_def pipeline_of_def quiet_def pending_def map_filter_simps)
  have "written_stored (awriter ?s)" using c by (simp add: conserves_def path_ok_def)
  moreover have "cursor_view (coord s) = fold max (map task_Height (w_written (awriter s))) (SyncedCursor (ostate (coord s)))"
    using assms(4,5) by (simp add: cursor_view_def map_filter_simps)
  then have "cursor_view (coord ?s) = fold max (map task_Height (w_written (awriter ?s))) (SyncedCursor (ostate (coord s)))"
    using c by (simp add: conserves_def)
  then have "SyncedCursor (ostate (coord ?s)) = fold max (map task_Height (path_tasks s)) (SyncedCursor (ostate (coord s)))"
    using assms(3) w by (simp add: cursor_view_def quiet_def pending_def map_filter_simps)
  ultimately show ?thesis using w by (simp add: written_stored_def)
qed

subsection \<open>The tasks of the processor\<close>

text \<open>
  What the writer needs of a task, that its transfers belong to its block, holds of everything the
  processor dispatches from block data with the right logs: the second reading of the reliable
  processor, with this as an invariant.
\<close>

definition sound_data :: "BlockData \<Rightarrow> bool" where
  "sound_data d \<longleftrightarrow> own_logs d \<and> (case bd_Block d of None \<Rightarrow> True | Some b \<Rightarrow> 0 \<le> eb_Number b \<and> eb_Number b \<le> max_i64)"

definition tasks_ok :: "Processor \<Rightarrow> bool" where
  "tasks_ok p \<longleftrightarrow> (\<forall>t \<in> set (dispatched_tasks p). task_ok t \<and> task_Height t = num_u64 (Number (task_Block t)))"

abbreviation of_block :: "int \<Rightarrow> Transfer list \<Rightarrow> bool" where
  "of_block n ts \<equiv> \<forall>t \<in> set ts. BlockNumber t = n"

lemma process_logs_block:
  "process_logs x vs p = (p', ts) \<Longrightarrow> \<forall>v \<in> set vs. uint (log_BlockNumber v) = n \<Longrightarrow> of_block n ts"
proof (induction vs arbitrary: p ts)
  case (Cons v vs)
  obtain p1 a where 1: "ProcessLog x v p = (p1, a)" by fastforce
  obtain ts1 where 2: "process_logs x vs p1 = (p', ts1)" "ts = (case a of None \<Rightarrow> ts1 | Some t \<Rightarrow> t # ts1)"
    using Cons.prems(1) 1 by (auto split: prod.splits)
  have "BlockNumber t = n" if "a = Some t" for t
    using 1 that Cons.prems(2) by (auto simp: ProcessLog_def Let_def split: if_splits prod.splits)
  moreover have "of_block n ts1" using Cons.IH [OF 2(1)] Cons.prems(2) by simp
  ultimately show ?case using 2(2) by (cases a) auto
qed simp

lemma scan_txs_block: "(\<And>tx i t. f tx i = Some t \<Longrightarrow> BlockNumber t = n) \<Longrightarrow> of_block n (scan_txs f idx txs)"
  by (induction txs arbitrary: idx) (auto split: option.splits)

lemma detect_tx_block: "detect_tx x c n ls tx i = Some t \<Longrightarrow> BlockNumber t = n"
  by (auto simp: detect_tx_def detectFaucetNoDB_def detectDeployNoDB_def detectEthTransferNoDB_def tx_transfer_def Let_def
      split: if_splits option.splits)

lemma batch_tx_block: "batch_tx x c n ls tx i = Some t \<Longrightarrow> BlockNumber t = n"
  by (auto simp: batch_tx_def tx_transfer_def Let_def split: if_splits option.splits)

lemma mock_loop_block: "mock_loop x b i k p = (p', ts) \<Longrightarrow> of_block (eb_Number b) ts"
proof (induction k arbitrary: i p ts)
  case (Suc k)
  obtain p1 r where 1: "secureIntn x 1000 p = (p1, r)" by fastforce
  obtain p2 ts1 where 2: "mock_loop x b (Suc i) k p1 = (p2, ts1)" by fastforce
  from Suc.prems 1 2 have "p2 = p'" "\<exists>t. ts = t # ts1 \<and> BlockNumber t = eb_Number b" by (auto simp: Let_def)
  with Suc.IH [of "Suc i" p1 ts1] 2 show ?case by auto
qed simp

lemma sound_logs:
  assumes "sound_data d" and "bd_Block d = Some b"
  shows "\<forall>v \<in> set (bd_Logs d). uint (log_BlockNumber v) = eb_Number b"
  using assms by (auto simp: sound_data_def own_logs_def uint_num_u64 max_i64_def)

lemma single_path_block:
  assumes "sound_data d" and "bd_Block d = Some b"
    and "extractActivities x (eb_Number b) (bd_Logs d) txs p = (p1, as)" and "processAnvilSyntheticNoDB x b as p1 = (p2, ts)"
  shows "of_block (eb_Number b) ts"
proof -
  obtain q fl where l: "process_logs x (bd_Logs d) p = (q, fl)" by fastforce
  have "of_block (eb_Number b) fl" using process_logs_block [OF l sound_logs [OF assms(1,2)]] .
  then have as: "of_block (eb_Number b) as"
    using assms(3) l scan_txs_block [OF detect_tx_block] by (auto simp: extractActivities_def)
  have "as = [] \<Longrightarrow> secureIntn x 4 p1 = (q1, r) \<Longrightarrow> mock_loop x b 0 (2 + r) q1 = (q2, ms) \<Longrightarrow> of_block (eb_Number b) ms" for q1 r q2 ms
    by (rule mock_loop_block)
  with as assms(4) show ?thesis by (fastforce simp: processAnvilSyntheticNoDB_def split: if_splits prod.splits)
qed

lemma batch_path_block:
  assumes "sound_data d" and "bd_Block d = Some b" and "batch_activities x b (bd_Logs d) c p = (p1, ts)"
  shows "of_block (eb_Number b) ts"
proof -
  obtain q fl where l: "process_logs x (bd_Logs d) p = (q, fl)" by fastforce
  have "of_block (eb_Number b) fl" using process_logs_block [OF l sound_logs [OF assms(1,2)]] .
  then show ?thesis
    using assms(3) l scan_txs_block [OF batch_tx_block]
    by (fastforce simp: batch_activities_def processBatchTransactions_def processBatchSynthetic_def Let_def split: if_splits)
qed

lemma tasks_ok_commit: "tasks_ok p \<Longrightarrow> of_block (eb_Number b) ts \<Longrightarrow> tasks_ok (dispatch_cmd CmdCommitBatch (DTask (persist_task now b ts)) p)"
  by (simp add: tasks_ok_def dispatched_commit task_ok_def persist_task_def model_block_def)

lemma tasks_ok_core: "core p' = core p \<Longrightarrow> tasks_ok p' = tasks_ok p"
  using dispatched_core [of p' p] by (simp add: tasks_ok_def)

lemma ProcessBlock_tasks_ok:
  assumes "ProcessBlock x d p = Ret (p', None)" and "local_chain p" and "tasks_ok p" and "sound_data d" and "bd_Block d = Some b" and "bd_Err d = None"
  shows "tasks_ok p'"
proof -
  obtain p2 acts0 where 2: "extractActivities x (eb_Number b) (bd_Logs d) (eb_Transactions b) p = (p2, acts0)" by fastforce
  obtain p3 acts where 3: "processAnvilSyntheticNoDB x b acts0 p2 = (p3, acts)" by fastforce
  obtain p4 now where 4: "ask_ext (Now x) p3 = (p4, now)" by fastforce
  let ?q = "updateReorgCache (eb_Number b) (eb_Hash b) (dispatch_cmd CmdCommitBatch (DTask (persist_task now b acts)) p4)"
  from assms(1) obtain p7 where 7: "pushEvents x b acts (AnalyzeGas x b) ?q = Ret p7" "p' = updateMetrics x b p7"
    using assms(5,6) local_reorg [OF assms(2)] 2 3 4 by (auto simp: ProcessBlock_def Let_def)
  have "core p4 = core p" using core_extract [OF 2] core_synthetic [OF 3] core_ask [OF 4] by simp
  with assms(3) have "tasks_ok p4" using tasks_ok_core [of p4 p] by simp
  then have "tasks_ok (dispatch_cmd CmdCommitBatch (DTask (persist_task now b acts)) p4)"
    using single_path_block [OF assms(4,5) 2 3] by (rule tasks_ok_commit)
  then have "tasks_ok ?q" unfolding tasks_ok_def dispatched_cache .
  moreover have "core p' = core ?q" using 7 by (simp add: core_updateMetrics core_pushEvents)
  ultimately show ?thesis using tasks_ok_core [of p' ?q] by simp
qed

lemma batch_loop_tasks_ok: "batch_loop x ds c p = Ret p' \<Longrightarrow> tasks_ok p \<Longrightarrow> \<forall>d \<in> set ds. sound_data d \<Longrightarrow> tasks_ok p'"
proof (induction ds arbitrary: p)
  case (Cons d ds)
  show ?case
  proof (cases "bd_Err d = None \<and> bd_Block d \<noteq> None")
    case False
    with Cons show ?thesis by (auto split: option.splits)
  next
    case True
    then obtain b where b: "bd_Err d = None" "bd_Block d = Some b" by blast
    obtain p1 acts where 1: "batch_activities x b (bd_Logs d) c p = (p1, acts)" by fastforce
    obtain p2 now where now: "ask_ext (Now x) p1 = (p2, now)" by fastforce
    let ?q = "dispatch_cmd CmdCommitBatch (DTask (persist_task now b acts)) p2"
    from Cons.prems(1) b 1 now obtain p3 where ev: "pushEvents x b acts [] ?q = Ret p3" and rest: "batch_loop x ds c p3 = Ret p'"
      by (auto simp: Let_def)
    have "tasks_ok p2" using Cons.prems(2) core_ask [OF now] core_batch [OF 1] tasks_ok_core [of p2 p] by simp
    then have "tasks_ok ?q" using tasks_ok_commit batch_path_block [OF _ b(2) 1] Cons.prems(3) by simp
    then have "tasks_ok p3" using core_pushEvents [OF ev] tasks_ok_core [of p3 ?q] by simp
    with Cons.IH [OF rest] Cons.prems(3) show ?thesis by simp
  qed
qed simp

interpretation writable: reliable_processor "processor_of x" committed_numbers "\<lambda>p. local_chain p \<and> tasks_ok p" sound_data for x
proof (unfold_locales, goal_cases)
  case (1 p d b)
  then obtain p' where "ProcessBlock x d p = Ret (p', None)" "local_chain p'" using ProcessBlock_local by blast
  moreover from this 1 have "tasks_ok p'" using ProcessBlock_tasks_ok by blast
  ultimately show ?case by (simp add: processor_of_def Processor_ProcessBlockWithRetry_def numeral_3_eq_3)
next
  case (2 p ds c)
  then obtain p' where p': "batch_loop x ds c p = Ret p'" "local_chain p'" using batch_loop_local by blast
  then have "local_chain (updateBatchMetrics ds p')" by (auto simp: updateBatchMetrics_def local_chain_def split: option.splits)
  moreover have "tasks_ok (updateBatchMetrics ds p')"
    using batch_loop_tasks_ok [OF p'(1)] 2 tasks_ok_core [OF core_batch_metrics] by simp
  ultimately show ?case using p' 2 by (auto simp: processor_of_def Processor_ProcessBatch_def)
qed

subsection \<open>From the head of the chain to the disk\<close>

text \<open>The path with the tasks of a processor, the coordinator linked to a writer.\<close>

definition commit_start :: "Processor \<Rightarrow> Orchestrator \<Rightarrow> AsyncWriter \<Rightarrow> commit_path" where
  "commit_start p o' w = \<lparr>todo = dispatched_tasks p, coord = SetAsyncWriter (w_taskChan w) o', awriter = w\<rparr>"

lemma start_ok:
  assumes "tasks_ok p" and "items (cmdChan o') = []" and "\<not> ctxDone o'"
  shows "path_ok (commit_start p o' (NewAsyncWriter d False chain latest))"
  using assms by (simp add: path_ok_def commit_start_def writer_ok_def written_stored_def NewAsyncWriter_def SetAsyncWriter_def
      pending_def map_filter_simps chan_make_def tasks_ok_def)

lemma start_tasks:
  "items (cmdChan o') = [] \<Longrightarrow> path_tasks (commit_start p o' (NewAsyncWriter d False chain latest)) = dispatched_tasks p"
  by (simp add: path_tasks_def commit_start_def pipeline_of_def NewAsyncWriter_def SetAsyncWriter_def pending_def map_filter_simps
      chan_make_def)



end
