(* ===== verification/Reorg.thy ===== *)
theory Reorg
  imports Storage
begin

section \<open>Reorganisations and alignment with the chain\<close>

text \<open>
  Finding the common ancestor and rolling back to it (internal/engine/processor\_reorg.go), the
  checkpoint update (internal/engine/processor\_checkpoint.go), the alignment at start-up
  (internal/engine/integrity.go), the consistency guard (internal/engine/consistency.go) and the
  audit of stored hashes (internal/engine/reconciler.go).

  \<open>rpc\<close> is the hash the node reports for a number, or its error; \<open>db_err\<close> the error of the
  query for a number, if it fails; \<open>tx_err\<close> the error of a transaction that is rolled back.
\<close>

subsection \<open>Common ancestor (processor\_reorg.go)\<close>

function ancestor_loop ::
    "(int \<Rightarrow> go_error + string) \<Rightarrow> (int \<Rightarrow> go_error option) \<Rightarrow> db \<Rightarrow> int \<Rightarrow> int \<Rightarrow> int list
      \<Rightarrow> go_error + int \<times> string \<times> int list" where
  "ancestor_loop rpc db_err d blockNum current toDelete =
     (if current > 0 \<and> blockNum - current \<le> 1000 then
        (case rpc current of
           Inl e \<Rightarrow> Inl (Wrapped ''failed to get block from RPC'' e)
         | Inr rpcHash \<Rightarrow>
             (case db_err current of
                Some e \<Rightarrow> Inl (Wrapped ''database error'' e)
              | None \<Rightarrow>
                  (case block_hash current d of
                     None \<Rightarrow> ancestor_loop rpc db_err d blockNum (current - 1) (toDelete @ [current])
                   | Some localHash \<Rightarrow>
                       if EqualFold localHash rpcHash then Inr (current, localHash, toDelete)
                       else ancestor_loop rpc db_err d blockNum (current - 1) (toDelete @ [current]))))
      else Inl (OtherError ''common ancestor not found''))"
  by pat_completeness auto
termination
  by (relation "measure (\<lambda>(rpc, e, d, n, c, del). nat c)") auto

declare ancestor_loop.simps [simp del]

definition FindCommonAncestor ::
    "(int \<Rightarrow> go_error + string) \<Rightarrow> (int \<Rightarrow> go_error option) \<Rightarrow> db \<Rightarrow> int \<Rightarrow> go_error + int \<times> string \<times> int list" where
  "FindCommonAncestor rpc db_err d blockNum = ancestor_loop rpc db_err d blockNum blockNum []"

text \<open>The loop that looks for the least number to delete.\<close>

definition min_delete :: "int list \<Rightarrow> int" where
  "min_delete del = fold (\<lambda>n m. if n < m then n else m) del (hd del)"

text \<open>The result: the tables, the argument of the dispatched \<open>CmdResetCursor\<close>, the ancestor or error.\<close>

definition HandleDeepReorg ::
    "(int \<Rightarrow> go_error + string) \<Rightarrow> (int \<Rightarrow> go_error option) \<Rightarrow> go_error option \<Rightarrow> int \<Rightarrow> db
      \<Rightarrow> db \<times> u64 option \<times> (go_error + int)" where
  "HandleDeepReorg rpc db_err tx_err blockNum d =
     (case FindCommonAncestor rpc db_err d blockNum of
        Inl e \<Rightarrow> (d, None, Inl (Wrapped ''failed to find common ancestor'' e))
      | Inr (ancestor, h, toDelete) \<Rightarrow>
          (case tx_err of
             Some e \<Rightarrow> (d, None, Inl (Wrapped ''reorg transaction'' e))
           | None \<Rightarrow>
               (let d1 = (if toDelete \<noteq> [] then delete_blocks_from (min_delete toDelete) d else d);
                    d2 = upsert_checkpoint 1 ancestor d1
                in (d2, Some (num_u64 ancestor), Inr ancestor))))"

subsection \<open>Checkpoint update (processor\_checkpoint.go)\<close>

text \<open>\<open>chain_height\<close> is \<open>metrics.lastChainHeight\<close>, \<open>status_ok\<close> whether the second statement works.\<close>

definition updateCheckpointInTx :: "int option \<Rightarrow> bool \<Rightarrow> int \<Rightarrow> int \<Rightarrow> db \<Rightarrow> db \<times> int" where
  "updateCheckpointInTx chain_height status_ok chain blockNumber d =
     (let synced = wrap_i64 blockNumber;
          height = (case chain_height of Some h \<Rightarrow> if h > 0 then h else synced | None \<Rightarrow> synced);
          lag0 = wrap_i64 (height - synced); lag = (if lag0 < 0 then 0 else lag0);
          d1 = upsert_checkpoint chain blockNumber d;
          d2 = (if status_ok
                then upsert_status chain
                       (case map_of (db_status d) chain of
                          None \<Rightarrow> \<lparr>st_last_synced = synced, st_latest_block = height, st_sync_lag = lag, st_last_processed = 0,
                                   st_rpc_provider = None, st_status = ''syncing'', st_error = None\<rparr>
                        | Some r \<Rightarrow> r\<lparr>st_last_synced := synced, st_latest_block := height, st_sync_lag := lag, st_status := ''syncing''\<rparr>) d1
                else d1)
      in (d2, synced))"

text \<open>\<open>UpdateCheckpoint\<close> runs it in a transaction of its own, which a failed statement aborts.\<close>

definition UpdateCheckpoint :: "go_error option \<Rightarrow> int option \<Rightarrow> bool \<Rightarrow> int \<Rightarrow> int \<Rightarrow> db \<Rightarrow> db \<times> go_error option" where
  "UpdateCheckpoint begin_err chain_height status_ok chain blockNumber d =
     (case begin_err of
        Some e \<Rightarrow> (d, Some (Wrapped ''failed to begin transaction'' e))
      | None \<Rightarrow>
          if status_ok then (fst (updateCheckpointInTx chain_height status_ok chain blockNumber d), None)
          else (d, Some (OtherError ''commit unexpectedly resulted in rollback'')))"

subsection \<open>Alignment (integrity.go, consistency.go)\<close>

definition AlignInfrastructure ::
    "go_error + int \<Rightarrow> go_error option \<Rightarrow> go_error option \<Rightarrow> go_error option \<Rightarrow> db \<Rightarrow> db \<times> go_error option" where
  "AlignInfrastructure rpcHeight db_err prune_err cursor_err d =
     (case rpcHeight of
        Inl e \<Rightarrow> (d, Some (Wrapped ''failed to get rpc height'' e))
      | Inr h \<Rightarrow>
          (case db_err of
             Some e \<Rightarrow> (d, Some (Wrapped ''failed to get db height'' e))
           | None \<Rightarrow>
               (let rpcH = wrap_i64 h; dbHeight = GetMaxStoredBlock d in
                if dbHeight > rpcH \<and> prune_err \<noteq> None
                then (d, Some (Wrapped ''critical pruning failure'' (the prune_err)))
                else
                  let d1 = (if dbHeight > rpcH then PruneFutureData rpcH d else d) in
                  if rpcH > dbHeight + 1000
                  then (case cursor_err of
                          Some e \<Rightarrow> (d1, Some e)
                        | None \<Rightarrow> (UpdateSyncCursor (rpcH - 1) d1, None))
                  else (d1, None))))"

datatype guard_effect = OnStatus string int | SetSyncHeight int | ForceCursors u64

definition PerformLinearityCheck ::
    "bool \<Rightarrow> go_error + int \<Rightarrow> go_error option \<Rightarrow> go_error option \<Rightarrow> go_error option \<Rightarrow> db
      \<Rightarrow> (db \<times> guard_effect list \<times> go_error option) go" where
  "PerformLinearityCheck demo chainHead db_err prune_err cursor_err d =
     (let e0 = [OnStatus ''CHECKING'' 0] in
      case chainHead of
        Inl e \<Rightarrow> Ret (d, e0, Some (Wrapped ''failed to get chain height'' e))
      | Inr h \<Rightarrow>
          (case db_err of
             Some e \<Rightarrow> Ret (d, e0, Some (Wrapped ''failed to get db height'' e))
           | None \<Rightarrow>
               (let head = wrap_i64 h; dbMax = GetMaxStoredBlock d in
                if dbMax > head \<and> prune_err \<noteq> None
                then Ret (d, e0 @ [OnStatus ''REPAIRING'' 50], Some (Wrapped ''pruning failed'' (the prune_err)))
                else
                  let (d1, e1) = (if dbMax > head
                                  then (Wrapper_PruneFutureData head d, e0 @ [OnStatus ''REPAIRING'' 50, SetSyncHeight head])
                                  else (d, e0));
                      gap = wrap_i64 (head - dbMax)
                  in if demo \<and> gap > 1000
                     then (case cursor_err of
                             Some e \<Rightarrow> Ret (d1, e1 @ [OnStatus ''LEAPING'' 75], Some (Wrapped ''leap-sync failed'' e))
                           | None \<Rightarrow>
                               if gap > 100000 then Panic
                               else Ret (Wrapper_UpdateSyncCursor (head - 1) d1,
                                      e1 @ [OnStatus ''LEAPING'' 75, ForceCursors (num_u64 h - 1), OnStatus ''ALIGNED'' 100], None))
                     else Ret (d1, e1 @ [OnStatus ''ALIGNED'' 100], None))))"

subsection \<open>Audit (reconciler.go)\<close>

datatype audit_finding = AuditMissing int | AuditMismatch int | AuditPassed int

definition auditBlock :: "(int \<Rightarrow> go_error + string) \<Rightarrow> db \<Rightarrow> int \<Rightarrow> audit_finding list" where
  "auditBlock rpc d n =
     (case rpc n of
        Inl e \<Rightarrow> []
      | Inr h \<Rightarrow>
          (case block_hash n d of
             None \<Rightarrow> [AuditMissing n]
           | Some h' \<Rightarrow> if h \<noteq> h' then [AuditMismatch n] else [AuditPassed n]))"

fun audit_loop :: "(int \<Rightarrow> go_error + string) \<Rightarrow> db \<Rightarrow> int \<Rightarrow> int \<Rightarrow> nat \<Rightarrow> nat \<Rightarrow> audit_finding list" where
  "audit_loop rpc d maxNum start i 0 = []"
| "audit_loop rpc d maxNum start i (Suc k) =
     (let checkNum = maxNum - int (i * 10) in
      if checkNum < start then [] else auditBlock rpc d checkNum @ audit_loop rpc d maxNum start (Suc i) k)"

definition performAudit :: "(int \<Rightarrow> go_error + string) \<Rightarrow> bool \<Rightarrow> int \<Rightarrow> db \<Rightarrow> audit_finding list" where
  "performAudit rpc query_ok lookback d =
     (let maxNum = GetMaxStoredBlock d in
      if \<not> query_ok \<or> maxNum = 0 then []
      else let start = (if maxNum - lookback < 0 then 0 else maxNum - lookback)
        in audit_loop rpc d maxNum start 0 5)"

subsection \<open>Lemmas\<close>

text \<open>The block \<open>k\<close> is not common: the node has it, the database has another one or none.\<close>

definition diverges :: "(int \<Rightarrow> go_error + string) \<Rightarrow> db \<Rightarrow> int \<Rightarrow> bool" where
  "diverges rpc d k \<longleftrightarrow> (\<exists>h. rpc k = Inr h \<and> (\<forall>l. block_hash k d = Some l \<longrightarrow> \<not> EqualFold l h))"

definition is_common :: "(int \<Rightarrow> go_error + string) \<Rightarrow> db \<Rightarrow> int \<Rightarrow> bool" where
  "is_common rpc d k \<longleftrightarrow> (\<exists>h l. rpc k = Inr h \<and> block_hash k d = Some l \<and> EqualFold l h)"

lemma ancestor_step:
  assumes "current > 0" "blockNum - current \<le> 1000" "rpc current = Inr h" "db_err current = None"
  shows "ancestor_loop rpc db_err d blockNum current del =
    (case block_hash current d of
       Some l \<Rightarrow> if EqualFold l h then Inr (current, l, del) else ancestor_loop rpc db_err d blockNum (current - 1) (del @ [current])
     | None \<Rightarrow> ancestor_loop rpc db_err d blockNum (current - 1) (del @ [current]))"
  using assms by (subst ancestor_loop.simps) (simp split: option.splits)

lemma ancestor_loop_sound:
  "ancestor_loop rpc db_err d blockNum current del = Inr (a, h, del') \<Longrightarrow>
     0 < a \<and> a \<le> current \<and> blockNum - a \<le> 1000 \<and> is_common rpc d a \<and> block_hash a d = Some h
     \<and> (\<forall>k. a < k \<and> k \<le> current \<longrightarrow> diverges rpc d k) \<and> del' = del @ rev [a + 1..current]"
proof (induction rpc db_err d blockNum current del rule: ancestor_loop.induct)
  case (1 rpc db_err d blockNum current del)
  from 1(3) obtain g where c: "current > 0" "blockNum - current \<le> 1000" "rpc current = Inr g" "db_err current = None"
    by (subst (asm) ancestor_loop.simps) (auto split: if_splits sum.splits option.splits)
  show ?case
  proof (cases "is_common rpc d current")
    case True
    then obtain l where l: "block_hash current d = Some l" "EqualFold l g" using c(3) by (auto simp: is_common_def)
    with 1(3) ancestor_step [of current blockNum rpc g db_err d del, OF c] have "a = current" "h = l" "del' = del" by auto
    with c l True show ?thesis by auto
  next
    case False
    then have step: "ancestor_loop rpc db_err d blockNum (current - 1) (del @ [current]) = Inr (a, h, del')"
      using 1(3) ancestor_step [of current blockNum rpc g db_err d del, OF c] c(3)
      by (auto simp: is_common_def split: option.splits if_splits)
    have ih: "0 < a \<and> a \<le> current - 1 \<and> blockNum - a \<le> 1000 \<and> is_common rpc d a \<and> block_hash a d = Some h
       \<and> (\<forall>k. a < k \<and> k \<le> current - 1 \<longrightarrow> diverges rpc d k) \<and> del' = (del @ [current]) @ rev [a + 1..current - 1]"
    proof (cases "block_hash current d")
      case None
      then show ?thesis using 1(1) [OF _ c(3,4) None step] c by blast
    next
      case (Some l)
      then have "\<not> EqualFold l g" using False c(3) by (auto simp: is_common_def)
      then show ?thesis using 1(2) [OF _ c(3,4) Some _ step] c by blast
    qed
    have "diverges rpc d current" using False c(3) by (auto simp: diverges_def is_common_def)
    moreover have "[a + 1..current] = [a + 1..current - 1] @ [current]" using ih by (simp add: upto_rec2)
    ultimately show ?thesis using ih by (auto simp: order.order_iff_strict)
  qed
qed

lemma ancestor_loop_complete:
  assumes "0 < a" and "blockNum - a \<le> 1000" and "is_common rpc d a"
    and "\<forall>k. a \<le> k \<and> k \<le> current \<longrightarrow> (\<exists>h. rpc k = Inr h) \<and> db_err k = None" and "a \<le> current"
  shows "\<exists>r. ancestor_loop rpc db_err d blockNum current del = Inr r"
  using assms(4,5)
proof (induction "nat (current - a)" arbitrary: current del)
  case 0
  then have "current = a" by simp
  moreover obtain h l where "rpc a = Inr h" "block_hash a d = Some l" "EqualFold l h"
    using assms(3) by (auto simp: is_common_def)
  ultimately show ?case
    using ancestor_step [of a blockNum rpc h db_err d del] assms(1,2) 0(2) by auto
next
  case (Suc n)
  obtain h where c: "rpc current = Inr h" "db_err current = None" using Suc.prems by blast
  have "\<exists>r. ancestor_loop rpc db_err d blockNum (current - 1) (del @ [current]) = Inr r"
    using Suc.hyps(2) Suc.prems by (intro Suc.hyps(1)) auto
  moreover have "current > 0" "blockNum - current \<le> 1000" using assms(1,2) Suc.prems(2) by auto
  ultimately show ?case
    using ancestor_step [of current blockNum rpc h db_err d del] c by (auto split: option.splits)
qed

lemma min_delete_eq: "del \<noteq> [] \<Longrightarrow> min_delete del = Min (set del)"
proof -
  assume "del \<noteq> []"
  then obtain x xs where del: "del = x # xs" by (cases del) auto
  have "fold (\<lambda>n m. if n < m then n else m) ys m = fold min ys (m :: int)" for ys m
    by (induction ys arbitrary: m) (auto simp: min_def)
  then show ?thesis using del by (simp add: min_delete_def Min.set_eq_fold [symmetric])
qed

lemma block_hash_delete: "block_hash k (delete_blocks_from n d) = (if k < n then block_hash k d else None)"
proof -
  have "find (\<lambda>r. br_number r = k) (filter (\<lambda>r. \<not> br_number r \<ge> n) rs) =
      (if k < n then find (\<lambda>r. br_number r = k) rs else None)" for rs
    by (induction rs) auto
  from this [of "db_blocks d"] show ?thesis unfolding block_hash_def delete_blocks_from_def by simp
qed

lemma block_hash_upsert [simp]: "block_hash k (upsert_checkpoint c n d) = block_hash k d"
  by (simp add: block_hash_def upsert_checkpoint_def)

subsection \<open>Properties\<close>

text \<open>
  (C4) Rolling back a reorganisation is exact and atomic. When \<open>HandleDeepReorg\<close> returns a number,
  it is the highest block at most 1000 below the trigger on which node and database agree; every
  stored block above it is gone with its transfers (when anything diverged), everything up to it
  is untouched, and the cursor is reset to it. When it returns an error, nothing has changed.
\<close>

theorem deep_reorg_rolls_back:
  assumes "HandleDeepReorg rpc db_err tx_err n d = (d', cursor, r)"
  shows "case r of
      Inl e \<Rightarrow> d' = d \<and> cursor = None
    | Inr a \<Rightarrow>
        0 < a \<and> a \<le> n \<and> n - a \<le> 1000 \<and> is_common rpc d a \<and> (\<forall>k. a < k \<and> k \<le> n \<longrightarrow> diverges rpc d k)
        \<and> cursor = Some (num_u64 a) \<and> (\<forall>k \<le> a. block_hash k d' = block_hash k d)
        \<and> (a < n \<longrightarrow> (\<forall>k > a. block_hash k d' = None) \<and> (\<forall>t \<in> set (db_transfers d'). tr_block_number t \<le> a))
        \<and> (a = n \<longrightarrow> db_blocks d' = db_blocks d \<and> db_transfers d' = db_transfers d)"
proof (cases r)
  case (Inl e)
  with assms show ?thesis
    by (auto simp: HandleDeepReorg_def Let_def split: sum.splits prod.splits option.splits)
next
  case (Inr a)
  with assms obtain h del where anc: "FindCommonAncestor rpc db_err d n = Inr (a, h, del)"
    and d': "d' = upsert_checkpoint 1 a (if del \<noteq> [] then delete_blocks_from (min_delete del) d else d)"
    and cur: "cursor = Some (num_u64 a)"
    by (auto simp: HandleDeepReorg_def Let_def split: sum.splits prod.splits option.splits)
  have s: "0 < a" "a \<le> n" "n - a \<le> 1000" "is_common rpc d a" "\<forall>k. a < k \<and> k \<le> n \<longrightarrow> diverges rpc d k"
      "del = rev [a + 1..n]"
    using ancestor_loop_sound [of rpc db_err d n n "[]" a h del] anc by (auto simp: FindCommonAncestor_def)
  show ?thesis
  proof (cases "a < n")
    case True
    then have "del \<noteq> []" "Min (set del) = a + 1" using s(6) by (auto intro!: Min_eqI)
    then have "d' = upsert_checkpoint 1 a (delete_blocks_from (a + 1) d)" using d' by (simp add: min_delete_eq)
    then have "\<forall>k. block_hash k d' = (if k < a + 1 then block_hash k d else None)"
        "\<forall>t \<in> set (db_transfers d'). tr_block_number t \<le> a"
      by (simp_all add: block_hash_delete) (simp add: upsert_checkpoint_def delete_blocks_from_def)
    with Inr s cur True show ?thesis by auto
  next
    case False
    with s have "a = n" "del = []" by auto
    moreover have "db_blocks (upsert_checkpoint 1 n d) = db_blocks d" "db_transfers (upsert_checkpoint 1 n d) = db_transfers d"
      by (simp_all add: upsert_checkpoint_def)
    ultimately show ?thesis using d' Inr s cur by auto
  qed
qed

definition sample_chain :: "int \<Rightarrow> go_error + string" where
  "sample_chain k = Inr (if k \<le> 6 then ''0xAA'' else ''0xBB'')"

definition sample_db :: db where
  "sample_db =
     empty_db\<lparr>db_blocks := map (\<lambda>k. (block_row (sample_model_block k))\<lparr>br_hash := ''0xaa''\<rparr>) [5, 6, 7, 8],
              db_checkpoints := [(1, 8), (31337, 8)]\<rparr>"

lemma sample_reorg: "HandleDeepReorg sample_chain (\<lambda>_. None) None 8 sample_db =
  (upsert_checkpoint 1 6 (delete_blocks_from 7 sample_db), Some (num_u64 6), Inr 6)"
proof -
  have eq: "EqualFold ''0xaa'' ''0xAA''" "\<not> EqualFold ''0xaa'' ''0xBB''" by code_simp+
  have h: "block_hash 8 sample_db = Some ''0xaa''" "block_hash 7 sample_db = Some ''0xaa''" "block_hash 6 sample_db = Some ''0xaa''"
    by (simp_all add: block_hash_def sample_db_def block_row_def sample_model_block_def empty_db_def)
  have "ancestor_loop sample_chain (\<lambda>_. None) sample_db 8 8 [] = Inr (6, ''0xaa'', [8, 7])"
    using ancestor_step [of 8 8 sample_chain "''0xBB''" "\<lambda>_. None" sample_db "[]"]
      ancestor_step [of 7 8 sample_chain "''0xBB''" "\<lambda>_. None" sample_db "[8]"]
      ancestor_step [of 6 8 sample_chain "''0xAA''" "\<lambda>_. None" sample_db "[8, 7]"]
    by (simp add: sample_chain_def h eq)
  then show ?thesis by (simp add: HandleDeepReorg_def FindCommonAncestor_def min_delete_def)
qed

theorem deep_reorg_rolls_back_witness:
  "let d' = fst (HandleDeepReorg sample_chain (\<lambda>_. None) None 8 sample_db)
   in block_hash 6 d' = block_hash 6 sample_db \<and> block_hash 7 d' = None"
  using deep_reorg_rolls_back [OF sample_reorg] by (simp add: sample_reorg Let_def)



text \<open>
  The rollback writes the checkpoint of chain 1 whatever the chain: on every other network
  the checkpoint still points at the abandoned height after a successful reorganisation.
\<close>

lemma deep_reorg_leaves_other_checkpoints:
  assumes "HandleDeepReorg rpc db_err tx_err n d = (d', cursor, r)" and "chain \<noteq> 1"
  shows "map_of (db_checkpoints d') chain = map_of (db_checkpoints d) chain"
  using assms
  by (auto simp: HandleDeepReorg_def Let_def upsert_checkpoint_def delete_blocks_from_def update_conv'
      split: sum.splits prod.splits option.splits if_splits)

lemma max_stored_bound:
  assumes "0 \<le> n"
  shows "GetMaxStoredBlock (delete_blocks_from (n + 1) d) \<le> n"
proof (cases "db_blocks (delete_blocks_from (n + 1) d) = []")
  case True
  with assms show ?thesis by (simp add: GetMaxStoredBlock_def)
next
  case False
  have "\<forall>k \<in> br_number ` set (db_blocks (delete_blocks_from (n + 1) d)). k \<le> n" by (auto simp: delete_blocks_from_def)
  with False show ?thesis by (simp add: GetMaxStoredBlock_def)
qed

lemma max_stored_cong: "db_blocks d' = db_blocks d \<Longrightarrow> GetMaxStoredBlock d' = GetMaxStoredBlock d"
  by (simp add: GetMaxStoredBlock_def)

text \<open>
  After a successful alignment no stored block lies above the chain head, so the database
  never remembers a chain that was reset; tables that were not ahead keep all their blocks.
\<close>

lemma alignment_prunes_future:
  assumes "AlignInfrastructure (Inr h) db_err prune_err cursor_err d = (d', None)" and "0 \<le> h" and "h \<le> max_i64"
  shows "GetMaxStoredBlock d' \<le> h \<and> (GetMaxStoredBlock d \<le> h \<longrightarrow> db_blocks d' = db_blocks d)"
proof -
  have w: "wrap_i64 h = h" using assms(2,3) by (simp add: wrap_i64_id min_i64_def)
  show ?thesis
  proof (cases "GetMaxStoredBlock d > h")
    case True
    with assms(1) w have "d' = PruneFutureData h d"
      by (auto simp: AlignInfrastructure_def Let_def split: option.splits if_splits)
    then have "GetMaxStoredBlock d' = GetMaxStoredBlock (delete_blocks_from (h + 1) d)"
      by (intro max_stored_cong) (simp add: PruneFutureData_def set_all_checkpoints_def)
    with True show ?thesis using max_stored_bound [OF assms(2), of d] by simp
  next
    case False
    with assms(1) w have "db_blocks d' = db_blocks d"
      by (auto simp: AlignInfrastructure_def Let_def UpdateSyncCursor_def set_all_checkpoints_def split: option.splits if_splits)
    with False max_stored_cong [OF this] show ?thesis by simp
  qed
qed

text \<open>
  The alignment jumps over unsynchronised blocks on every network: when the head is more
  than 1000 blocks ahead of the database, every checkpoint is set to the block before the head
  although no block in between is stored. No demo mode is consulted.
\<close>

lemma alignment_skips_large_gap:
  assumes "GetMaxStoredBlock d + 1000 < h" and "0 \<le> GetMaxStoredBlock d" and "h \<le> max_i64"
    and "AlignInfrastructure (Inr h) None prune_err None d = (d', r)"
  shows "r = None \<and> db_blocks d' = db_blocks d \<and> (\<forall>(c, n) \<in> set (db_checkpoints d'). n = h - 1)"
proof -
  have "wrap_i64 h = h" using assms(1-3) by (simp add: wrap_i64_id min_i64_def)
  with assms show ?thesis
    by (auto simp: AlignInfrastructure_def Let_def UpdateSyncCursor_def set_all_checkpoints_def split: if_splits)
qed

end
