(* ===== verification/Hot_Buffer.thy ===== *)
theory Hot_Buffer
  imports Models "HOL-Library.Sublist"
begin

section \<open>The in-memory pool of recent transfers (internal/engine/hot_buffer.go)\<close>

text \<open>
  A bounded list of the newest transfers, oldest first. When it grows past \<open>maxSize\<close> the
  oldest tenth is dropped at once; \<open>GetLatest\<close> copies the tail and reverses it in place.
\<close>

record HotBuffer =
  transfers :: "Transfer list"
  maxSize :: int

definition NewHotBuffer :: "int \<Rightarrow> HotBuffer" where
  "NewHotBuffer sz = \<lparr>transfers = [], maxSize = (if sz \<le> 0 then 50000 else sz)\<rparr>"

definition addLocked :: "Transfer \<Rightarrow> HotBuffer \<Rightarrow> HotBuffer" where
  "addLocked t b =
     (let ts = transfers b @ [t] in
      if int (length ts) > maxSize b
      then b\<lparr>transfers := drop (nat (maxSize b div 10)) ts\<rparr>
      else b\<lparr>transfers := ts\<rparr>)"

definition Add :: "Transfer \<Rightarrow> HotBuffer \<Rightarrow> HotBuffer" where
  "Add t b = addLocked t b"

fun WriteTransfers :: "Transfer list \<Rightarrow> HotBuffer \<Rightarrow> HotBuffer" where
  "WriteTransfers [] b = b"
| "WriteTransfers (t # ts) b = WriteTransfers ts (addLocked t b)"

definition WriteBlocks :: "Block list \<Rightarrow> HotBuffer \<Rightarrow> HotBuffer" where
  "WriteBlocks bs b = b"

text \<open>The loop \<open>for i, j := 0, len-1; i < j; i, j = i+1, j-1\<close> with its swap.\<close>

function reverse_loop :: "nat \<Rightarrow> int \<Rightarrow> 'a list \<Rightarrow> 'a list" where
  "reverse_loop i j xs =
     (if int i < j then reverse_loop (Suc i) (j - 1) (xs[i := xs ! nat j, nat j := xs ! i]) else xs)"
  by pat_completeness auto
termination
  by (relation "measure (\<lambda>(i, j, xs). nat (j - int i))") auto

declare reverse_loop.simps [simp del]

definition GetLatest :: "int \<Rightarrow> HotBuffer \<Rightarrow> Transfer list go" where
  "GetLatest limit b =
     (let n = int (length (transfers b)) in
      if n = 0 then Ret []
      else let l = (if limit > n then n else limit) in
        if l < 0 then Panic
        else let result = drop (nat (n - l)) (transfers b) in
          Ret (reverse_loop 0 (int (length result) - 1) result))"

definition GetCount :: "HotBuffer \<Rightarrow> nat" where
  "GetCount b = length (transfers b)"

subsection \<open>The swap loop reverses\<close>

lemma length_reverse_loop: "length (reverse_loop i j xs) = length xs"
proof (induction i j xs rule: reverse_loop.induct)
  case (1 i j xs)
  then show ?case by (cases "int i < j") (simp_all add: reverse_loop.simps [of i j xs])
qed

lemma reverse_loop_nth:
  assumes "int i + j + 1 = int (length xs)" and "k < length xs"
  shows "reverse_loop i j xs ! k =
    (if i \<le> k \<and> int k \<le> j then xs ! (length xs - 1 - k) else xs ! k)"
  using assms
proof (induction i j xs arbitrary: k rule: reverse_loop.induct)
  case (1 i j xs)
  show ?case
  proof (cases "int i < j")
    case True
    let ?ys = "xs[i := xs ! nat j, nat j := xs ! i]"
    have j: "nat j = length xs - 1 - i" and ij: "i < nat j" "nat j < length xs"
      using True 1(2) by linarith+
    have "reverse_loop (Suc i) (j - 1) ?ys ! k =
        (if Suc i \<le> k \<and> int k \<le> j - 1 then ?ys ! (length ?ys - 1 - k) else ?ys ! k)"
      using 1(1) [OF True, of k] 1(2,3) by simp
    then have step: "reverse_loop i j xs ! k =
        (if Suc i \<le> k \<and> int k \<le> j - 1 then ?ys ! (length xs - 1 - k) else ?ys ! k)"
      using True by (simp add: reverse_loop.simps [of i j xs])
    consider "k = i" | "k = nat j" | "k \<noteq> i" "k \<noteq> nat j" by blast
    then show ?thesis
    proof cases
      case 1
      with step ij j True show ?thesis by simp
    next
      case 2
      then have "length xs - 1 - k = i" using ij j by linarith
      with 2 step ij True show ?thesis by simp
    next
      case 3
      then have "length xs - 1 - k \<noteq> i" "length xs - 1 - k \<noteq> nat j"
        using "1.prems" ij j by linarith+
      moreover have "(Suc i \<le> k \<and> int k \<le> j - 1) = (i \<le> k \<and> int k \<le> j)"
        using 3 by linarith
      ultimately show ?thesis using step 3 by simp
    qed
  next
    case False
    have "k = length xs - 1 - k" if "i \<le> k" "int k \<le> j"
      using that False 1(2,3) by linarith
    with False show ?thesis
      by (auto simp: reverse_loop.simps [of i j xs])
  qed
qed

lemma reverse_loop_rev: "reverse_loop 0 (int (length xs) - 1) xs = rev xs"
proof (rule nth_equalityI)
  show "length (reverse_loop 0 (int (length xs) - 1) xs) = length (rev xs)"
    by (simp add: length_reverse_loop)
next
  fix k assume "k < length (reverse_loop 0 (int (length xs) - 1) xs)"
  then have k: "k < length xs" by (simp add: length_reverse_loop)
  then show "reverse_loop 0 (int (length xs) - 1) xs ! k = rev xs ! k"
    using reverse_loop_nth [of 0 "int (length xs) - 1" xs k] by (simp add: rev_nth)
qed

lemma GetLatest_eq:
  "0 \<le> limit \<Longrightarrow> GetLatest limit b = Ret (take (nat limit) (rev (transfers b)))"
  by (auto simp: GetLatest_def Let_def reverse_loop_rev rev_drop nat_diff_distrib' min_def)

subsection \<open>Bound and freshness\<close>

text \<open>
  \<open>covers h b\<close>: the pool is a suffix of the history \<open>h\<close> of everything written, and either
  nothing was dropped yet or more than nine tenths of \<open>maxSize\<close> remain.
\<close>

definition covers :: "Transfer list \<Rightarrow> HotBuffer \<Rightarrow> bool" where
  "covers h b \<longleftrightarrow> suffix (transfers b) h
     \<and> (transfers b = h \<or> int (length (transfers b)) > maxSize b - maxSize b div 10)"

lemma maxSize_addLocked [frames, simp]: "maxSize (addLocked t b) = maxSize b"
  by (simp add: addLocked_def Let_def)

lemma maxSize_WriteTransfers [frames, simp]: "maxSize (WriteTransfers ts b) = maxSize b"
  by (induction ts b rule: WriteTransfers.induct) simp_all

lemma addLocked_bound:
  "10 \<le> maxSize b \<Longrightarrow> int (length (transfers b)) \<le> maxSize b
    \<Longrightarrow> int (length (transfers (addLocked t b))) \<le> maxSize b"
  by (auto simp: addLocked_def Let_def)

lemma WriteTransfers_bound:
  "10 \<le> maxSize b \<Longrightarrow> int (length (transfers b)) \<le> maxSize b
    \<Longrightarrow> int (length (transfers (WriteTransfers ts b))) \<le> maxSize b"
  by (induction ts b rule: WriteTransfers.induct) (simp_all add: addLocked_bound)

lemma addLocked_covers:
  assumes "covers h b" and "0 < maxSize b"
  shows "covers (h @ [t]) (addLocked t b)"
proof (cases "int (length (transfers b @ [t])) > maxSize b")
  case True
  let ?d = "nat (maxSize b div 10)"
  have eq: "transfers (addLocked t b) = drop ?d (transfers b @ [t])"
    using True by (simp add: addLocked_def)
  have "suffix (drop ?d (transfers b @ [t])) (h @ [t])"
    using assms(1) suffix_drop suffix_order.trans by (fastforce simp: covers_def)
  moreover have "int (length (drop ?d (transfers b @ [t]))) > maxSize b - maxSize b div 10"
    using True assms(2) by simp
  ultimately show ?thesis by (simp add: covers_def eq)
next
  case False
  with assms show ?thesis by (auto simp: covers_def addLocked_def)
qed

lemma WriteTransfers_covers:
  "covers h b \<Longrightarrow> 0 < maxSize b \<Longrightarrow> covers (h @ ts) (WriteTransfers ts b)"
proof (induction ts b arbitrary: h rule: WriteTransfers.induct)
  case (2 t ts b)
  then show ?case using addLocked_covers [of h b t] 2(1) [of "h @ [t]"] by simp
qed simp

lemma covers_take:
  assumes "covers h b" and "int k \<le> maxSize b - maxSize b div 10"
  shows "take k (rev (transfers b)) = take k (rev h)"
proof -
  obtain p where h: "h = p @ transfers b"
    using assms(1) by (auto simp: covers_def suffix_def)
  show ?thesis
    using assms h by (auto simp: covers_def)
qed

lemma covers_new: "covers [] (NewHotBuffer sz)"
  by (simp add: covers_def NewHotBuffer_def)


definition sample_transfer :: "u64 \<Rightarrow> Transfer" where
  "sample_transfer i =
     \<lparr>BlockNumber = 1, TxHash = ''t'', LogIndex = i, From = [], To = [], TokenAddress = [], Symbol = [], Type = [], Amount = 0\<rparr>"


text \<open>
  A pool of one to nine entries is not bounded at all: a tenth of its size is zero, so the
  cut that should make room drops nothing and the pool keeps every transfer ever written.
\<close>

lemma small_hot_buffer_unbounded:
  assumes "1 \<le> sz" and "sz \<le> 9"
  shows "GetCount (WriteTransfers ts (NewHotBuffer sz)) = length ts"
proof -
  have add: "transfers (addLocked t b) = transfers b @ [t]" if "maxSize b div 10 = 0" for t b
    using that by (simp add: addLocked_def Let_def)
  have "transfers (WriteTransfers ts b) = transfers b @ ts" if "maxSize b div 10 = 0" for b
    using that by (induction ts b rule: WriteTransfers.induct) (simp_all add: add)
  from this [of "NewHotBuffer sz"] assms show ?thesis by (simp add: GetCount_def NewHotBuffer_def)
qed

end
