(* ===== verification/Limiter.thy ===== *)
theory Limiter
  imports Go_Utils
begin

section \<open>Rate limiting (internal/limiter)\<close>

text \<open>
  The capped limiter of the fetcher (rate\_limiter.go) and the sliding-window limiter
  (sliding\_window.go). The token bucket behind the first is \<open>golang.org/x/time/rate\<close>; only its
  two parameters are kept. The window limiter stores the time stamps of the admitted requests in
  a ring; the model keeps ring, head and count, and the abstraction \<open>admitted\<close> reads the queue
  off it. Thresholds and fractions, \<open>float64\<close> in the code, are exact rationals.
\<close>

subsection \<open>The capped limiter (rate\_limiter.go)\<close>

definition MaxSafetyRPS :: int where "MaxSafetyRPS = 3"
definition LocalMaxRPS :: int where "LocalMaxRPS = 500"
definition BurstMultiplier :: int where "BurstMultiplier = 10"

text \<open>\<open>env\<close> is \<open>os.Getenv\<close>: the empty text for a variable that is not set.\<close>

definition isLocalEnvironment :: "(string \<Rightarrow> string) \<Rightarrow> bool" where
  "isLocalEnvironment env =
     list_ex (\<lambda>v. env v \<noteq> [] \<and>
        (contains (env v) ''localhost'' \<or> contains (env v) ''127.0.0.1'' \<or> contains (env v) ''anvil''))
       [''RPC_URLS'', ''RPC_URL'', ''DATABASE_URL'']"

record RateLimiter =
  rl_rate :: int
  rl_bucket :: int
  maxRPS :: int

definition NewRateLimiter :: "(string \<Rightarrow> string) \<Rightarrow> int \<Rightarrow> RateLimiter" where
  "NewRateLimiter env envRPS =
     (let maxAllowed = (if isLocalEnvironment env then LocalMaxRPS else MaxSafetyRPS);
          rps = (if envRPS > 0 \<and> envRPS \<le> maxAllowed then envRPS else maxAllowed);
          burst = (if rps * BurstMultiplier < 1 then 1 else rps * BurstMultiplier)
      in \<lparr>rl_rate = rps, rl_bucket = burst, maxRPS = rps\<rparr>)"

subsection \<open>The window limiter (sliding\_window.go)\<close>

record SlidingWindowLimiter =
  sw_window :: duration
  sw_limit :: nat
  timestamps :: "time list"
  sw_head :: nat
  sw_count :: nat
  ecoThreshold :: rat
  balancedThreshold :: rat

text \<open>\<open>make\<close> panics for a negative length; the zero \<open>time.Time\<close> of a fresh slot is never read.\<close>

definition NewSlidingWindowLimiter :: "int \<Rightarrow> duration \<Rightarrow> SlidingWindowLimiter go" where
  "NewSlidingWindowLimiter limit window =
     (if limit < 0 then Panic
      else Ret \<lparr>sw_window = window, sw_limit = nat limit, timestamps = replicate (nat limit) 0,
             sw_head = 0, sw_count = 0, ecoThreshold = 80 / 100, balancedThreshold = 50 / 100\<rparr>)"

definition SetThresholds :: "rat \<Rightarrow> rat \<Rightarrow> SlidingWindowLimiter \<Rightarrow> SlidingWindowLimiter" where
  "SetThresholds balanced eco s = s\<lparr>balancedThreshold := balanced, ecoThreshold := eco\<rparr>"

fun evict_loop :: "time \<Rightarrow> time list \<Rightarrow> nat \<Rightarrow> nat \<Rightarrow> nat \<Rightarrow> nat \<times> nat" where
  "evict_loop cutoff ts limit h 0 = (h, 0)"
| "evict_loop cutoff ts limit h (Suc c) =
     (if ts ! h < cutoff then evict_loop cutoff ts limit ((h + 1) mod limit) c else (h, Suc c))"

definition evict :: "time \<Rightarrow> SlidingWindowLimiter \<Rightarrow> SlidingWindowLimiter" where
  "evict now s =
     (let (h, c) = evict_loop (now - sw_window s) (timestamps s) (sw_limit s) (sw_head s) (sw_count s)
      in s\<lparr>sw_head := h, sw_count := c\<rparr>)"

definition record_request :: "time \<Rightarrow> SlidingWindowLimiter \<Rightarrow> SlidingWindowLimiter" where
  "record_request now s =
     (let tail = (sw_head s + sw_count s) mod sw_limit s
      in s\<lparr>timestamps := (timestamps s)[tail := now], sw_count := sw_count s + 1\<rparr>)"

definition Allow :: "time \<Rightarrow> SlidingWindowLimiter \<Rightarrow> SlidingWindowLimiter \<times> bool" where
  "Allow now s =
     (let s1 = evict now s in
      if sw_count s1 \<ge> sw_limit s1 then (s1, False) else (record_request now s1, True))"

text \<open>
  \<open>Wait\<close>: \<open>now i\<close> is the clock in round \<open>i\<close>, \<open>ctx_done i\<close> the error of the context when it fires
  during the pause of that round. The result is \<open>None\<close> while all of the \<open>n\<close> rounds were pauses; the
  read of the oldest stamp panics when the ring has no slot.
\<close>

fun Wait_rounds ::
    "(nat \<Rightarrow> time) \<Rightarrow> (nat \<Rightarrow> go_error option) \<Rightarrow> nat \<Rightarrow> nat \<Rightarrow> SlidingWindowLimiter
      \<Rightarrow> (SlidingWindowLimiter \<times> go_error option) go option" where
  "Wait_rounds now ctx_done i 0 s = None"
| "Wait_rounds now ctx_done i (Suc n) s =
     (let s1 = evict (now i) s in
      if sw_count s1 < sw_limit s1 then Some (Ret (record_request (now i) s1, None))
      else if sw_head s1 \<ge> length (timestamps s1) then Some Panic
      else let waitUntil = timestamps s1 ! sw_head s1 + sw_window s1 in
           if waitUntil - now i \<le> 0 then Wait_rounds now ctx_done (Suc i) n s1
           else case ctx_done i of
                  Some e \<Rightarrow> Some (Ret (s1, Some e))
                | None \<Rightarrow> Wait_rounds now ctx_done (Suc i) n s1)"

definition QuotaUsed :: "time \<Rightarrow> SlidingWindowLimiter \<Rightarrow> SlidingWindowLimiter \<times> nat" where
  "QuotaUsed now s = (let s1 = evict now s in (s1, sw_count s1))"

definition QuotaRemaining :: "time \<Rightarrow> SlidingWindowLimiter \<Rightarrow> SlidingWindowLimiter \<times> int" where
  "QuotaRemaining now s = (let s1 = evict now s in (s1, int (sw_limit s1) - int (sw_count s1)))"

definition UsageFraction :: "time \<Rightarrow> SlidingWindowLimiter \<Rightarrow> SlidingWindowLimiter \<times> rat" where
  "UsageFraction now s =
     (let s1 = evict now s in
      (s1, if sw_limit s1 = 0 then 1 else of_nat (sw_count s1) / of_nat (sw_limit s1)))"

datatype ThrottleMode = ThrottleAggressive | ThrottleBalanced | ThrottleEco

definition CurrentMode :: "time \<Rightarrow> SlidingWindowLimiter \<Rightarrow> SlidingWindowLimiter \<times> ThrottleMode" where
  "CurrentMode now s =
     (let (s1, fraction) = UsageFraction now s in
      (s1, if fraction \<ge> ecoThreshold s1 then ThrottleEco
           else if fraction \<ge> balancedThreshold s1 then ThrottleBalanced
           else ThrottleAggressive))"

definition RecommendedRPS :: "time \<Rightarrow> rat \<Rightarrow> SlidingWindowLimiter \<Rightarrow> SlidingWindowLimiter \<times> rat" where
  "RecommendedRPS now max_rps s =
     (let (s1, fraction) = UsageFraction now s in
      (s1, if fraction \<ge> ecoThreshold s1 then max_rps * (10 / 100)
           else if fraction \<ge> balancedThreshold s1
           then max_rps * (1 - (fraction - balancedThreshold s1) / (ecoThreshold s1 - balancedThreshold s1) * (90 / 100))
           else max_rps))"

definition WindowResetIn :: "time \<Rightarrow> SlidingWindowLimiter \<Rightarrow> SlidingWindowLimiter \<times> duration" where
  "WindowResetIn now s =
     (let s1 = evict now s in
      (s1, if sw_count s1 = 0 then 0 else timestamps s1 ! sw_head s1 + sw_window s1 - now))"

subsection \<open>The contract of a window limiter\<close>

text \<open>A sequence of admission requests, with the times of those admitted.\<close>

fun admit_run :: "('t \<Rightarrow> 's \<Rightarrow> 's \<times> bool) \<Rightarrow> 't list \<Rightarrow> 's \<Rightarrow> 's \<times> 't list" where
  "admit_run allow [] s = (s, [])"
| "admit_run allow (t # ts) s =
     (let (s1, ok) = allow t s; (s2, as) = admit_run allow ts s1
      in (s2, if ok then t # as else as))"

locale sliding_window =
  fixes wf :: "'s \<Rightarrow> bool" and queue :: "'s \<Rightarrow> int list" and allow :: "int \<Rightarrow> 's \<Rightarrow> 's \<times> bool"
    and window :: int and limit :: nat
  assumes allow_wf: "wf s \<Longrightarrow> wf (fst (allow now s))"
    and allow_iff: "wf s \<Longrightarrow> snd (allow now s) \<longleftrightarrow> length (dropWhile (\<lambda>t. t < now - window) (queue s)) < limit"
    and allow_queue: "wf s \<Longrightarrow> queue (fst (allow now s)) =
      dropWhile (\<lambda>t. t < now - window) (queue s) @ (if snd (allow now s) then [now] else [])"
begin

definition admissible :: "int list \<Rightarrow> int \<Rightarrow> 's \<Rightarrow> bool" where
  "admissible past now s \<longleftrightarrow> wf s
     \<and> (\<exists>gone. past = gone @ queue s \<and> (\<forall>t \<in> set gone. t < now - window)) \<and> (\<forall>t \<in> set past. t \<le> now)
     \<and> (\<forall>u. length (filter (\<lambda>t. u \<le> t \<and> t \<le> u + window) past) \<le> limit)"

lemma admissible_allow:
  assumes "admissible past now0 s" and "now0 \<le> now" and "allow now s = (s1, ok)"
  shows "admissible (past @ (if ok then [now] else [])) now s1"
proof -
  let ?old = "\<lambda>t. t < now - window" and ?live = "dropWhile (\<lambda>t. t < now - window) (queue s)"
  from assms(1) obtain gone where wf: "wf s" and past: "past = gone @ queue s"
    and gone: "\<forall>t \<in> set gone. t < now0 - window" and le: "\<forall>t \<in> set past. t \<le> now0"
    and bound: "\<And>u. length (filter (\<lambda>t. u \<le> t \<and> t \<le> u + window) past) \<le> limit"
    unfolding admissible_def by blast
  from allow_queue [OF wf, of now] allow_iff [OF wf, of now] allow_wf [OF wf, of now] assms(3)
  have q: "queue s1 = ?live @ (if ok then [now] else [])" and ok: "ok \<longleftrightarrow> length ?live < limit" and wf1: "wf s1"
    by simp_all
  define gone' where "gone' = gone @ takeWhile ?old (queue s)"
  have split: "past = gone' @ ?live" by (simp add: gone'_def past)
  have gone': "\<forall>t \<in> set gone'. ?old t"
    using gone assms(2) by (fastforce simp: gone'_def dest: set_takeWhileD)
  have "length (filter (\<lambda>t. u \<le> t \<and> t \<le> u + window) (past @ [now])) \<le> limit" if ok for u
  proof (cases "u \<le> now \<and> now \<le> u + window")
    case True
    then have "filter (\<lambda>t. u \<le> t \<and> t \<le> u + window) gone' = []"
      using gone' by (fastforce simp: filter_empty_conv)
    moreover have "length (filter (\<lambda>t. u \<le> t \<and> t \<le> u + window) ?live) < limit"
      using \<open>ok\<close> ok length_filter_le le_less_trans by blast
    ultimately show ?thesis unfolding split using True by simp
  next
    case False
    with bound [of u] show ?thesis by auto
  qed
  with bound have "\<forall>u. length (filter (\<lambda>t. u \<le> t \<and> t \<le> u + window) (past @ (if ok then [now] else []))) \<le> limit"
    by simp
  moreover have "past @ (if ok then [now] else []) = gone' @ queue s1" by (simp add: split q)
  moreover have "\<forall>t \<in> set (past @ (if ok then [now] else [])). t \<le> now" using le assms(2) by auto
  ultimately show ?thesis using wf1 gone' unfolding admissible_def by blast
qed

lemma admit_run_admissible:
  assumes "admissible past now0 s" and "sorted (now0 # ts)" and "admit_run allow ts s = (s', as)"
  shows "\<exists>now. admissible (past @ as) now s'"
  using assms
proof (induction ts arbitrary: past now0 s as)
  case (Cons t ts)
  obtain s1 ok where a: "allow t s = (s1, ok)" by fastforce
  obtain s2 bs where r: "admit_run allow ts s1 = (s2, bs)" by fastforce
  have "admissible (past @ (if ok then [t] else [])) t s1"
    using Cons.prems(1,2) by (intro admissible_allow [OF _ _ a]) auto
  moreover have "s2 = s'" "as = (if ok then [t] else []) @ bs" using Cons.prems(3) a r by auto
  ultimately show ?case using Cons.IH [of "past @ (if ok then [t] else [])" t s1 bs] Cons.prems(2) r by auto
qed auto

lemma window_bound:
  assumes "wf s" and "queue s = []" and "sorted ts" and "admit_run allow ts s = (s', as)"
  shows "length (filter (\<lambda>t. u \<le> t \<and> t \<le> u + window) as) \<le> limit"
proof (cases ts)
  case (Cons t ts')
  have "admissible [] t s" using assms(1,2) by (simp add: admissible_def)
  from admit_run_admissible [OF this _ assms(4)] assms(3) Cons show ?thesis
    unfolding admissible_def by (auto simp: dest: spec [of _ u])
qed (use assms(4) in simp)

end

subsection \<open>The ring fulfils the contract\<close>

definition ring :: "time list \<Rightarrow> nat \<Rightarrow> nat \<Rightarrow> nat \<Rightarrow> time list" where
  "ring ts limit h c = map (\<lambda>k. ts ! ((h + k) mod limit)) [0..<c]"

definition admitted :: "SlidingWindowLimiter \<Rightarrow> time list" where
  "admitted s = ring (timestamps s) (sw_limit s) (sw_head s) (sw_count s)"

definition limiter_wf :: "nat \<Rightarrow> duration \<Rightarrow> SlidingWindowLimiter \<Rightarrow> bool" where
  "limiter_wf limit window s \<longleftrightarrow> sw_limit s = limit \<and> sw_window s = window \<and> length (timestamps s) = limit
     \<and> sw_count s \<le> limit \<and> (0 < limit \<longrightarrow> sw_head s < limit)"

lemma length_ring [simp]: "length (ring ts limit h c) = c"
  by (simp add: ring_def)

lemma length_admitted [simp]: "length (admitted s) = sw_count s"
  by (simp add: admitted_def)

lemma ring_Suc: "h < limit \<Longrightarrow> ring ts limit h (Suc c) = ts ! h # ring ts limit ((h + 1) mod limit) c"
  unfolding ring_def by (simp add: map_upt_Suc mod_simps del: upt_Suc)

lemma evict_loop_dropWhile:
  assumes "h < limit" and "evict_loop cutoff ts limit h c = (h', c')"
  shows "h' < limit \<and> ring ts limit h' c' = dropWhile (\<lambda>t. t < cutoff) (ring ts limit h c)"
  using assms
proof (induction c arbitrary: h)
  case (Suc c)
  from Suc.prems(1) have "Suc h mod limit < limit" by simp
  with Suc.prems Suc.IH [of "Suc h mod limit"] show ?case by (auto simp: ring_Suc split: if_splits)
qed (simp add: ring_def)

lemma evict_loop_count: "evict_loop cutoff ts limit h c = (h', c') \<Longrightarrow> c' \<le> c \<and> (c' = c \<longrightarrow> h' = h)"
  by (induction c arbitrary: h) (fastforce split: if_splits)+

lemma ring_record:
  assumes "c < limit" and "length ts = limit"
  shows "ring (ts[(h + c) mod limit := now]) limit h (c + 1) = ring ts limit h c @ [now]"
proof -
  have "(h + c) mod limit \<noteq> (h + k) mod limit" if "k < c" for k
  proof
    assume "(h + c) mod limit = (h + k) mod limit"
    then have "(h + c - (h + k)) mod limit = 0" using that by (metis add_le_cancel_left less_imp_le mod_eq_dvd_iff_nat dvd_eq_mod_eq_0)
    with that assms(1) show False by simp
  qed
  then have "map (\<lambda>k. ts[(h + c) mod limit := now] ! ((h + k) mod limit)) [0..<c] = map (\<lambda>k. ts ! ((h + k) mod limit)) [0..<c]"
    by (auto simp: nth_list_update_neq)
  moreover have "(h + c) mod limit < length ts" using assms by simp
  ultimately show ?thesis by (simp add: ring_def)
qed

lemma evict_admitted:
  assumes "limiter_wf limit window s"
  shows "limiter_wf limit window (evict now s)
    \<and> admitted (evict now s) = dropWhile (\<lambda>t. t < now - window) (admitted s)
    \<and> timestamps (evict now s) = timestamps s"
proof -
  obtain h c where e: "evict_loop (now - sw_window s) (timestamps s) (sw_limit s) (sw_head s) (sw_count s) = (h, c)"
    by fastforce
  show ?thesis
  proof (cases "limit = 0")
    case True
    with assms e show ?thesis by (simp add: limiter_wf_def evict_def admitted_def ring_def)
  next
    case False
    with assms e evict_loop_dropWhile [OF _ e]
    have h: "h < limit" and r: "ring (timestamps s) limit h c = dropWhile (\<lambda>t. t < now - window) (admitted s)"
      by (simp_all add: limiter_wf_def admitted_def)
    have "c \<le> sw_count s"
      using arg_cong [OF r, of length] length_dropWhile_le [of "\<lambda>t. t < now - window" "admitted s"]
      by (simp add: admitted_def)
    with assms e h r show ?thesis by (simp add: limiter_wf_def evict_def admitted_def)
  qed
qed

interpretation ring_limiter: sliding_window "limiter_wf limit window" admitted Allow window limit for window limit
proof
  fix s now
  assume wf: "limiter_wf limit window s"
  note ev = evict_admitted [OF wf, of now]
  have count: "sw_count (evict now s) = length (dropWhile (\<lambda>t. t < now - window) (admitted s))"
    using ev length_admitted [of "evict now s"] by simp
  show "limiter_wf limit window (fst (Allow now s))"
    using ev by (auto simp: Allow_def Let_def limiter_wf_def record_request_def)
  show iff: "snd (Allow now s) \<longleftrightarrow> length (dropWhile (\<lambda>t. t < now - window) (admitted s)) < limit"
    using ev count by (simp add: Allow_def Let_def limiter_wf_def not_le)
  show "admitted (fst (Allow now s)) =
      dropWhile (\<lambda>t. t < now - window) (admitted s) @ (if snd (Allow now s) then [now] else [])"
    using ev iff ring_record [of "sw_count (evict now s)" limit "timestamps s" "sw_head (evict now s)" now]
    by (auto simp: Allow_def Let_def limiter_wf_def admitted_def record_request_def)
qed

text \<open>
  (C26) However requests arrive, no interval of the window's length contains more admitted ones
  than the limit: the ring counts a true sliding window, not a tumbling one.
\<close>

theorem window_limit_respected:
  assumes "NewSlidingWindowLimiter limit window = Ret s" and "sorted ts"
    and "admit_run Allow ts s = (s', as)"
  shows "int (length (filter (\<lambda>t. u \<le> t \<and> t \<le> u + window) as)) \<le> limit"
proof -
  from assms(1) have "limiter_wf (nat limit) window s" "admitted s = []" "0 \<le> limit"
    by (auto simp: NewSlidingWindowLimiter_def limiter_wf_def admitted_def ring_def split: if_splits)
  with ring_limiter.window_bound [OF _ _ assms(2,3), of "nat limit" window u] show ?thesis by simp
qed

theorem window_limit_respected_witness:
  "\<exists>s. NewSlidingWindowLimiter 2 10 = Ret s \<and> snd (admit_run Allow [1, 2, 3, 12, 13] s) = [1, 2, 12, 13]
     \<and> int (length (filter (\<lambda>t. 2 \<le> t \<and> t \<le> 12) (snd (admit_run Allow [1, 2, 3, 12, 13] s)))) \<le> 2"
proof -
  obtain s where s: "NewSlidingWindowLimiter 2 10 = Ret s" by (simp add: NewSlidingWindowLimiter_def)
  have "snd (admit_run Allow [1, 2, 3, 12, 13] s) = [1, 2, 12, 13]"
    using s by (simp add: NewSlidingWindowLimiter_def) (erule subst, code_simp)
  moreover obtain s' where "admit_run Allow [1, 2, 3, 12, 13] s = (s', snd (admit_run Allow [1, 2, 3, 12, 13] s))"
    by (metis prod.collapse)
  ultimately show ?thesis
    using window_limit_respected [OF s, of "[1, 2, 3, 12, 13]" s' _ 2] s by auto
qed

text \<open>A round that does not admit has evicted nothing, so the oldest stamp stays the same.\<close>

lemma evict_full:
  assumes "limiter_wf limit window s" and "\<not> sw_count (evict now s) < limit"
  shows "evict now s = s"
proof -
  have "sw_count (evict now s) \<le> sw_count s"
    using evict_admitted [OF assms(1), of now] length_dropWhile_le [of "\<lambda>t. t < now - window" "admitted s"]
    by (metis length_admitted)
  moreover have "sw_count s \<le> limit" using assms(1) by (simp add: limiter_wf_def)
  ultimately have "sw_count (evict now s) = sw_count s" using assms(2) by simp
  then show ?thesis
    by (cases "sw_count s") (auto simp: evict_def Let_def split: prod.splits if_splits dest!: evict_loop_count)
qed

text \<open>
  (C27) A waiting request is admitted: with a positive limit, as soon as the clock has passed the
  oldest admitted request by more than the window, \<open>Wait\<close> has returned without error, unless
  the context fired in an earlier round; it never panics.
\<close>

theorem waiting_request_admitted:
  assumes "limiter_wf limit window s" and "0 < limit"
    and "\<forall>j < n. ctx_done (i + j) = None"
    and "\<forall>t \<in> set (take 1 (admitted s)). t + window < now (i + n)"
  shows "\<exists>s'. Wait_rounds now ctx_done i (Suc n) s = Some (Ret (s', None))"
  using assms(1,3,4)
proof (induction n arbitrary: i)
  case 0
  have "sw_count (evict (now i) s) < limit"
  proof (rule ccontr)
    assume full: "\<not> sw_count (evict (now i) s) < limit"
    then have ev: "evict (now i) s = s" by (rule evict_full [OF 0(1)])
    with full assms(2) obtain t ts where q: "admitted s = t # ts"
      by (metis length_admitted list.exhaust list.size(3))
    then have "t < now i - window" using 0(3) by simp
    with evict_admitted [OF 0(1), of "now i"] ev q
    have "t # ts = dropWhile (\<lambda>t. t < now i - window) ts" by simp
    then show False using length_dropWhile_le [of "\<lambda>t. t < now i - window" ts] by (metis length_Cons not_less_eq_eq order_refl)
  qed
  with evict_admitted [OF 0(1), of "now i"] show ?case by (simp add: Let_def limiter_wf_def)
next
  case (Suc n)
  show ?case
  proof (cases "sw_count (evict (now i) s) < limit")
    case True
    with evict_admitted [OF Suc.prems(1), of "now i"] show ?thesis by (simp add: Let_def limiter_wf_def)
  next
    case False
    then have ev: "evict (now i) s = s" by (rule evict_full [OF Suc.prems(1)])
    have "\<exists>s'. Wait_rounds now ctx_done (Suc i) (Suc n) s = Some (Ret (s', None))"
    proof (rule Suc.IH [OF Suc.prems(1)])
      show "\<forall>j<n. ctx_done (Suc i + j) = None" using Suc.prems(2) by (metis add_Suc_shift Suc_less_eq)
    qed (use Suc.prems(3) in simp)
    moreover have "ctx_done i = None" using Suc.prems(2) by (metis add_0_right zero_less_Suc)
    moreover have "sw_head s < length (timestamps s)" "sw_limit s = limit"
      using Suc.prems(1) assms(2) by (simp_all add: limiter_wf_def)
    ultimately show ?thesis using ev False
      by (simp only: Wait_rounds.simps(2) [of _ _ i "Suc n"] Let_def) simp
  qed
qed

theorem waiting_request_admitted_witness:
  "let s = fst (Allow 5 \<lparr>sw_window = 10, sw_limit = 1, timestamps = [0], sw_head = 0, sw_count = 0,
       ecoThreshold = 80 / 100, balancedThreshold = 50 / 100\<rparr>)
   in snd (Allow 9 s) = False \<and> (\<exists>s'. Wait_rounds (\<lambda>i. 9 + 7 * int i) (\<lambda>i. None) 0 (Suc 1) s = Some (Ret (s', None)))"
proof -
  define s where "s = fst (Allow 5 \<lparr>sw_window = 10, sw_limit = 1, timestamps = [0], sw_head = 0, sw_count = 0,
       ecoThreshold = 80 / 100, balancedThreshold = 50 / 100\<rparr>)"
  have s: "s = \<lparr>sw_window = 10, sw_limit = 1, timestamps = [5], sw_head = 0, sw_count = 1,
       ecoThreshold = 80 / 100, balancedThreshold = 50 / 100\<rparr>"
    by (simp add: s_def Allow_def evict_def record_request_def)
  have "snd (Allow 9 s) = False" by (simp add: s Allow_def evict_def)
  moreover have "\<exists>s'. Wait_rounds (\<lambda>i. 9 + 7 * int i) (\<lambda>i. None) 0 (Suc 1) s = Some (Ret (s', None))"
    by (rule waiting_request_admitted [of 1 10]) (simp_all add: s limiter_wf_def admitted_def ring_def)
  ultimately show ?thesis unfolding Let_def s_def [symmetric] by blast
qed

end
