(* ===== verification/Quota.thy ===== *)
theory Quota
  imports Go_Utils
begin

section \<open>Request budgets and node rotation\<close>

text \<open>
  The daily call counter of the RPC pool (internal/monitor/quota\_monitor.go), the budget guard
  (internal/engine/rpc\_quota\_guard.go) and the round-robin list of providers
  (internal/engine/rpc\_rotator.go). Usage ratios, \<open>float64\<close> in the code, are exact rationals; a
  division by a zero limit is an infinity or no number, as in the code. The guard keeps its
  mutex, so an operation that waits for its own lock is \<open>None\<close>.
\<close>

subsection \<open>The daily call counter (quota\_monitor.go)\<close>

definition MaxDailyQuota :: nat where "MaxDailyQuota = 300000"

abbreviation day :: duration where "day \<equiv> 86400 * second"

record QuotaMonitor =
  dailyCalls :: u64
  resetTime :: time
  usageGauge :: rat
  statusGauge :: nat

text \<open>Times count from the Unix epoch in UTC, where days have equal length.\<close>

definition calculateNextReset :: "time \<Rightarrow> time" where
  "calculateNextReset now = (now div day + 1) * day"

definition NewQuotaMonitor :: "time \<Rightarrow> QuotaMonitor" where
  "NewQuotaMonitor now =
     \<lparr>dailyCalls = 0, resetTime = calculateNextReset now, usageGauge = 0, statusGauge = 0\<rparr>"

definition quota_status :: "rat \<Rightarrow> nat" where
  "quota_status usage = (if usage \<ge> 90 / 100 then 2 else if usage \<ge> 80 / 100 then 1 else 0)"

definition QuotaMonitor_Inc :: "QuotaMonitor \<Rightarrow> QuotaMonitor" where
  "QuotaMonitor_Inc m =
     (let current = dailyCalls m + 1; usage = of_int (uint current) / of_nat MaxDailyQuota
      in m\<lparr>dailyCalls := current, usageGauge := usage * 100, statusGauge := quota_status usage\<rparr>)"

definition GetUsagePercent :: "QuotaMonitor \<Rightarrow> rat" where
  "GetUsagePercent m = of_int (uint (dailyCalls m)) / of_nat MaxDailyQuota * 100"

definition ResetDaily :: "QuotaMonitor \<Rightarrow> QuotaMonitor" where
  "ResetDaily m = m\<lparr>dailyCalls := 0, usageGauge := 0, statusGauge := 0\<rparr>"

text \<open>One round of \<open>startResetTimer\<close>, which wakes at \<open>now\<close>.\<close>

definition reset_round :: "time \<Rightarrow> QuotaMonitor \<Rightarrow> QuotaMonitor" where
  "reset_round now m = (ResetDaily m)\<lparr>resetTime := calculateNextReset now\<rparr>"

lemma next_reset_bounds: "now < calculateNextReset now \<and> calculateNextReset now \<le> now + day"
  unfolding calculateNextReset_def by simp presburger

subsection \<open>The budget guard (rpc\_quota\_guard.go)\<close>

datatype QuotaMode = QuotaModeNormal | QuotaModeThrottling | QuotaModeStrict | QuotaModeExhausted

record QuotaGuard =
  qg_mu :: rwmutex
  DailyLimit :: int
  CurrentUsed :: int
  StrictThreshold :: rat
  LastResetTime :: time
  qg_mode :: QuotaMode
  requestsDenied :: int

definition NewQuotaGuard :: "time \<Rightarrow> int \<Rightarrow> QuotaGuard" where
  "NewQuotaGuard now limit =
     \<lparr>qg_mu = Unlocked, DailyLimit = limit, CurrentUsed = 0, StrictThreshold = 90 / 100,
      LastResetTime = now, qg_mode = QuotaModeNormal, requestsDenied = 0\<rparr>"

text \<open>Comparisons of \<open>float64(used) / float64(limit)\<close> with a positive bound.\<close>

definition ratio_ge :: "int \<Rightarrow> int \<Rightarrow> rat \<Rightarrow> bool" where
  "ratio_ge used limit b = (if limit = 0 then used > 0 else of_int used / of_int limit \<ge> b)"

definition ratio_gt :: "int \<Rightarrow> int \<Rightarrow> rat \<Rightarrow> bool" where
  "ratio_gt used limit b = (if limit = 0 then used > 0 else of_int used / of_int limit > b)"

text \<open>\<open>updateMode\<close> writes the mode without the lock, then logs the ratio under the read lock.\<close>

definition updateMode :: "QuotaMode \<Rightarrow> QuotaGuard \<Rightarrow> QuotaGuard option" where
  "updateMode m g =
     (if qg_mode g \<noteq> m
      then map_option (\<lambda>_. g\<lparr>qg_mode := m\<rparr>) (rw_rlock (qg_mu g))
      else Some g)"

definition AllowRequest :: "QuotaGuard \<Rightarrow> (QuotaGuard \<times> bool) option" where
  "AllowRequest g =
     (case rw_rlock (qg_mu g) of
        None \<Rightarrow> None
      | Some _ \<Rightarrow>
          if ratio_ge (CurrentUsed g) (DailyLimit g) 1
          then Some (g\<lparr>requestsDenied := wrap_i64 (requestsDenied g + 1)\<rparr>, False)
          else map_option (\<lambda>g1. (g1, True))
                 (updateMode
                    (if ratio_gt (CurrentUsed g) (DailyLimit g) (StrictThreshold g) then QuotaModeStrict
                     else if ratio_gt (CurrentUsed g) (DailyLimit g) (85 / 100) then QuotaModeThrottling
                     else QuotaModeNormal) g))"

definition QuotaGuard_Reset :: "time \<Rightarrow> QuotaGuard \<Rightarrow> QuotaGuard option" where
  "QuotaGuard_Reset now g =
     map_option (\<lambda>m. g\<lparr>qg_mu := rw_unlock m, CurrentUsed := 0, LastResetTime := now, qg_mode := QuotaModeNormal\<rparr>)
       (rw_lock (qg_mu g))"

definition RecordRequest :: "time \<Rightarrow> QuotaGuard \<Rightarrow> QuotaGuard option" where
  "RecordRequest now g =
     (case rw_lock (qg_mu g) of
        None \<Rightarrow> None
      | Some m \<Rightarrow>
          let g1 = g\<lparr>qg_mu := m, CurrentUsed := wrap_i64 (CurrentUsed g + 1)\<rparr>
          in map_option (\<lambda>g2. g2\<lparr>qg_mu := rw_unlock (qg_mu g2)\<rparr>)
               (if now - LastResetTime g1 > day then QuotaGuard_Reset now g1 else Some g1))"

definition SetCurrentUsed :: "int \<Rightarrow> QuotaGuard \<Rightarrow> QuotaGuard option" where
  "SetCurrentUsed used g =
     map_option (\<lambda>m. g\<lparr>qg_mu := rw_unlock m, CurrentUsed := used,
         qg_mode := (if ratio_ge used (DailyLimit g) 1 then QuotaModeExhausted
                     else if ratio_gt used (DailyLimit g) (StrictThreshold g) then QuotaModeStrict
                     else if ratio_gt used (DailyLimit g) (85 / 100) then QuotaModeThrottling
                     else QuotaModeNormal)\<rparr>)
       (rw_lock (qg_mu g))"

text \<open>A caller of the guard: asks, and records the request when it is allowed.\<close>

definition guarded_request :: "time \<Rightarrow> QuotaGuard \<Rightarrow> (QuotaGuard \<times> bool) option" where
  "guarded_request now g =
     (case AllowRequest g of
        None \<Rightarrow> None
      | Some (g1, ok) \<Rightarrow> if ok then map_option (\<lambda>g2. (g2, True)) (RecordRequest now g1) else Some (g1, False))"

fun guarded_run :: "time list \<Rightarrow> QuotaGuard \<Rightarrow> (QuotaGuard \<times> nat) option" where
  "guarded_run [] g = Some (g, 0)"
| "guarded_run (t # ts) g =
     (case guarded_request t g of
        None \<Rightarrow> None
      | Some (g1, ok) \<Rightarrow> map_option (\<lambda>(g2, n). (g2, if ok then Suc n else n)) (guarded_run ts g1))"

subsection \<open>The provider list (rpc\_rotator.go)\<close>

record RPCNode =
  URL :: string
  Weight :: int
  IsHealthy :: bool
  ErrorCount :: int

record RPCRotator =
  nodes :: "RPCNode list"
  currentIdx :: "32 word"

definition NewRPCRotator :: "string list \<Rightarrow> RPCRotator" where
  "NewRPCRotator urls =
     \<lparr>nodes = map (\<lambda>u. \<lparr>URL = u, Weight = 1, IsHealthy = True, ErrorCount = 0\<rparr>) urls, currentIdx = 0\<rparr>"

fun rotate_loop :: "nat \<Rightarrow> RPCRotator \<Rightarrow> RPCRotator \<times> string" where
  "rotate_loop 0 r = (r, URL (nodes r ! 0))"
| "rotate_loop (Suc k) r =
     (let i = currentIdx r + 1; r1 = r\<lparr>currentIdx := i\<rparr>; node = nodes r ! (unat i mod length (nodes r))
      in if IsHealthy node then (r1, URL node) else rotate_loop k r1)"

definition GetNext :: "RPCRotator \<Rightarrow> RPCRotator \<times> string" where
  "GetNext r = (if nodes r = [] then (r, []) else rotate_loop (length (nodes r)) r)"

text \<open>The three updates act on the first node with the given address.\<close>

fun update_first :: "('a \<Rightarrow> bool) \<Rightarrow> ('a \<Rightarrow> 'a) \<Rightarrow> 'a list \<Rightarrow> 'a list" where
  "update_first P f [] = []"
| "update_first P f (x # xs) = (if P x then f x # xs else x # update_first P f xs)"

definition MarkUnhealthy :: "string \<Rightarrow> RPCRotator \<Rightarrow> RPCRotator" where
  "MarkUnhealthy u r = r\<lparr>nodes := update_first (\<lambda>n. URL n = u) (IsHealthy_update (\<lambda>_. False)) (nodes r)\<rparr>"

definition MarkHealthy :: "string \<Rightarrow> RPCRotator \<Rightarrow> RPCRotator" where
  "MarkHealthy u r = r\<lparr>nodes := update_first (\<lambda>n. URL n = u) (IsHealthy_update (\<lambda>_. True)) (nodes r)\<rparr>"

definition RecordError :: "string \<Rightarrow> RPCRotator \<Rightarrow> RPCRotator" where
  "RecordError u r =
     r\<lparr>nodes := update_first (\<lambda>n. URL n = u)
        (\<lambda>n. let c = wrap_i64 (ErrorCount n + 1)
             in n\<lparr>ErrorCount := c, IsHealthy := (if c > 10 then False else IsHealthy n)\<rparr>) (nodes r)\<rparr>"

definition GetHealthyCount :: "RPCRotator \<Rightarrow> nat" where
  "GetHealthyCount r = length (filter IsHealthy (nodes r))"

definition maskURL :: "string \<Rightarrow> string" where
  "maskURL url = (if length url > 20 then take 10 url @ ''...'' @ drop (length url - 10) url else url)"

subsection \<open>The budget\<close>

lemma ratio_ge_one: "0 < limit \<Longrightarrow> ratio_ge used limit 1 \<longleftrightarrow> limit \<le> used"
  by (simp add: ratio_ge_def le_divide_eq)

lemma guarded_request_cases:
  assumes "qg_mu g = Unlocked" and "0 < DailyLimit g" and "DailyLimit g \<le> max_i64" and "0 \<le> CurrentUsed g"
    and "now - LastResetTime g \<le> day"
  shows "\<exists>g'. guarded_request now g = Some (g', CurrentUsed g < DailyLimit g) \<and> qg_mu g' = Unlocked
    \<and> DailyLimit g' = DailyLimit g \<and> LastResetTime g' = LastResetTime g
    \<and> CurrentUsed g' = (if CurrentUsed g < DailyLimit g then CurrentUsed g + 1 else CurrentUsed g)"
proof (cases "CurrentUsed g < DailyLimit g")
  case True
  moreover have "wrap_i64 (CurrentUsed g + 1) = CurrentUsed g + 1"
    using True assms by (intro wrap_i64_id) (simp add: min_i64_def)
  ultimately show ?thesis
    using assms by (auto simp: guarded_request_def AllowRequest_def updateMode_def RecordRequest_def ratio_ge_one Let_def)
next
  case False
  then show ?thesis using assms by (simp add: guarded_request_def AllowRequest_def ratio_ge_one)
qed

lemma guarded_run_count:
  assumes "qg_mu g = Unlocked" and "0 < DailyLimit g" and "DailyLimit g \<le> max_i64" and "0 \<le> CurrentUsed g"
    and "CurrentUsed g \<le> DailyLimit g" and "\<forall>t \<in> set ts. t - LastResetTime g \<le> day"
  shows "\<exists>g'. guarded_run ts g = Some (g', min (length ts) (nat (DailyLimit g - CurrentUsed g)))"
  using assms
proof (induction ts arbitrary: g)
  case (Cons t ts)
  from Cons.prems guarded_request_cases [of g t] obtain g1 where
    step: "guarded_request t g = Some (g1, CurrentUsed g < DailyLimit g)" "qg_mu g1 = Unlocked"
      "DailyLimit g1 = DailyLimit g" "LastResetTime g1 = LastResetTime g"
      "CurrentUsed g1 = (if CurrentUsed g < DailyLimit g then CurrentUsed g + 1 else CurrentUsed g)"
    by auto
  have "0 \<le> CurrentUsed g1" "CurrentUsed g1 \<le> DailyLimit g1" using step Cons.prems by auto
  with step Cons.prems Cons.IH [of g1] obtain g2 where
    "guarded_run ts g1 = Some (g2, min (length ts) (nat (DailyLimit g - CurrentUsed g1)))" by auto
  moreover have "nat (DailyLimit g - CurrentUsed g) = Suc (nat (DailyLimit g - (CurrentUsed g + 1)))"
    if "CurrentUsed g < DailyLimit g" using that by simp
  ultimately show ?case using step Cons.prems(5) by (auto split: if_splits)
qed simp



text \<open>
  The daily reset blocks forever: the first request recorded more than a day after the last
  reset calls \<open>Reset\<close>, which waits for the lock its caller holds. Earlier ones always return.
\<close>

lemma daily_reset_deadlocks:
  assumes "qg_mu g = Unlocked"
  shows "RecordRequest now g = None \<longleftrightarrow> now - LastResetTime g > day"
  using assms by (simp add: RecordRequest_def QuotaGuard_Reset_def Let_def)

subsection \<open>Rotation\<close>

lemma rotate_loop_first_healthy:
  assumes "unat (currentIdx r) + k < 2 ^ 32" and "j \<in> {1..k}"
    and "IsHealthy (nodes r ! ((unat (currentIdx r) + j) mod length (nodes r)))"
    and "\<forall>i \<in> {1..<j}. \<not> IsHealthy (nodes r ! ((unat (currentIdx r) + i) mod length (nodes r)))"
  shows "snd (rotate_loop k r) = URL (nodes r ! ((unat (currentIdx r) + j) mod length (nodes r)))
    \<and> unat (currentIdx (fst (rotate_loop k r))) = unat (currentIdx r) + j \<and> nodes (fst (rotate_loop k r)) = nodes r"
  using assms
proof (induction k arbitrary: r j)
  case (Suc k)
  have succ: "unat (currentIdx r + 1) = unat (currentIdx r) + 1"
    using Suc.prems(1) by (intro unat_add_lem [THEN iffD1, THEN trans]) simp_all
  show ?case
  proof (cases "j = 1")
    case True
    with Suc.prems(3) succ show ?thesis by (simp add: Let_def)
  next
    case False
    let ?r = "r\<lparr>currentIdx := currentIdx r + 1\<rparr>"
    from False Suc.prems(2) have j: "1 \<le> j - 1" "j - 1 \<le> k" by auto
    have "\<not> IsHealthy (nodes r ! ((unat (currentIdx r) + 1) mod length (nodes r)))"
      using bspec [OF Suc.prems(4), of 1] False Suc.prems(2) by simp
    moreover have "snd (rotate_loop k ?r) = URL (nodes ?r ! ((unat (currentIdx ?r) + (j - 1)) mod length (nodes ?r)))
        \<and> unat (currentIdx (fst (rotate_loop k ?r))) = unat (currentIdx ?r) + (j - 1) \<and> nodes (fst (rotate_loop k ?r)) = nodes ?r"
    proof (rule Suc.IH)
      show "\<forall>i \<in> {1..<j - 1}. \<not> IsHealthy (nodes ?r ! ((unat (currentIdx ?r) + i) mod length (nodes ?r)))"
      proof
        fix i assume "i \<in> {1..<j - 1}"
        then have "Suc i \<in> {1..<j}" by auto
        with bspec [OF Suc.prems(4), of "Suc i"] succ
        show "\<not> IsHealthy (nodes ?r ! ((unat (currentIdx ?r) + i) mod length (nodes ?r)))" by auto
      qed
    qed (use Suc.prems succ j in auto)
    moreover obtain i where "j = Suc i" using j by (cases j) auto
    ultimately show ?thesis using succ by (simp add: Let_def)
  qed
qed simp

lemma residue_covered:
  fixes c l m :: nat
  assumes "m < l"
  shows "\<exists>j \<in> {1..l}. (c + j) mod l = m"
proof -
  obtain d where d: "d = c mod l" "d < l" using assms by simp
  define j where "j = (if d < m then m - d else l + m - d)"
  have "j \<in> {1..l}" and "d + j = (if d < m then m else l + m)" using d(2) assms by (auto simp: j_def)
  then have "(d + j) mod l = m" using assms by simp
  with \<open>j \<in> {1..l}\<close> show ?thesis unfolding d(1) by (metis mod_add_left_eq)
qed

text \<open>
  Rotation skips the nodes marked unhealthy and no other: while any node is healthy,
  \<open>GetNext\<close> returns the first healthy one after the current position in cyclic order and moves
  the position to it (until the counter of 32 bits wraps).
\<close>

lemma rotation_finds_healthy:
  assumes "\<exists>n \<in> set (nodes r). IsHealthy n" and "unat (currentIdx r) + length (nodes r) < 2 ^ 32"
  shows "\<exists>j \<in> {1..length (nodes r)}.
      IsHealthy (nodes r ! ((unat (currentIdx r) + j) mod length (nodes r)))
    \<and> (\<forall>i \<in> {1..<j}. \<not> IsHealthy (nodes r ! ((unat (currentIdx r) + i) mod length (nodes r))))
    \<and> snd (GetNext r) = URL (nodes r ! ((unat (currentIdx r) + j) mod length (nodes r)))
    \<and> unat (currentIdx (fst (GetNext r))) = unat (currentIdx r) + j"
proof -
  let ?l = "length (nodes r)" and ?P = "\<lambda>j. IsHealthy (nodes r ! ((unat (currentIdx r) + j) mod length (nodes r)))"
  from assms(1) obtain m where m: "m < ?l" "IsHealthy (nodes r ! m)" by (auto simp: in_set_conv_nth)
  then obtain j where j: "1 \<le> j" "j \<le> ?l" "?P j" using residue_covered [of m ?l "unat (currentIdx r)"] by auto
  define k where "k = (LEAST j. 1 \<le> j \<and> ?P j)"
  have k: "1 \<le> k" "?P k" "k \<le> j"
    using LeastI [of "\<lambda>j. 1 \<le> j \<and> ?P j" j] Least_le [of "\<lambda>j. 1 \<le> j \<and> ?P j" j] j unfolding k_def by auto
  have least: "\<forall>i \<in> {1..<k}. \<not> ?P i"
    using not_less_Least [of _ "\<lambda>j. 1 \<le> j \<and> ?P j"] unfolding k_def by auto
  have "k \<in> {1..?l}" using k j by simp
  with rotate_loop_first_healthy [OF assms(2) this k(2) least] k least m(1) show ?thesis
    unfolding GetNext_def by (intro bexI [of _ k]) auto
qed

end
