(* ===== verification/Rpc_Pool.thy ===== *)
theory Rpc_Pool
  imports Quota Chain_Data
begin

section \<open>The pool of RPC nodes (internal/engine/rpc\_pool\_*.go)\<close>

text \<open>
  \<open>EnhancedRPCClientPool\<close> picks a node by weighted rotation among those that are healthy or whose
  back-off is over, sends the request, and on an error marks the node and tries the next, at most
  once per node. \<open>RPCClientPool\<close> is the plain rotation used without advanced features.

  \<^item> A node is known by its position in \<open>clients\<close> (the code passes pointers).
  \<^item> Dialling, the answers of the nodes and the limiters' answers are arguments. \<open>sel_now i\<close> and
    \<open>err_now i\<close> are the clock at the selection and at the error of attempt \<open>i\<close>; the readings inside
    one selection are taken to be the same.
  \<^item> Rates are exact rationals. The request counters and histograms of Prometheus are left out,
    the gauge of healthy nodes is kept.
\<close>

subsection \<open>Nodes and pools (rpc\_types.go, rpc\_pool\_core.go)\<close>

text \<open>The zero \<open>time.Time\<close>: January 1, year 1, in nanoseconds from the Unix epoch.\<close>

definition zero_time :: time where
  "zero_time = - 62135596800 * second"

record rpcNode =
  n_url :: string
  n_isHealthy :: bool
  n_failCount :: int
  n_lastError :: time
  n_retryAfter :: time
  n_weight :: int

type_synonym limiter_conf = "rat \<times> int"

record EnhancedRPCClientPool =
  clients :: "rpcNode list"
  pool_size :: int
  globalRateLimiter :: limiter_conf
  nodeRateLimiters :: "(string \<times> limiter_conf) list"
  requestCount :: int
  lastResetTime :: time
  isTestnetMode :: bool
  maxSyncBatch :: int
  currentSyncBatch :: int
  quotaMonitor :: QuotaMonitor
  rpcURLs :: "string list"
  healthyGauge :: nat

text \<open>\<open>dial\<close> says whether \<open>ethclient.Dial\<close> succeeds, \<open>probe\<close> whether the first header request does.\<close>

definition is_local_url :: "string \<Rightarrow> bool" where
  "is_local_url u \<longleftrightarrow> contains u ''localhost'' \<or> contains u ''127.0.0.1'' \<or> contains u ''anvil''"

definition NewEnhancedRPCClientPoolWithTimeout ::
    "(string \<Rightarrow> string) \<Rightarrow> (string \<Rightarrow> bool) \<Rightarrow> (string \<Rightarrow> bool) \<Rightarrow> time \<Rightarrow> string list \<Rightarrow> bool \<Rightarrow> int
      \<Rightarrow> go_error + EnhancedRPCClientPool" where
  "NewEnhancedRPCClientPoolWithTimeout env dial probe now urls isTestnet maxBatch =
     (if urls = [] then Inl (OtherError ''no RPC URLs provided'')
      else
        let isLocal = list_ex is_local_url urls;
            globalRPS = (if env ''FORCE_RPS'' = ''true'' then 20 else if isLocal then 500
                         else if isTestnet then 15 else 20);
            conf = (of_int globalRPS, globalRPS * 2);
            nodes = map (\<lambda>u. \<lparr>n_url = u, n_isHealthy = probe u, n_failCount = 0, n_lastError = zero_time,
                            n_retryAfter = zero_time, n_weight = 1\<rparr>) (filter dial urls)
        in if nodes = [] then Inl (OtherError ''no healthy RPC nodes available'')
           else Inr \<lparr>clients = nodes, pool_size = wrap_i32 (int (length nodes)), globalRateLimiter = conf,
                  nodeRateLimiters = fold (\<lambda>u m. AList.update u conf m) urls [], requestCount = 0,
                  lastResetTime = now, isTestnetMode = (isTestnet \<and> \<not> isLocal), maxSyncBatch = maxBatch,
                  currentSyncBatch = 0, quotaMonitor = NewQuotaMonitor now, rpcURLs = urls, healthyGauge = 0\<rparr>)"

definition Pool_SetRateLimit :: "rat \<Rightarrow> int \<Rightarrow> EnhancedRPCClientPool \<Rightarrow> EnhancedRPCClientPool" where
  "Pool_SetRateLimit rps burst p =
     p\<lparr>globalRateLimiter := (rps, burst),
       nodeRateLimiters := fold (\<lambda>u m. AList.update u (rps, burst) m) (rpcURLs p) (nodeRateLimiters p)\<rparr>"

definition GetHealthyNodeCount :: "EnhancedRPCClientPool \<Rightarrow> nat" where
  "GetHealthyNodeCount p = length (filter n_isHealthy (clients p))"

definition GetTotalNodeCount :: "EnhancedRPCClientPool \<Rightarrow> nat" where
  "GetTotalNodeCount p = length (clients p)"

subsection \<open>Health (rpc\_pool\_health.go)\<close>

definition CalculateOptimalRPS :: "string \<Rightarrow> int \<Rightarrow> int \<Rightarrow> rat" where
  "CalculateOptimalRPS rpcURL currentLag userConfigRPS =
     (let isLocal = (contains rpcURL ''localhost'' \<or> contains rpcURL ''127.0.0.1'');
          base = (if isLocal then 500
                  else if contains rpcURL ''infura.io'' \<or> contains rpcURL ''quiknode.pro'' then 15
                  else if contains rpcURL ''public.com'' then 5
                  else 10);
          policy = (if currentLag > 1000 \<and> \<not> isLocal then base * 2 else base)
      in if userConfigRPS > 0
         then (if isLocal then of_int userConfigRPS else min policy (of_int userConfigRPS))
         else policy)"

abbreviation upd_node :: "nat \<Rightarrow> (rpcNode \<Rightarrow> rpcNode) \<Rightarrow> EnhancedRPCClientPool \<Rightarrow> EnhancedRPCClientPool" where
  "upd_node n f p \<equiv> p\<lparr>clients := (clients p)[n := f (clients p ! n)]\<rparr>"

text \<open>\<open>int(math.Min(math.Pow(2, float64(failCount-1)), 60))\<close>.\<close>

definition backoff_sec :: "int \<Rightarrow> int" where
  "backoff_sec c = (if c \<ge> 1 then min (2 ^ nat (c - 1)) 60 else 0)"

definition markNodeUnhealthy :: "time \<Rightarrow> nat \<Rightarrow> EnhancedRPCClientPool \<Rightarrow> EnhancedRPCClientPool" where
  "markNodeUnhealthy now n p =
     upd_node n (\<lambda>v. v\<lparr>n_isHealthy := False, n_lastError := now, n_failCount := n_failCount v + 1,
       n_retryAfter := now + backoff_sec (n_failCount v + 1) * second\<rparr>) p"

definition is_rate_limited :: "go_error \<Rightarrow> bool" where
  "is_rate_limited e \<longleftrightarrow> contains (error_text e) ''429'' \<or> contains (error_text e) ''too many requests''
     \<or> contains (error_text e) ''limit exceeded''"

definition handleRPCError :: "time \<Rightarrow> nat \<Rightarrow> go_error \<Rightarrow> EnhancedRPCClientPool \<Rightarrow> EnhancedRPCClientPool" where
  "handleRPCError now n e p =
     (if is_rate_limited e
      then (let p1 = upd_node n (\<lambda>v. v\<lparr>n_isHealthy := False, n_lastError := now,
                       n_retryAfter := now + 5 * 60 * second\<rparr>) p
            in p1\<lparr>healthyGauge := GetHealthyNodeCount p1\<rparr>)
      else markNodeUnhealthy now n p)"

definition incrementRequestCount :: "EnhancedRPCClientPool \<Rightarrow> EnhancedRPCClientPool" where
  "incrementRequestCount p =
     p\<lparr>requestCount := wrap_i64 (requestCount p + 1), quotaMonitor := QuotaMonitor_Inc (quotaMonitor p)\<rparr>"

definition enforceSyncBatchLimit :: "EnhancedRPCClientPool \<Rightarrow> EnhancedRPCClientPool" where
  "enforceSyncBatchLimit p =
     (if \<not> isTestnetMode p then p
      else p\<lparr>currentSyncBatch := (if currentSyncBatch p + 1 > 50 then 0 else currentSyncBatch p + 1)\<rparr>)"

definition ResetRequestCount :: "time \<Rightarrow> EnhancedRPCClientPool \<Rightarrow> EnhancedRPCClientPool" where
  "ResetRequestCount now p = p\<lparr>requestCount := 0, lastResetTime := now\<rparr>"

text \<open>One node of \<open>checkHealth\<close>; \<open>alive\<close> is the outcome of its \<open>BlockNumber\<close> request.\<close>

definition check_node :: "time \<Rightarrow> bool \<Rightarrow> rpcNode \<Rightarrow> rpcNode" where
  "check_node now alive v =
     (if n_isHealthy v
      then (if alive then v
            else v\<lparr>n_isHealthy := False, n_failCount := n_failCount v + 1, n_lastError := now\<rparr>)
      else if now - n_lastError v > 30 * second \<and> alive then v\<lparr>n_isHealthy := True\<rparr>
      else v)"

definition checkHealth :: "time \<Rightarrow> (nat \<Rightarrow> bool) \<Rightarrow> EnhancedRPCClientPool \<Rightarrow> EnhancedRPCClientPool" where
  "checkHealth now alive p =
     (let vs = map (\<lambda>i. check_node now (alive i) (clients p ! i)) [0..<length (clients p)]
      in p\<lparr>clients := vs, healthyGauge := length (filter n_isHealthy vs)\<rparr>)"

subsection \<open>Selection and requests (rpc\_pool\_requests.go)\<close>

definition node_weight :: "rpcNode \<Rightarrow> int" where
  "node_weight v = (if n_weight v \<le> 0 then 1 else n_weight v)"

definition eligible :: "time \<Rightarrow> EnhancedRPCClientPool \<Rightarrow> nat list" where
  "eligible now p =
     filter (\<lambda>i. n_isHealthy (clients p ! i) \<or> now > n_retryAfter (clients p ! i)) [0..<length (clients p)]"

text \<open>The remainder of Go has the sign of the dividend.\<close>

definition trem :: "int \<Rightarrow> int \<Rightarrow> int" where
  "trem a b = a - b * tdiv a b"

fun pick_weighted :: "rpcNode list \<Rightarrow> int \<Rightarrow> int \<Rightarrow> nat \<Rightarrow> nat list \<Rightarrow> nat" where
  "pick_weighted vs val current first [] = first"
| "pick_weighted vs val current first (i # is) =
     (if val < current + node_weight (vs ! i) then i
      else pick_weighted vs val (current + node_weight (vs ! i)) first is)"

definition getNextHealthyNode :: "time \<Rightarrow> EnhancedRPCClientPool \<Rightarrow> EnhancedRPCClientPool \<times> nat option" where
  "getNextHealthyNode now p =
     (if pool_size p = 0 then (p, None)
      else case eligible now p of
             [] \<Rightarrow> (p, None)
           | i # is \<Rightarrow>
               (let total = sum_list (map (\<lambda>j. node_weight (clients p ! j)) (i # is));
                    count = wrap_i64 (requestCount p + 1)
                in (p\<lparr>requestCount := count\<rparr>,
                    Some (pick_weighted (clients p) (trem count total) 0 i (i # is)))))"

record 'a pool_env =
  global_wait :: "go_error option"
  node_wait :: "nat \<Rightarrow> string \<Rightarrow> go_error option"
  node_call :: "nat \<Rightarrow> nat \<Rightarrow> go_error + 'a"
  sel_now :: "nat \<Rightarrow> time"
  err_now :: "nat \<Rightarrow> time"

text \<open>
  The attempts of one request, shared by its methods. \<open>limited\<close>: the node's own limiter is asked
  first; \<open>restore\<close>: a node that answers is marked healthy again.
\<close>

definition node_wait_err :: "bool \<Rightarrow> 'a pool_env \<Rightarrow> nat \<Rightarrow> nat \<Rightarrow> EnhancedRPCClientPool \<Rightarrow> go_error option" where
  "node_wait_err limited E i n p =
     (let url = n_url (clients p ! n)
      in if limited \<and> isTestnetMode p \<and> map_of (nodeRateLimiters p) url \<noteq> None then node_wait E i url else None)"

definition restore_node :: "bool \<Rightarrow> nat \<Rightarrow> EnhancedRPCClientPool \<Rightarrow> EnhancedRPCClientPool" where
  "restore_node restore n p =
     (if restore \<and> \<not> n_isHealthy (clients p ! n)
      then upd_node n (\<lambda>v. v\<lparr>n_isHealthy := True, n_failCount := 0\<rparr>) p else p)"

fun attempt_nodes ::
    "bool \<Rightarrow> bool \<Rightarrow> string \<Rightarrow> 'a pool_env \<Rightarrow> nat \<Rightarrow> nat \<Rightarrow> EnhancedRPCClientPool
      \<Rightarrow> EnhancedRPCClientPool \<times> (go_error + 'a)" where
  "attempt_nodes limited restore method E i 0 p = (p, Inl (OtherError (''all RPC nodes failed for '' @ method)))"
| "attempt_nodes limited restore method E i (Suc k) p =
     (case getNextHealthyNode (sel_now E i) p of
        (p1, None) \<Rightarrow> (p1, Inl (OtherError ''no healthy RPC nodes available''))
      | (p1, Some n) \<Rightarrow>
          (case node_wait_err limited E i n p1 of
             Some e \<Rightarrow> (p1, Inl (Wrapped ''node rate limiter error'' e))
           | None \<Rightarrow>
               (let p2 = incrementRequestCount p1 in
                case node_call E i n of
                  Inl e \<Rightarrow> attempt_nodes limited restore method E (Suc i) k (handleRPCError (err_now E i) n e p2)
                | Inr a \<Rightarrow> (restore_node restore n p2, Inr a))))"

definition global_wait_err :: "'a pool_env \<Rightarrow> EnhancedRPCClientPool \<Rightarrow> go_error option" where
  "global_wait_err E p = (if isTestnetMode p then global_wait E else None)"

definition synced_request ::
    "string \<Rightarrow> 'a pool_env \<Rightarrow> EnhancedRPCClientPool \<Rightarrow> EnhancedRPCClientPool \<times> (go_error + 'a)" where
  "synced_request method E p =
     (let p1 = enforceSyncBatchLimit p in
      case global_wait_err E p1 of
        Some e \<Rightarrow> (p1, Inl (Wrapped ''global rate limiter error'' e))
      | None \<Rightarrow> attempt_nodes True True method E 0 (nat (pool_size p1)) p1)"

definition Pool_BlockByNumber ::
    "EthBlock pool_env \<Rightarrow> EnhancedRPCClientPool \<Rightarrow> EnhancedRPCClientPool \<times> (go_error + EthBlock)" where
  "Pool_BlockByNumber = synced_request ''BlockByNumber''"

definition Pool_HeaderByNumber ::
    "'h pool_env \<Rightarrow> EnhancedRPCClientPool \<Rightarrow> EnhancedRPCClientPool \<times> (go_error + 'h)" where
  "Pool_HeaderByNumber = synced_request ''HeaderByNumber''"

definition Pool_FilterLogs ::
    "Log list pool_env \<Rightarrow> EnhancedRPCClientPool \<Rightarrow> EnhancedRPCClientPool \<times> (go_error + Log list)" where
  "Pool_FilterLogs = synced_request ''FilterLogs''"

definition Pool_GetLatestBlockNumber ::
    "int pool_env \<Rightarrow> EnhancedRPCClientPool \<Rightarrow> EnhancedRPCClientPool \<times> (go_error + int)" where
  "Pool_GetLatestBlockNumber E p =
     (case global_wait_err E p of
        Some e \<Rightarrow> (p, Inl (Wrapped ''global rate limiter error'' e))
      | None \<Rightarrow> attempt_nodes True True ''GetLatestBlockNumber'' E 0 (nat (pool_size p)) p)"

definition Pool_CallContract ::
    "string pool_env \<Rightarrow> EnhancedRPCClientPool \<Rightarrow> EnhancedRPCClientPool \<times> (go_error + string)" where
  "Pool_CallContract E p =
     (case global_wait_err E p of
        Some e \<Rightarrow> (p, Inl e)
      | None \<Rightarrow> attempt_nodes False False ''CallContract'' E 0 (nat (pool_size p)) p)"

text \<open>The position of the client, \<open>None\<close> for an empty pool.\<close>

definition GetClientForMetadata :: "EnhancedRPCClientPool \<Rightarrow> nat option" where
  "GetClientForMetadata p =
     (if clients p = [] then None
      else case filter (\<lambda>i. n_isHealthy (clients p ! i)) [0..<length (clients p)] of
             [] \<Rightarrow> Some 0
           | i # _ \<Rightarrow> Some i)"

subsection \<open>The plain pool\<close>

record RPCClientPool =
  rp_clients :: "rpcNode list"
  rp_size :: int
  rp_index :: int

definition NewRPCClientPoolWithTimeout :: "(string \<Rightarrow> bool) \<Rightarrow> string list \<Rightarrow> go_error + RPCClientPool" where
  "NewRPCClientPoolWithTimeout dial urls =
     (let nodes = map (\<lambda>u. \<lparr>n_url = u, n_isHealthy = True, n_failCount = 0, n_lastError = zero_time,
                         n_retryAfter = zero_time, n_weight = 0\<rparr>) (filter dial urls)
      in if nodes = [] then Inl (OtherError ''no healthy RPC nodes available'')
         else Inr \<lparr>rp_clients = nodes, rp_size = wrap_i32 (int (length nodes)), rp_index = 0\<rparr>)"

text \<open>The index of a slice must not be negative: the access panics.\<close>

definition RPCClientPool_getNextHealthyNode :: "RPCClientPool \<Rightarrow> (RPCClientPool \<times> nat option) go" where
  "RPCClientPool_getNextHealthyNode p =
     (if rp_size p = 0 then Ret (p, None)
      else
        let idx = wrap_i32 (rp_index p + 1); pos = trem idx (rp_size p)
        in if pos < 0 \<or> pos \<ge> int (length (rp_clients p)) then Panic
           else Ret (p\<lparr>rp_index := idx\<rparr>, Some (nat pos)))"

text \<open>The requests of the plain pool: one node, its answer.\<close>

definition RPCClientPool_request ::
    "(nat \<Rightarrow> go_error + 'a) \<Rightarrow> RPCClientPool \<Rightarrow> (RPCClientPool \<times> (go_error + 'a)) go" where
  "RPCClientPool_request call p =
     go_bind (RPCClientPool_getNextHealthyNode p) (\<lambda>(p1, n).
       Ret (p1, case n of None \<Rightarrow> Inl (OtherError ''no RPC nodes available'') | Some n \<Rightarrow> call n))"

end
