(* ===== verification/Rpc_Pool_Props.thy ===== *)
theory Rpc_Pool_Props
  imports Rpc_Pool
begin

section \<open>What the RPC pool promises\<close>

text \<open>
  A well-formed pool stays well-formed under every operation; a request reaches a live node if
  there is one; the rotation of the pool leaves half of an even number of equal nodes unused. The
  request methods share the contract of the locale \<open>rpc_method\<close>.
\<close>

definition pool_wf :: "EnhancedRPCClientPool \<Rightarrow> bool" where
  "pool_wf p \<longleftrightarrow> clients p \<noteq> [] \<and> length (clients p) < 2 ^ 31 \<and> pool_size p = int (length (clients p))
     \<and> (\<forall>v \<in> set (clients p). 0 \<le> n_failCount v) \<and> 0 \<le> currentSyncBatch p \<and> currentSyncBatch p \<le> 50
     \<and> healthyGauge p \<le> length (clients p) \<and> in_i64 (requestCount p)"

named_theorems pool_rules \<open>preservation of the pool's well-formedness\<close>

lemma NewPool_wf [pool_rules]:
  assumes "NewEnhancedRPCClientPoolWithTimeout env dial probe now urls tn mb = Inr p" and "length urls < 2 ^ 31"
  shows "pool_wf p"
proof -
  have "length (filter dial urls) < 2 ^ 31" using assms(2) le_less_trans [OF length_filter_le] by blast
  then have "wrap_i32 (int (length (filter dial urls))) = int (length (filter dial urls))"
    by (intro wrap_i32_id) simp_all
  with assms \<open>length (filter dial urls) < 2 ^ 31\<close> show ?thesis
    by (auto simp: NewEnhancedRPCClientPoolWithTimeout_def pool_wf_def Let_def min_i64_def max_i64_def
        filter_empty_conv split: if_splits)
qed

lemma set_update_node: "n < length xs \<Longrightarrow> \<forall>v \<in> set xs. P v \<Longrightarrow> P (f (xs ! n)) \<Longrightarrow> \<forall>v \<in> set (xs[n := f (xs ! n)]). P v"
  using set_update_subset_insert [of xs n] by blast

lemma upd_node_wf:
  assumes "pool_wf p" and "\<And>v. 0 \<le> n_failCount v \<Longrightarrow> 0 \<le> n_failCount (f v)"
  shows "pool_wf (upd_node n f p)"
proof (cases "n < length (clients p)")
  case True
  with assms set_update_node [OF True, of "\<lambda>v. 0 \<le> n_failCount v" f] show ?thesis by (auto simp: pool_wf_def)
qed (use assms(1) in \<open>simp add: pool_wf_def list_update_beyond\<close>)

lemma markNodeUnhealthy_wf [pool_rules]: "pool_wf p \<Longrightarrow> pool_wf (markNodeUnhealthy now n p)"
  unfolding markNodeUnhealthy_def by (rule upd_node_wf) simp_all

lemma handleRPCError_wf [pool_rules]: "pool_wf p \<Longrightarrow> pool_wf (handleRPCError now n e p)"
proof -
  assume "pool_wf p"
  then have "pool_wf (upd_node n (\<lambda>v. v\<lparr>n_isHealthy := False, n_lastError := now, n_retryAfter := now + 5 * 60 * second\<rparr>) p)"
    by (rule upd_node_wf) simp
  then show ?thesis
    using markNodeUnhealthy_wf [OF \<open>pool_wf p\<close>, of now n]
    using length_filter_le [of n_isHealthy "(clients p)[n := x]" for x]
    by (simp add: handleRPCError_def Let_def pool_wf_def GetHealthyNodeCount_def)
qed

lemma incrementRequestCount_wf [pool_rules]: "pool_wf p \<Longrightarrow> pool_wf (incrementRequestCount p)"
  using wrap_i64_range [of "requestCount p + 1"] by (simp add: incrementRequestCount_def pool_wf_def)

lemma enforceSyncBatchLimit_wf [pool_rules]: "pool_wf p \<Longrightarrow> pool_wf (enforceSyncBatchLimit p)"
  by (simp add: enforceSyncBatchLimit_def pool_wf_def)

lemma checkHealth_wf [pool_rules]: "pool_wf p \<Longrightarrow> pool_wf (checkHealth now alive p)"
proof -
  assume wf: "pool_wf p"
  let ?vs = "map (\<lambda>i. check_node now (alive i) (clients p ! i)) [0..<length (clients p)]"
  have "0 \<le> n_failCount (clients p ! i)" if "i < length (clients p)" for i
    using wf nth_mem [OF that] by (simp add: pool_wf_def)
  then have "\<forall>v \<in> set ?vs. 0 \<le> n_failCount v" by (auto simp: check_node_def)
  moreover have "length (filter n_isHealthy ?vs) \<le> length (clients p)"
    using length_filter_le [of n_isHealthy ?vs] by simp
  ultimately show ?thesis using wf by (simp add: checkHealth_def pool_wf_def Let_def)
qed

lemma SetRateLimit_wf [pool_rules]: "pool_wf p \<Longrightarrow> pool_wf (Pool_SetRateLimit rps burst p)"
  by (simp add: Pool_SetRateLimit_def pool_wf_def)

lemma ResetRequestCount_wf [pool_rules]: "pool_wf p \<Longrightarrow> pool_wf (ResetRequestCount now p)"
  by (simp add: ResetRequestCount_def pool_wf_def min_i64_def max_i64_def)

subsection \<open>Selection\<close>

lemma pick_weighted_mem: "pick_weighted vs val c first xs \<in> insert first (set xs)"
  by (induction vs val c first xs rule: pick_weighted.induct) auto

lemma eligible_iff: "i \<in> set (eligible now p) \<longleftrightarrow>
    i < length (clients p) \<and> (n_isHealthy (clients p ! i) \<or> now > n_retryAfter (clients p ! i))"
  by (auto simp: eligible_def)

lemma getNextHealthyNode_cases [consumes 1, case_names none some]:
  assumes "getNextHealthyNode now p = (p1, r)"
  obtains "r = None" "p1 = p" "pool_size p = 0 \<or> eligible now p = []"
    | n where "r = Some n" "n \<in> set (eligible now p)" "p1 = p\<lparr>requestCount := wrap_i64 (requestCount p + 1)\<rparr>"
proof (cases "eligible now p")
  case (Cons i xs)
  let ?n = "pick_weighted (clients p) (trem (wrap_i64 (requestCount p + 1))
    (sum_list (map (\<lambda>j. node_weight (clients p ! j)) (i # xs)))) 0 i (i # xs)"
  have "?n \<in> set (eligible now p)" using pick_weighted_mem [of "clients p" _ 0 i "i # xs"] Cons by auto
  with assms that Cons show ?thesis
    by (auto simp: getNextHealthyNode_def Let_def simp del: pick_weighted.simps split: if_splits)
qed (use assms that in \<open>auto simp: getNextHealthyNode_def split: if_splits\<close>)

lemma getNext_wf [pool_rules]: "getNextHealthyNode now p = (p1, r) \<Longrightarrow> pool_wf p \<Longrightarrow> pool_wf p1"
  by (erule getNextHealthyNode_cases) (use wrap_i64_range [of "requestCount p + 1"] in \<open>auto simp: pool_wf_def\<close>)

lemma restore_node_wf [pool_rules]: "pool_wf p \<Longrightarrow> pool_wf (restore_node restore n p)"
  unfolding restore_node_def by (auto intro: upd_node_wf)

lemma attempt_nodes_wf [pool_rules]:
  "pool_wf p \<Longrightarrow> pool_wf (fst (attempt_nodes limited restore method E i k p))"
proof (induction k arbitrary: i p)
  case (Suc k)
  obtain p1 r where sel: "getNextHealthyNode (sel_now E i) p = (p1, r)" by fastforce
  with Suc.prems have wf1: "pool_wf p1" by (blast intro: getNext_wf)
  then have wf2: "pool_wf (incrementRequestCount p1)" by (rule incrementRequestCount_wf)
  show ?case
  proof (cases r)
    case (Some n)
    with sel wf1 wf2 Suc.IH show ?thesis
      by (cases "node_call E i n") (auto simp: Let_def split: option.splits intro: handleRPCError_wf restore_node_wf)
  qed (use sel wf1 in simp)
qed simp

text \<open>
  The contract of a request method: it keeps the pool well-formed and invents no answer. A client
  that runs any sequence of requests relies on nothing else.
\<close>

locale rpc_method =
  fixes request :: "'a pool_env \<Rightarrow> EnhancedRPCClientPool \<Rightarrow> EnhancedRPCClientPool \<times> (go_error + 'a)"
  assumes keeps_wf: "pool_wf p \<Longrightarrow> pool_wf (fst (request E p))"
    and authentic: "snd (request E p) = Inr a \<Longrightarrow> \<exists>i n. n < length (clients p) \<and> node_call E i n = Inr a"
begin

lemma run_wf: "pool_wf p \<Longrightarrow> pool_wf (fold (\<lambda>E q. fst (request E q)) Es p)"
  by (induction Es arbitrary: p) (auto intro: keeps_wf)

end

lemma attempt_length: "length (clients (handleRPCError now n e (incrementRequestCount p))) = length (clients p)"
  by (simp add: handleRPCError_def markNodeUnhealthy_def incrementRequestCount_def Let_def)

lemma attempt_nodes_authentic:
  "snd (attempt_nodes limited restore method E i k p) = Inr a \<Longrightarrow>
     \<exists>j n. n < length (clients p) \<and> node_call E j n = Inr a"
proof (induction k arbitrary: i p)
  case (Suc k)
  obtain p1 r where sel: "getNextHealthyNode (sel_now E i) p = (p1, r)" by fastforce
  then show ?case
  proof (cases rule: getNextHealthyNode_cases)
    case (some n)
    show ?thesis
    proof (cases "node_call E i n")
      case (Inl e)
      let ?p = "handleRPCError (err_now E i) n e (incrementRequestCount p1)"
      from Inl some sel Suc.prems have "snd (attempt_nodes limited restore method E (Suc i) k ?p) = Inr a"
        by (simp add: Let_def split: option.splits)
      from Suc.IH [OF this] some show ?thesis by (simp add: attempt_length)
    next
      case (Inr b)
      with some sel Suc.prems have "node_call E i n = Inr a" by (simp add: Let_def split: option.splits)
      with some show ?thesis by (auto simp: eligible_iff)
    qed
  qed (use sel Suc.prems in simp)
qed simp

lemma synced_request_contract: "rpc_method (synced_request meth)"
proof
  fix p :: EnhancedRPCClientPool and E :: "'a pool_env" and a
  show "pool_wf p \<Longrightarrow> pool_wf (fst (synced_request meth E p))"
    by (auto simp: synced_request_def Let_def split: option.splits intro: pool_rules)
  have "length (clients (enforceSyncBatchLimit p)) = length (clients p)" by (simp add: enforceSyncBatchLimit_def)
  then show "snd (synced_request meth E p) = Inr a \<Longrightarrow> \<exists>i n. n < length (clients p) \<and> node_call E i n = Inr a"
    using attempt_nodes_authentic [of True True meth E 0 _ "enforceSyncBatchLimit p" a]
    by (simp add: synced_request_def Let_def split: option.splits)
qed

interpretation block_request: rpc_method Pool_BlockByNumber
  unfolding Pool_BlockByNumber_def by (rule synced_request_contract)

interpretation header_request: rpc_method Pool_HeaderByNumber
  unfolding Pool_HeaderByNumber_def by (rule synced_request_contract)

interpretation logs_request: rpc_method Pool_FilterLogs
  unfolding Pool_FilterLogs_def by (rule synced_request_contract)

interpretation height_request: rpc_method Pool_GetLatestBlockNumber
  by unfold_locales
    (auto simp: Pool_GetLatestBlockNumber_def split: option.splits intro: pool_rules dest!: attempt_nodes_authentic)

interpretation contract_request: rpc_method Pool_CallContract
  by unfold_locales
    (auto simp: Pool_CallContract_def split: option.splits intro: pool_rules dest!: attempt_nodes_authentic)

subsection \<open>Well-formed pools\<close>

inductive pool_step :: "EnhancedRPCClientPool \<Rightarrow> EnhancedRPCClientPool \<Rightarrow> bool" where
  "pool_step p (fst (Pool_BlockByNumber Eb p))"
| "pool_step p (fst (Pool_HeaderByNumber (Eh :: nat pool_env) p))"
| "pool_step p (fst (Pool_FilterLogs El p))"
| "pool_step p (fst (Pool_GetLatestBlockNumber En p))"
| "pool_step p (fst (Pool_CallContract Ec p))"
| "pool_step p (checkHealth now alive p)"
| "pool_step p (Pool_SetRateLimit rps burst p)"
| "pool_step p (ResetRequestCount now p)"

lemma pool_step_wf: "pool_step p q \<Longrightarrow> pool_wf p \<Longrightarrow> pool_wf q"
  by (induction rule: pool_step.induct)
    (auto intro: pool_rules block_request.keeps_wf header_request.keeps_wf logs_request.keeps_wf
      height_request.keeps_wf contract_request.keeps_wf)

text \<open>
  (C25) The pool stays well-formed: after any requests, health checks, rate changes and counter
  resets, its size is the number of its nodes, which is not zero, no failure count is negative,
  the batch counter is at most 50 and the gauge reports no more nodes than there are.
\<close>

theorem pool_stays_well_formed:
  assumes "NewEnhancedRPCClientPoolWithTimeout env dial probe now urls isTestnet maxBatch = Inr p0"
    and "length urls < 2 ^ 31" and "pool_step\<^sup>*\<^sup>* p0 p"
  shows "clients p \<noteq> [] \<and> pool_size p = int (GetTotalNodeCount p) \<and> GetHealthyNodeCount p \<le> GetTotalNodeCount p
    \<and> (\<forall>v \<in> set (clients p). 0 \<le> n_failCount v) \<and> 0 \<le> currentSyncBatch p \<and> currentSyncBatch p \<le> 50
    \<and> healthyGauge p \<le> GetTotalNodeCount p"
proof -
  from assms(3) have "pool_wf p"
    by (induction rule: rtranclp_induct) (auto intro: NewPool_wf [OF assms(1,2)] pool_step_wf)
  then show ?thesis by (simp add: pool_wf_def GetTotalNodeCount_def GetHealthyNodeCount_def)
qed

theorem pool_stays_well_formed_witness:
  "\<exists>p0. NewEnhancedRPCClientPoolWithTimeout (\<lambda>v. []) (\<lambda>u. True) (\<lambda>u. True) 0 [''http://a'', ''http://b''] True 10 = Inr p0
     \<and> pool_size (checkHealth 5 (\<lambda>i. i = 0) p0) = 2 \<and> healthyGauge (checkHealth 5 (\<lambda>i. i = 0) p0) \<le> 2"
proof -
  let ?new = "NewEnhancedRPCClientPoolWithTimeout (\<lambda>v. []) (\<lambda>u. True) (\<lambda>u. True) 0 [''http://a'', ''http://b''] True 10"
  obtain p0 where p0: "?new = Inr p0"
    by (simp add: NewEnhancedRPCClientPoolWithTimeout_def Let_def)
  then have "length (clients p0) = 2" by (auto simp: NewEnhancedRPCClientPoolWithTimeout_def Let_def)
  moreover have "pool_step\<^sup>*\<^sup>* p0 (checkHealth 5 (\<lambda>i. i = 0) p0)" by (rule r_into_rtranclp) (rule pool_step.intros)
  ultimately show ?thesis
    using pool_stays_well_formed [OF p0 _, of "checkHealth 5 (\<lambda>i. i = 0) p0"] p0
    by (simp add: GetTotalNodeCount_def checkHealth_def Let_def)
qed

subsection \<open>Failover\<close>

text \<open>
  \<open>serves E g\<close>: no limiter refuses, node \<open>g\<close> answers every request, and the attempts of one call
  follow each other faster than the shortest back-off of one second.
\<close>

definition serves :: "'a pool_env \<Rightarrow> nat \<Rightarrow> bool" where
  "serves E g \<longleftrightarrow> global_wait E = None \<and> (\<forall>i u. node_wait E i u = None) \<and> (\<forall>i. \<exists>a. node_call E i g = Inr a)
     \<and> (\<forall>i j. i < j \<longrightarrow> sel_now E j \<le> err_now E i + second)"

lemma backoff_ge_one: "0 \<le> c \<Longrightarrow> 1 \<le> backoff_sec (c + 1)"
  by (simp add: backoff_sec_def)

lemma failed_node_excluded:
  fixes now e
  assumes "pool_wf p" and "n < length (clients p)"
  defines "q \<equiv> handleRPCError now n e p"
  shows "\<not> n_isHealthy (clients q ! n) \<and> now + second \<le> n_retryAfter (clients q ! n)
    \<and> (\<forall>m. m \<noteq> n \<longrightarrow> clients q ! m = clients p ! m) \<and> length (clients q) = length (clients p)"
proof -
  have "0 \<le> n_failCount (clients p ! n)" using assms(1,2) by (simp add: pool_wf_def)
  then have "second \<le> backoff_sec (n_failCount (clients p ! n) + 1) * second" using backoff_ge_one by fastforce
  then show ?thesis
    unfolding q_def using assms(2) by (auto simp: handleRPCError_def markNodeUnhealthy_def Let_def)
qed

lemma attempt_nodes_reaches:
  assumes "serves E g" and "pool_wf p" and "g < length (clients p)" and "n_isHealthy (clients p ! g)"
    and "F \<subseteq> {..<length (clients p)}" and "g \<notin> F" and "length (clients p) \<le> card F + k"
    and "\<forall>n \<in> F. \<not> n_isHealthy (clients p ! n) \<and> (\<forall>j \<ge> i. sel_now E j \<le> n_retryAfter (clients p ! n))"
  shows "\<exists>q a. attempt_nodes limited restore method E i k p = (q, Inr a)"
  using assms(2-)
proof (induction k arbitrary: i p F)
  case 0
  have "F \<subset> {..<length (clients p)}" using 0 by auto
  then have "card F < length (clients p)" using psubset_card_mono [of "{..<length (clients p)}" F] by simp
  with 0 show ?case by simp
next
  case (Suc k)
  obtain p1 r where sel: "getNextHealthyNode (sel_now E i) p = (p1, r)" by fastforce
  from sel show ?case
  proof (cases rule: getNextHealthyNode_cases)
    case none
    have "g \<in> set (eligible (sel_now E i) p)" using Suc.prems by (simp add: eligible_iff)
    with none Suc.prems(1) show ?thesis by (auto simp: pool_wf_def)
  next
    case (some n)
    have n: "n < length (clients p)" "n \<notin> F" using some(2) Suc.prems(7) by (fastforce simp: eligible_iff)+
    have "node_wait_err limited E i n p1 = None"
      using assms(1) by (simp add: node_wait_err_def serves_def Let_def)
    note step = this sel some(1)
    show ?thesis
    proof (cases "node_call E i n")
      case (Inl e)
      let ?p2 = "incrementRequestCount p1"
      let ?q = "handleRPCError (err_now E i) n e ?p2"
      have same: "clients ?p2 = clients p" by (simp add: incrementRequestCount_def some(3))
      have wf2: "pool_wf ?p2" using Suc.prems(1) sel by (blast intro: pool_rules)
      note ex = failed_node_excluded [OF wf2, of n "err_now E i" e, unfolded same, OF n(1)]
      have "g \<noteq> n" using Inl assms(1) by (auto simp: serves_def) (metis Inl_Inr_False)
      have "\<exists>q a. attempt_nodes limited restore method E (Suc i) k ?q = (q, Inr a)"
      proof (rule Suc.IH [of _ "insert n F"])
        show "pool_wf ?q" using wf2 by (rule handleRPCError_wf)
        have "card (insert n F) = Suc (card F)" using n Suc.prems(4) finite_subset by fastforce
        then show "length (clients ?q) \<le> card (insert n F) + k" using Suc.prems(6) ex by simp
        show "\<forall>m \<in> insert n F. \<not> n_isHealthy (clients ?q ! m) \<and> (\<forall>j \<ge> Suc i. sel_now E j \<le> n_retryAfter (clients ?q ! m))"
        proof
          fix m assume m: "m \<in> insert n F"
          show "\<not> n_isHealthy (clients ?q ! m) \<and> (\<forall>j \<ge> Suc i. sel_now E j \<le> n_retryAfter (clients ?q ! m))"
          proof (cases "m = n")
            case True
            have "sel_now E j \<le> err_now E i + second" if "j \<ge> Suc i" for j
              using that assms(1) by (simp add: serves_def)
            with ex True show ?thesis by (meson order.trans)
          next
            case False
            with m ex Suc.prems(7) show ?thesis by auto
          qed
        qed
      qed (use ex Suc.prems \<open>g \<noteq> n\<close> n in auto)
      with step Inl show ?thesis by (simp add: Let_def)
    qed (use step in \<open>simp add: Let_def\<close>)
  qed
qed

lemma served_request:
  assumes "pool_wf p" and "g < length (clients p)" and "n_isHealthy (clients p ! g)" and "serves E g"
  shows "\<exists>q a. synced_request method E p = (q, Inr a)"
    and "\<exists>q a. attempt_nodes limited restore method E 0 (nat (pool_size p)) p = (q, Inr a)"
proof -
  let ?p = "enforceSyncBatchLimit p"
  have same: "clients ?p = clients p" "pool_size ?p = pool_size p" "pool_wf ?p"
    using enforceSyncBatchLimit_wf [OF assms(1)] by (simp_all add: enforceSyncBatchLimit_def)
  have size: "length (clients p) \<le> nat (pool_size p)" using assms(1) by (simp add: pool_wf_def)
  have "global_wait_err E ?p = None" using assms(4) by (simp add: global_wait_err_def serves_def)
  moreover have "\<exists>q a. attempt_nodes True True method E 0 (nat (pool_size p)) ?p = (q, Inr a)"
    by (rule attempt_nodes_reaches [where F = "{}", OF assms(4)]) (use assms same size in simp_all)
  ultimately show "\<exists>q a. synced_request method E p = (q, Inr a)"
    by (simp add: synced_request_def Let_def same)
  show "\<exists>q a. attempt_nodes limited restore method E 0 (nat (pool_size p)) p = (q, Inr a)"
    by (rule attempt_nodes_reaches [where F = "{}", OF assms(4)]) (use assms size in simp_all)
qed


definition sample_pool :: EnhancedRPCClientPool where
  "sample_pool =
     \<lparr>clients = map (\<lambda>u. \<lparr>n_url = u, n_isHealthy = True, n_failCount = 0, n_lastError = zero_time,
        n_retryAfter = zero_time, n_weight = 1\<rparr>) [''a'', ''b''], pool_size = 2, globalRateLimiter = (20, 40),
      nodeRateLimiters = [], requestCount = 0, lastResetTime = 0, isTestnetMode = False, maxSyncBatch = 10,
      currentSyncBatch = 0, quotaMonitor = NewQuotaMonitor 0, rpcURLs = [''a'', ''b''], healthyGauge = 2\<rparr>"

lemma sample_pool_wf: "pool_wf sample_pool"
  by (simp add: pool_wf_def sample_pool_def min_i64_def max_i64_def)


subsection \<open>Rotation\<close>

lemma trem_nonneg: "0 \<le> a \<Longrightarrow> 0 < b \<Longrightarrow> trem a b = a mod b"
  by (simp add: trem_def tdiv_nonneg minus_mult_div_eq_mod)

lemma pick_unit:
  assumes "\<forall>j < m. node_weight (vs ! j) = 1" and "int c \<le> val" and "val < int m"
  shows "pick_weighted vs val (int c) f [c..<m] = nat val"
  using assms(2)
proof (induction "m - c" arbitrary: c)
  case 0
  with assms(3) show ?case by simp
next
  case (Suc d)
  then have cm: "c < m" by simp
  show ?case
  proof (cases "val < int c + 1")
    case True
    with Suc.prems assms(1) cm show ?thesis by (simp add: upt_conv_Cons)
  next
    case False
    with Suc.hyps(1) [of "Suc c"] Suc.hyps(2) assms(1) cm show ?thesis by (simp add: upt_conv_Cons add.commute)
  qed
qed

text \<open>Equal healthy nodes, and requests that every node answers with its own position.\<close>

definition balanced_pool :: "EnhancedRPCClientPool \<Rightarrow> bool" where
  "balanced_pool p \<longleftrightarrow> pool_wf p \<and> (\<forall>v \<in> set (clients p). n_isHealthy v \<and> n_weight v = 1) \<and> 0 \<le> requestCount p"

definition echo_env :: "nat pool_env \<Rightarrow> bool" where
  "echo_env E \<longleftrightarrow> global_wait E = None \<and> (\<forall>i u. node_wait E i u = None) \<and> (\<forall>i n. node_call E i n = Inr n)"

lemma balanced_selection:
  assumes "balanced_pool p" and "requestCount p + 1 \<le> max_i64"
  shows "getNextHealthyNode now p =
    (p\<lparr>requestCount := requestCount p + 1\<rparr>, Some (nat ((requestCount p + 1) mod int (length (clients p)))))"
proof -
  let ?m = "length (clients p)"
  have w: "\<forall>j < ?m. node_weight (clients p ! j) = 1"
    using assms(1) by (simp add: balanced_pool_def node_weight_def)
  have el: "eligible now p = [0..<?m]" using assms(1) by (simp add: balanced_pool_def eligible_def filter_id_conv)
  have m: "0 < ?m" "pool_size p \<noteq> 0" using assms(1) by (auto simp: balanced_pool_def pool_wf_def)
  have "map (\<lambda>j. node_weight (clients p ! j)) [0..<?m] = replicate ?m 1"
    using w by (intro nth_equalityI) simp_all
  then have total: "sum_list (map (\<lambda>j. node_weight (clients p ! j)) [0..<?m]) = int ?m"
    by (simp add: sum_list_replicate)
  have count: "wrap_i64 (requestCount p + 1) = requestCount p + 1" and nn: "0 \<le> requestCount p + 1"
    using assms by (auto intro: wrap_i64_id simp: balanced_pool_def min_i64_def)
  have "pick_weighted (clients p) ((requestCount p + 1) mod int ?m) (int 0) 0 [0..<?m] = nat ((requestCount p + 1) mod int ?m)"
    using m(1) by (intro pick_unit [OF w]) simp_all
  moreover have "trem (requestCount p + 1) (int ?m) = (requestCount p + 1) mod int ?m"
    using nn m(1) by (simp add: trem_nonneg)
  moreover have "[0..<?m] = 0 # [Suc 0..<?m]" using m(1) by (simp add: upt_conv_Cons)
  ultimately show ?thesis
    using m(2) total count unfolding getNextHealthyNode_def el
    by (simp add: Let_def del: upt_Suc pick_weighted.simps sum_list.Cons list.map)
qed

lemma balanced_request:
  assumes "balanced_pool p" and "echo_env E" and "requestCount p + 2 \<le> max_i64"
  shows "\<exists>q. Pool_HeaderByNumber E p = (q, Inr (nat ((requestCount p + 1) mod int (length (clients p)))))
    \<and> balanced_pool q \<and> requestCount q = requestCount p + 2 \<and> clients q = clients p"
proof -
  let ?p = "enforceSyncBatchLimit p" and ?n = "nat ((requestCount p + 1) mod int (length (clients p)))"
  have bal: "balanced_pool ?p" and same: "clients ?p = clients p" "requestCount ?p = requestCount p" "pool_size ?p = pool_size p"
    using assms(1) enforceSyncBatchLimit_wf [of p] by (auto simp: balanced_pool_def enforceSyncBatchLimit_def)
  have wf: "pool_wf p" and len: "0 < length (clients p)" using assms(1) by (auto simp: balanced_pool_def pool_wf_def)
  then obtain k where k: "nat (pool_size p) = Suc k" by (cases "nat (pool_size p)") (auto simp: pool_wf_def)
  have sel: "getNextHealthyNode (sel_now E 0) ?p = (?p\<lparr>requestCount := requestCount p + 1\<rparr>, Some ?n)"
    using balanced_selection [OF bal, of "sel_now E 0"] assms(3) same by simp
  have n: "?n < length (clients p)" using len by (simp add: nat_less_iff)
  let ?q = "incrementRequestCount (?p\<lparr>requestCount := requestCount p + 1\<rparr>)"
  have count: "wrap_i64 (2 + requestCount p) = 2 + requestCount p"
    using assms(1,3) by (intro wrap_i64_id) (simp add: balanced_pool_def min_i64_def)
  have "n_isHealthy (clients ?q ! ?n)" using assms(1) n same by (simp add: balanced_pool_def incrementRequestCount_def)
  then have res: "restore_node True ?n ?q = ?q" by (simp add: restore_node_def)
  have "Pool_HeaderByNumber E p = (?q, Inr ?n)"
    using assms(2) sel res
    by (simp add: Pool_HeaderByNumber_def synced_request_def Let_def same k global_wait_err_def echo_env_def node_wait_err_def)
  moreover have "balanced_pool ?q"
    using bal count assms(1,3) by (simp add: balanced_pool_def incrementRequestCount_def pool_wf_def same min_i64_def)
  moreover have "requestCount ?q = requestCount p + 2 \<and> clients ?q = clients p"
    using count by (simp add: incrementRequestCount_def same)
  ultimately show ?thesis by blast
qed

lemma balanced_run:
  assumes "balanced_pool p" and "echo_env E" and "requestCount p + 2 * int k \<le> max_i64"
  shows "balanced_pool (((\<lambda>q. fst (Pool_HeaderByNumber E q)) ^^ k) p)
    \<and> requestCount (((\<lambda>q. fst (Pool_HeaderByNumber E q)) ^^ k) p) = requestCount p + 2 * int k
    \<and> clients (((\<lambda>q. fst (Pool_HeaderByNumber E q)) ^^ k) p) = clients p"
  using assms(3)
proof (induction k)
  case (Suc k)
  let ?q = "((\<lambda>q. fst (Pool_HeaderByNumber E q)) ^^ k) p"
  from Suc have "balanced_pool ?q" "requestCount ?q = requestCount p + 2 * int k" "clients ?q = clients p" by auto
  with balanced_request [of ?q E] assms(2) Suc.prems show ?case by auto
qed (use assms(1) in simp)

text \<open>
  The rotation counts every request twice, once in the selection and once after the answer.
  With an even number of equal, healthy nodes all requests therefore go to nodes of the same
  parity: the other half of the pool is never used.
\<close>

lemma half_of_pool_idle:
  assumes "balanced_pool p" and "echo_env E" and "even (length (clients p))"
    and "requestCount p + 2 * int k + 2 \<le> max_i64"
  shows "\<exists>n. snd (Pool_HeaderByNumber E (((\<lambda>q. fst (Pool_HeaderByNumber E q)) ^^ k) p)) = Inr n
    \<and> n < length (clients p) \<and> (even n \<longleftrightarrow> odd (requestCount p))"
proof -
  let ?q = "((\<lambda>q. fst (Pool_HeaderByNumber E q)) ^^ k) p" and ?m = "int (length (clients p))"
  have run: "balanced_pool ?q" "requestCount ?q = requestCount p + 2 * int k" "clients ?q = clients p"
    using balanced_run [OF assms(1,2), of k] assms(4) by auto
  let ?v = "(requestCount p + 2 * int k + 1) mod ?m"
  have len: "0 < ?m" using assms(1) by (simp add: balanced_pool_def pool_wf_def)
  have "snd (Pool_HeaderByNumber E ?q) = Inr (nat ?v)"
    using balanced_request [OF run(1) assms(2)] run assms(4) by auto
  moreover have "even (nat ?v) \<longleftrightarrow> odd (requestCount p)"
  proof -
    have "even ?v \<longleftrightarrow> even (requestCount p + 2 * int k + 1)"
      using assms(3) by (simp add: dvd_mod_iff)
    then show ?thesis using len by (simp add: even_nat_iff)
  qed
  moreover have "nat ?v < length (clients p)" using len by (simp add: nat_less_iff)
  ultimately show ?thesis by blast
qed

text \<open>
  The five-minute pause after a rate-limit error is cut short: a health check more than thirty
  seconds after the error puts the node back into rotation although its \<open>retryAfter\<close> is not reached.
\<close>

lemma cooldown_cut_short:
  assumes "pool_wf p" and "n < length (clients p)" and "is_rate_limited e"
    and "t + 30 * second < now" and "now < t + 300 * second" and "alive n"
  shows "n \<in> set (eligible now (checkHealth now alive (handleRPCError t n e p)))
    \<and> now < n_retryAfter (clients (checkHealth now alive (handleRPCError t n e p)) ! n)"
  using assms by (simp add: eligible_iff checkHealth_def handleRPCError_def check_node_def Let_def)

text \<open>
  The index of the plain pool is an \<open>int32\<close> that wraps to negative values; the first such index
  that is not a multiple of the pool's size, at the latest the second, makes the access panic.
\<close>

lemma plain_pool_panics:
  assumes "rp_size p = int (length (rp_clients p))" and "2 \<le> rp_size p" and "rp_size p < 2 ^ 31"
    and "rp_index p = 2147483647"
  shows "RPCClientPool_getNextHealthyNode p = Panic
    \<or> (\<exists>p1 n. RPCClientPool_getNextHealthyNode p = Ret (p1, n) \<and> RPCClientPool_getNextHealthyNode p1 = Panic)"
proof -
  let ?s = "rp_size p"
  have neg: "trem a ?s = - ((- a) mod ?s)" if "a < 0" for a
    using that assms(2) by (simp add: trem_def tdiv_def sgn_if minus_div_mult_eq_mod [symmetric] algebra_simps)
  have w: "wrap_i32 2147483648 = - 2147483648" "wrap_i32 (- 2147483647) = - 2147483647" by (simp_all add: wrap_i32_def)
  show ?thesis
  proof (cases "2147483648 mod ?s = 0")
    case True
    have "2147483647 mod ?s \<noteq> 0"
    proof
      assume "2147483647 mod ?s = 0"
      with True have "?s dvd 2147483648 - 2147483647" by (intro dvd_diff) auto
      with assms(2) show False by (simp add: zdvd_not_zless)
    qed
    then have pos: "0 < 2147483647 mod ?s" using assms(2) by (simp add: order_less_le)
    let ?p = "p\<lparr>rp_index := - 2147483648\<rparr>"
    have "RPCClientPool_getNextHealthyNode p = Ret (?p, Some 0)"
      using True assms neg [of "- 2147483648"] w by (auto simp: RPCClientPool_getNextHealthyNode_def Let_def)
    moreover have "RPCClientPool_getNextHealthyNode ?p = Panic"
      using pos assms neg [of "- 2147483647"] w by (auto simp: RPCClientPool_getNextHealthyNode_def Let_def)
    ultimately show ?thesis by blast
  next
    case False
    then have "0 < 2147483648 mod ?s" using assms(2) by (simp add: order_less_le)
    then show ?thesis
      using assms neg [of "- 2147483648"] w by (auto simp: RPCClientPool_getNextHealthyNode_def Let_def)
  qed
qed

end
