(* ===== verification/Startup.thy ===== *)
theory Startup
  imports Config Async_Writer Rpc_Pool
begin

section \<open>Process start-up (cmd/indexer/main\_init.go, main\_services.go)\<close>

text \<open>
  Where indexing starts, and what start-up writes to the database: the choice of the first block,
  the anchor of its parent, the cut of a database that is ahead of a restarted local chain, and
  the choice of the RPC pool. The node's answers and the errors of the database are arguments.
\<close>

subsection \<open>The first block\<close>

definition getDefaultStartBlockForChain :: "int \<Rightarrow> int" where
  "getDefaultStartBlockForChain chainID = (if chainID = 11155111 then 10262444 else 0)"

text \<open>\<open>latest\<close> is the node's answer, \<open>query_ok\<close> says whether the checkpoint query gets through.\<close>

definition getStartBlockFromCheckpoint ::
    "Config \<Rightarrow> go_error + int \<Rightarrow> go_error option \<Rightarrow> bool \<Rightarrow> int \<Rightarrow> string \<Rightarrow> bool \<Rightarrow> db \<Rightarrow> db \<times> (go_error + int)" where
  "getStartBlockFromCheckpoint cfg latest reset_err query_ok chainID forceFrom resetDB d =
     (if resetDB
      then (case reset_err of
              Some e \<Rightarrow> (d, Inl (Wrapped ''reset database failed'' e))
            | None \<Rightarrow> (d\<lparr>db_blocks := [], db_transfers := [], db_checkpoints := []\<rparr>,
                       Inr (getDefaultStartBlockForChain chainID)))
      else (d,
        if forceFrom \<noteq> []
        then (if forceFrom = ''latest''
              then (case latest of
                      Inl e \<Rightarrow> Inl (Wrapped ''get latest block for forceFrom=latest'' e)
                    | Inr n \<Rightarrow> Inr (n + 1))
              else case SetString10 forceFrom of
                     Some n \<Rightarrow> Inr n
                   | None \<Rightarrow> Inl (OtherError ''invalid forceFrom block number''))
        else if StartBlockStr cfg = ''latest''
        then (case latest of
                Inl e \<Rightarrow> Inl (Wrapped ''get latest block for StartBlockStr=latest'' e)
              | Inr n \<Rightarrow> Inr (if n - 6 < 0 then 0 else n - 6))
        else if StartBlock cfg > 0 then Inr (StartBlock cfg)
        else
          let lastSyncedBlock =
                (if query_ok then (case map_of (db_checkpoints d) chainID of None \<Rightarrow> [] | Some n \<Rightarrow> big_string n) else [])
          in if lastSyncedBlock = [] then Inr (getDefaultStartBlockForChain chainID)
             else case SetString10 lastSyncedBlock of
                    None \<Rightarrow> Inl (OtherError ''invalid checkpoint block number'')
                  | Some n \<Rightarrow> Inr (n + 1)))"

text \<open>\<open>initEngine\<close> falls back to the configured block when none can be determined.\<close>

definition start_block_of :: "Config \<Rightarrow> go_error + int \<Rightarrow> int" where
  "start_block_of cfg r = (case r of Inl e \<Rightarrow> StartBlock cfg | Inr n \<Rightarrow> n)"

text \<open>The parent of the first block, as the node answers, becomes the anchor of the hash chain.\<close>

definition anchor_row :: "int \<Rightarrow> EthBlock \<Rightarrow> BlockRow" where
  "anchor_row n b =
     \<lparr>br_number = n, br_hash = eb_Hash b, br_parent_hash = eb_ParentHash b, br_timestamp = uint (eb_Time b),
      br_gas_limit = 0, br_gas_used = 0, br_base_fee = None, br_tx_count = 0\<rparr>"

definition setupParentAnchor :: "(int \<Rightarrow> go_error + EthBlock option) \<Rightarrow> bool \<Rightarrow> int \<Rightarrow> db \<Rightarrow> db" where
  "setupParentAnchor answer db_up startBlock d =
     (if startBlock \<le> 0 then d
      else case answer (startBlock - 1) of
             Inr (Some parent) \<Rightarrow> if db_up then insert_block (anchor_row (startBlock - 1) parent) d else d
           | _ \<Rightarrow> d)"

subsection \<open>A restarted local chain\<close>

text \<open>
  \<open>AlignAnvilData\<close>: blocks above the node's height are deleted, their transfers with them, and the
  checkpoint of chain 31337 is set to the height. \<open>delete_ok\<close> and \<open>update_ok\<close>: the statements get
  through. A height that does not fit the \<open>uint64\<close> variable is a query error.
\<close>

definition set_checkpoint :: "int \<Rightarrow> int \<Rightarrow> db \<Rightarrow> db" where
  "set_checkpoint chain n d = d\<lparr>db_checkpoints := map (\<lambda>(c, m). (c, if c = chain then n else m)) (db_checkpoints d)\<rparr>"

definition AlignAnvilData :: "go_error + int \<Rightarrow> bool \<Rightarrow> bool \<Rightarrow> bool \<Rightarrow> db \<Rightarrow> db" where
  "AlignAnvilData tip query_ok delete_ok update_ok d =
     (case tip of
        Inl e \<Rightarrow> d
      | Inr t \<Rightarrow>
          (let rpcHeight = num_u64 t; stored = GetMaxStoredBlock d in
           if \<not> query_ok \<or> stored < 0 \<or> stored \<ge> 2 ^ 64 then d
           else
             let dbHeight = (word_of_int stored :: u64) in
             if dbHeight > rpcHeight then
               (if \<not> delete_ok then d
                else let d1 = delete_blocks_from (uint rpcHeight + 1) d
                     in if \<not> update_ok then d1 else set_checkpoint anvil_chain_id (uint rpcHeight) d1)
             else d))"

subsection \<open>The RPC pool\<close>

text \<open>\<open>setupRPC\<close>: only a test network gets the pool with failover.\<close>

definition setupRPC ::
    "(string \<Rightarrow> string) \<Rightarrow> (string \<Rightarrow> bool) \<Rightarrow> (string \<Rightarrow> bool) \<Rightarrow> time \<Rightarrow> Config
      \<Rightarrow> go_error + (EnhancedRPCClientPool + RPCClientPool)" where
  "setupRPC env dial probe now cfg =
     (if IsTestnet cfg
      then (case NewEnhancedRPCClientPoolWithTimeout env dial probe now (RPCURLs cfg) (IsTestnet cfg) (MaxSyncBatch cfg) of
              Inl e \<Rightarrow> Inl e
            | Inr p \<Rightarrow> Inr (Inl (Pool_SetRateLimit (of_int (RPCRateLimit cfg)) (wrap_i64 (RPCRateLimit cfg * 2)) p)))
      else (case NewRPCClientPoolWithTimeout dial (RPCURLs cfg) of
              Inl e \<Rightarrow> Inl e
            | Inr p \<Rightarrow> Inr (Inr p)))"

subsection \<open>Properties\<close>

lemma start_from_checkpoint:
  assumes "StartBlockStr cfg \<noteq> ''latest''" and "StartBlock cfg \<le> 0"
    and "map_of (db_checkpoints d) chain = Some n"
  shows "getStartBlockFromCheckpoint cfg latest reset_err True chain [] False d = (d, Inr (n + 1))"
  using assms by (simp add: getStartBlockFromCheckpoint_def)

lemma setup_anchor_wf: "db_wf d \<Longrightarrow> db_wf (setupParentAnchor answer db_up n d)"
  by (auto simp: setupParentAnchor_def db_wf_def insert_block_def split: sum.splits option.splits)

lemma AlignAnvilData_wf: "db_wf d \<Longrightarrow> db_wf (AlignAnvilData tip q del upd d)"
proof -
  have del: "db_wf (delete_blocks_from n d)" if "db_wf d" for n d
    using that by (auto simp: db_wf_def delete_blocks_from_def distinct_map_filter)
  then show "db_wf d \<Longrightarrow> ?thesis"
    by (auto simp: AlignAnvilData_def set_checkpoint_def db_wf_def Let_def split: sum.splits)
qed

text \<open>Tasks as the sequencer hands them over: consecutive heights from \<open>s\<close> on.\<close>

definition in_sequence :: "int \<Rightarrow> PersistTask list \<Rightarrow> bool" where
  "in_sequence s ts \<longleftrightarrow> map (uint \<circ> task_Height) ts = [s..s + int (length ts) - 1]
     \<and> (\<forall>t \<in> set ts. Number (task_Block t) = uint (task_Height t))"

lemma in_sequence_append:
  assumes "in_sequence s (xs @ ys)"
  shows "map (uint \<circ> task_Height) xs = [s..s + int (length xs) - 1]"
    and "map (uint \<circ> task_Height) ys = [s + int (length xs)..s + int (length xs) + int (length ys) - 1]"
proof -
  let ?m = "s + int (length xs) - 1" and ?n = "s + int (length (xs @ ys)) - 1"
  have "[s..?n] = [s..?m] @ [?m + 1..?n]"
    using upto_split2 [of s ?m ?n] by (cases "xs = []") (simp_all add: Suc_le_eq)
  then have "map (uint \<circ> task_Height) xs @ map (uint \<circ> task_Height) ys = [s..?m] @ [?m + 1..?n]"
    using assms by (simp add: in_sequence_def)
  moreover have "length (map (uint \<circ> task_Height) xs) = length [s..?m]" by simp
  ultimately have "map (uint \<circ> task_Height) xs = [s..?m]" "map (uint \<circ> task_Height) ys = [?m + 1..?n]"
    by (simp_all del: length_upto)
  then show "map (uint \<circ> task_Height) xs = [s..s + int (length xs) - 1]"
    "map (uint \<circ> task_Height) ys = [s + int (length xs)..s + int (length xs) + int (length ys) - 1]"
    by (simp_all add: algebra_simps)
qed

lemma in_sequence_sorted:
  assumes "in_sequence s ts"
  shows "sorted (map task_Height ts)"
proof -
  have "sorted (map (uint \<circ> task_Height) ts)" using assms by (simp add: in_sequence_def)
  then show ?thesis by (simp add: sorted_map word_le_def)
qed


definition plain_config :: Config where
  "plain_config = Load (\<lambda>_. [])"

lemma plain_config_start [simp]: "StartBlockStr plain_config = ''0''" "StartBlock plain_config = 0"
  by (simp_all add: plain_config_def Load_def load_base_def Let_def getEnv_def getEnvAsInt64_def)


end
