(* ===== verification/Watchdog.thy ===== *)
theory Watchdog
  imports Pipeline Storage
begin

section \<open>The deadlock watchdog (internal/engine/watchdog\_deadlock.go)\<close>

text \<open>
  Every 30 seconds the watchdog compares the node's height with the database cursor and the
  sequencer. When the sequencer has been idle for two minutes and both are more than the gap
  threshold behind, it jumps: the cursor is moved to the block before the head, the sequencer
  expects the head, its buffer is cleared, and the range that was jumped over is scheduled again.

  The state a check acts on is \<open>heal_state\<close>: the watchdog with its three counters, the sequencer, the
  database, the orchestrator, the events sent to the callback, and the ranges handed to the
  fetcher by the goroutine of the last step.
\<close>

record HealingEvent =
  TriggerReason :: string
  DBWatermark :: int
  RPCHeight :: int
  GapSize :: int
  Success :: bool
  he_Error :: string

record DeadlockWatchdog =
  dw_enabled :: bool
  dw_chainID :: int
  dw_demoMode :: bool
  stallThreshold :: duration
  dw_checkInterval :: duration
  gapThreshold :: int
  dw_hasFetcher :: bool
  dw_hasCallback :: bool
  SelfHealingTriggered :: nat
  SelfHealingSuccess :: nat
  SelfHealingFailure :: nat

definition NewDeadlockWatchdog :: "int \<Rightarrow> bool \<Rightarrow> DeadlockWatchdog" where
  "NewDeadlockWatchdog chain demo =
     \<lparr>dw_enabled = False, dw_chainID = chain, dw_demoMode = demo, stallThreshold = 120 * second,
      dw_checkInterval = 30 * second, gapThreshold = 1000, dw_hasFetcher = False, dw_hasCallback = False,
      SelfHealingTriggered = 0, SelfHealingSuccess = 0, SelfHealingFailure = 0\<rparr>"

definition SetFetcher :: "DeadlockWatchdog \<Rightarrow> DeadlockWatchdog" where
  "SetFetcher dw = dw\<lparr>dw_hasFetcher := True\<rparr>"

definition SetGapThreshold :: "int \<Rightarrow> DeadlockWatchdog \<Rightarrow> DeadlockWatchdog" where
  "SetGapThreshold n dw = (if n > 0 then dw\<lparr>gapThreshold := n\<rparr> else dw)"

definition Enable :: "DeadlockWatchdog \<Rightarrow> DeadlockWatchdog" where
  "Enable dw = dw\<lparr>dw_enabled := True\<rparr>"

record 'p heal_state =
  h_dog :: DeadlockWatchdog
  h_seq :: "'p Sequencer"
  h_db :: db
  h_orch :: Orchestrator
  h_events :: "HealingEvent list"
  h_scheduled :: "(int \<times> int) list"

definition notifyHealingEvent :: "HealingEvent \<Rightarrow> 'p heal_state \<Rightarrow> 'p heal_state" where
  "notifyHealingEvent ev h = (if dw_hasCallback (h_dog h) then h\<lparr>h_events := h_events h @ [ev]\<rparr> else h)"

text \<open>The test for a \<open>space_time_tear\<close>.\<close>

definition is_tear :: "DeadlockWatchdog \<Rightarrow> int \<Rightarrow> int \<Rightarrow> int \<Rightarrow> bool" where
  "is_tear dw rpc dbHeight expected \<longleftrightarrow>
     wrap_i64 (rpc - dbHeight) > gapThreshold dw \<and> wrap_i64 expected < wrap_i64 (rpc - gapThreshold dw)"

text \<open>
  \<open>rpc\<close> is the node's answer; \<open>query_err\<close> and \<open>update_err\<close> are the errors of the two statements, \<open>pd\<close>
  the choice of the dispatch after shutdown; \<open>now\<close> is the clock of the reset.
\<close>

definition checkAndHeal ::
    "time \<Rightarrow> go_error + int \<Rightarrow> go_error option \<Rightarrow> go_error option \<Rightarrow> bool \<Rightarrow> 'p heal_state \<Rightarrow> 'p heal_state \<times> go_error option" where
  "checkAndHeal now rpc query_err update_err pd h =
     (let dw = h_dog h in
      if \<not> dw_enabled dw then (h, None)
      else if GetIdleTime now (h_seq h) < stallThreshold dw then (h, None)
      else case rpc of
        Inl e \<Rightarrow> (h, Some e)
      | Inr rpcHeight \<Rightarrow>
          (case (case query_err of Some e \<Rightarrow> Inl e | None \<Rightarrow> GetSyncCursor (h_db h)) of
             Inl e \<Rightarrow> (h, Some e)
           | Inr dbHeight \<Rightarrow>
               (let r = wrap_i64 rpcHeight; gap = wrap_i64 (r - dbHeight) in
                if \<not> is_tear dw r dbHeight (GetExpectedBlock (h_seq h)) then (h, None)
                else
                  let h1 = h\<lparr>h_dog := dw\<lparr>SelfHealingTriggered := SelfHealingTriggered dw + 1\<rparr>\<rparr>;
                      ev = \<lparr>TriggerReason = ''space_time_tear'', DBWatermark = dbHeight, RPCHeight = r, GapSize = gap,
                            Success = False, he_Error = []\<rparr>;
                      newCursor = wrap_i64 (r - 1)
                  in case update_err of
                       Some e \<Rightarrow>
                         (let h2 = notifyHealingEvent (ev\<lparr>he_Error := ''Step 1 failed: '' @ error_text e\<rparr>) h1
                          in (h2\<lparr>h_dog := (h_dog h2)\<lparr>SelfHealingFailure := SelfHealingFailure (h_dog h2) + 1\<rparr>\<rparr>, Some e))
                     | None \<Rightarrow>
                         (let h2 = h1\<lparr>h_db := UpdateSyncCursor newCursor (h_db h1),
                                h_seq := ClearBuffer (ResetExpectedBlock now rpcHeight (h_seq h1)),
                                h_orch := ForceSetCursors (word_of_int newCursor)
                                            (Orchestrator_SetSystemState pd SystemStateHealing (h_orch h1))\<rparr>;
                              h3 = (if dw_hasFetcher dw \<and> dbHeight < wrap_i64 (r - 1)
                                    then h2\<lparr>h_scheduled := h_scheduled h2 @ [(dbHeight + 1, rpcHeight)]\<rparr> else h2);
                              h4 = notifyHealingEvent (ev\<lparr>Success := True\<rparr>) h3
                          in (h4\<lparr>h_dog := (h_dog h4)\<lparr>SelfHealingSuccess := SelfHealingSuccess (h_dog h4) + 1\<rparr>\<rparr>, None)))))"

subsection \<open>When the watchdog acts, and what becomes of the gap\<close>

lemma notify_frame [simp, frames]:
  "h_dog (notifyHealingEvent ev h) = h_dog h" "h_seq (notifyHealingEvent ev h) = h_seq h"
  "h_db (notifyHealingEvent ev h) = h_db h" "h_orch (notifyHealingEvent ev h) = h_orch h"
  "h_scheduled (notifyHealingEvent ev h) = h_scheduled h"
  by (simp_all add: notifyHealingEvent_def)

text \<open>
  (C30) The watchdog jumps exactly over a tear: without an error it either leaves sequencer, database,
  orchestrator and fetcher alone, or the sequencer was idle for the threshold, database and
  sequencer were more than the gap threshold behind the node, and afterwards the sequencer expects
  the node's height with an empty buffer and every checkpoint is the block before it.
\<close>

theorem watchdog_heals_exactly_tears:
  assumes "checkAndHeal now (Inr rpc) None None pd h = (h', None)" and "in_i64 rpc" and "in_i64 (rpc - gapThreshold (h_dog h))"
    and "dw_enabled (h_dog h)" and "GetSyncCursor (h_db h) = Inr cursor" and "in_i64 (rpc - cursor)"
    and "in_i64 (expectedBlock (h_seq h))" and "min_i64 < rpc"
  shows "if stallThreshold (h_dog h) \<le> GetIdleTime now (h_seq h) \<and> gapThreshold (h_dog h) < rpc - cursor
           \<and> expectedBlock (h_seq h) < rpc - gapThreshold (h_dog h)
    then expectedBlock (h_seq h') = rpc \<and> buffer (h_seq h') = [] \<and> (\<forall>(c, n) \<in> set (db_checkpoints (h_db h')). n = rpc - 1)
      \<and> db_blocks (h_db h') = db_blocks (h_db h) \<and> proc (h_seq h') = proc (h_seq h)
    else h_seq h' = h_seq h \<and> h_db h' = h_db h \<and> h_orch h' = h_orch h \<and> h_scheduled h' = h_scheduled h"
proof -
  have w: "wrap_i64 rpc = rpc" "wrap_i64 (rpc - cursor) = rpc - cursor" "wrap_i64 (rpc - gapThreshold (h_dog h)) = rpc - gapThreshold (h_dog h)"
    "wrap_i64 (expectedBlock (h_seq h)) = expectedBlock (h_seq h)" "wrap_i64 (rpc - 1) = rpc - 1"
    using assms(2,3,6-8) by (auto intro!: wrap_i64_id)
  show ?thesis using assms(1,4,5)
    by (auto simp: checkAndHeal_def Let_def is_tear_def GetExpectedBlock_def w UpdateSyncCursor_def set_all_checkpoints_def
        ResetExpectedBlock_def ClearBuffer_def split: if_splits)
qed

definition sample_heal :: "Processor heal_state" where
  "sample_heal =
     \<lparr>h_dog = SetFetcher (Enable (NewDeadlockWatchdog 1 False)),
      h_seq = NewSequencerWithFetcher (sample_proc 1) (Some False) 7 1 None 0,
      h_db = empty_db\<lparr>db_checkpoints := [(1, 6)]\<rparr>, h_orch = newOrchestrator 0, h_events = [], h_scheduled = []\<rparr>"

lemma sample_heal_run:
  "\<exists>h'. checkAndHeal (300 * second) (Inr 5000) None None False sample_heal = (h', None)"
  by (simp add: checkAndHeal_def Let_def sample_heal_def SetFetcher_def Enable_def NewDeadlockWatchdog_def GetSyncCursor_def)

lemma sample_heal_facts:
  "dw_enabled (h_dog sample_heal)" "dw_hasFetcher (h_dog sample_heal)" "gapThreshold (h_dog sample_heal) = 1000"
  "stallThreshold (h_dog sample_heal) = 120 * second" "GetSyncCursor (h_db sample_heal) = Inr 6"
  "expectedBlock (h_seq sample_heal) = 7" "lastProgressAt (h_seq sample_heal) = 0" "h_scheduled sample_heal = []"
  by (simp_all add: sample_heal_def SetFetcher_def Enable_def NewDeadlockWatchdog_def GetSyncCursor_def wrap_i64_def
      NewSequencerWithFetcher_def)

theorem watchdog_heals_exactly_tears_witness:
  "\<exists>h'. checkAndHeal (300 * second) (Inr 5000) None None False sample_heal = (h', None) \<and> expectedBlock (h_seq h') = 5000"
proof -
  obtain h' where run: "checkAndHeal (300 * second) (Inr 5000) None None False sample_heal = (h', None)"
    using sample_heal_run by blast
  from watchdog_heals_exactly_tears [OF run _ _ sample_heal_facts(1,5)] show ?thesis
    using run by (simp add: sample_heal_facts GetIdleTime_def min_i64_def max_i64_def)
qed

text \<open>
  (C37) The gap the watchdog jumped over is never stored: it is scheduled again from the cursor on, but
  the sequencer now expects the head, so whatever of the range below the head the fetcher
  delivers, in any order, is ignored, while the checkpoint already claims the range.
\<close>

theorem healed_gap_never_stored:
  assumes "checkAndHeal now (Inr rpc) None None pd h = (h', None)" and "h_scheduled h' = h_scheduled h @ [(a, b)]"
    and "\<forall>d \<in> (\<Union>u \<in> set bs. set (fst u)). clean d \<and> the (getBlockNum d) \<in> {a..b - 1}"
  shows "\<exists>paused. Run P (results bs) (h_seq h') = Ret ((h_seq h')\<lparr>fetcherPaused := paused\<rparr>, None)"
proof (rule run_below_expected, intro ballI conjI)
  fix d
  assume "d \<in> (\<Union>u \<in> set bs. set (fst u))"
  with assms(3) have d: "clean d" "the (getBlockNum d) \<in> {a..b - 1}" by blast+
  have "expectedBlock (h_seq h') = b"
    using assms(1,2) by (auto simp: checkAndHeal_def Let_def ResetExpectedBlock_def ClearBuffer_def split: if_splits sum.splits option.splits)
  with d show "the (getBlockNum d) < expectedBlock (h_seq h')" "clean d" by simp_all
qed

theorem healed_gap_never_stored_witness:
  "\<exists>h' paused. checkAndHeal (300 * second) (Inr 5000) None None False sample_heal = (h', None) \<and> h_scheduled h' = [(7, 5000)]
     \<and> Run (processor_of sample_ext) (results [([sample_data (sample_block 8 ''b'' ''a'')], sample_env)]) (h_seq h')
       = Ret ((h_seq h')\<lparr>fetcherPaused := paused\<rparr>, None)"
proof -
  obtain h' where run: "checkAndHeal (300 * second) (Inr 5000) None None False sample_heal = (h', None)"
    using sample_heal_run by blast
  have sch: "h_scheduled h' = h_scheduled sample_heal @ [(7, 5000)]"
    using run by (auto simp: checkAndHeal_def Let_def sample_heal_facts is_tear_def GetIdleTime_def GetExpectedBlock_def wrap_i64_def)
  have "\<exists>paused. Run (processor_of sample_ext) (results [([sample_data (sample_block 8 ''b'' ''a'')], sample_env)]) (h_seq h')
       = Ret ((h_seq h')\<lparr>fetcherPaused := paused\<rparr>, None)"
    by (rule healed_gap_never_stored [OF run sch]) (simp add: clean_def hydrated_def sample_data_def sample_block_def getBlockNum_def)
  with run sch show ?thesis by (simp add: sample_heal_facts)
qed

end
