(* ===== verification/State_Manager.thy ===== *)
theory State_Manager
  imports Prelude
begin

section \<open>The state manager (internal/engine/state\_manager\_*.go)\<close>

text \<open>
  A state machine with the states idle, active and watching. Requests for a transition go through
  a channel of ten entries; a processor goroutine executes them, a watchdog and the accesses of
  users produce them.

  The indexer behind the interface \<open>IndexerService\<close> has no implementation in the repository: it is
  the argument \<open>S\<close>, a record of its methods on a state \<open>'i\<close>.
\<close>

datatype IndexerState = StateIdle | StateActive | StateWatching

fun IndexerState_String :: "IndexerState \<Rightarrow> string" where
  "IndexerState_String StateIdle = ''idle''"
| "IndexerState_String StateActive = ''active''"
| "IndexerState_String StateWatching = ''watching''"

record 'i IndexerService =
  svc_Start :: "'i \<Rightarrow> 'i \<times> go_error option"
  svc_Stop :: "'i \<Rightarrow> 'i \<times> go_error option"
  svc_IsRunning :: "'i \<Rightarrow> bool"
  svc_SetLowPowerMode :: "bool \<Rightarrow> 'i \<Rightarrow> 'i"

record 'i StateManager =
  sm_indexer :: 'i
  stateCh :: "IndexerState chan"
  demoDuration :: duration
  idleTimeout :: duration
  checkInterval :: duration
  continuousMode :: bool
  currentState :: IndexerState
  lastAccess :: time
  sm_stopped :: bool

definition NewStateManager :: "(string \<Rightarrow> string) \<Rightarrow> time \<Rightarrow> 'i \<Rightarrow> 'i StateManager" where
  "NewStateManager env now indexer =
     (let continuous = (env ''CONTINUOUS_MODE'' = ''true''); disableSmartSleep = (env ''DISABLE_SMART_SLEEP'' = ''true'')
      in \<lparr>sm_indexer = indexer, stateCh = chan_make 10, demoDuration = 5 * 60 * second, idleTimeout = 10 * 60 * second,
          checkInterval = 60 * second, continuousMode = continuous,
          currentState = (if continuous \<or> disableSmartSleep then StateActive else StateIdle),
          lastAccess = now, sm_stopped = False\<rparr>)"

subsection \<open>Transitions (state\_manager\_transition.go)\<close>

definition transitionTo :: "IndexerState \<Rightarrow> 'i StateManager \<Rightarrow> 'i StateManager" where
  "transitionTo newState sm = sm\<lparr>stateCh := fst (chan_try_send newState (stateCh sm))\<rparr>"

definition startActiveMode :: "'i IndexerService \<Rightarrow> 'i \<Rightarrow> 'i" where
  "startActiveMode S i = fst (svc_Start S i)"

definition stopActiveMode :: "'i IndexerService \<Rightarrow> 'i \<Rightarrow> 'i" where
  "stopActiveMode S i = fst (svc_Stop S i)"

definition startWatchingMode :: "'i IndexerService \<Rightarrow> 'i \<Rightarrow> 'i" where
  "startWatchingMode S i =
     (if \<not> svc_IsRunning S i
      then (case svc_Start S i of
              (i1, Some e) \<Rightarrow> i1
            | (i1, None) \<Rightarrow> svc_SetLowPowerMode S True i1)
      else svc_SetLowPowerMode S True i)"

definition stopWatchingMode :: "'i IndexerService \<Rightarrow> 'i \<Rightarrow> 'i" where
  "stopWatchingMode S i = svc_SetLowPowerMode S False i"

definition executeTransition :: "'i IndexerService \<Rightarrow> IndexerState \<Rightarrow> 'i StateManager \<Rightarrow> 'i StateManager" where
  "executeTransition S newState sm =
     (if currentState sm = newState then sm
      else
        let i1 = (case currentState sm of
                    StateActive \<Rightarrow> stopActiveMode S (sm_indexer sm)
                  | StateWatching \<Rightarrow> stopWatchingMode S (sm_indexer sm)
                  | StateIdle \<Rightarrow> sm_indexer sm);
            i2 = (case newState of
                    StateActive \<Rightarrow> startActiveMode S i1
                  | StateIdle \<Rightarrow> fst (svc_Stop S i1)
                  | StateWatching \<Rightarrow> startWatchingMode S i1)
        in sm\<lparr>sm_indexer := i2, currentState := newState\<rparr>)"

text \<open>One receive of \<open>stateProcessor\<close>.\<close>

definition process_state :: "'i IndexerService \<Rightarrow> 'i StateManager \<Rightarrow> 'i StateManager" where
  "process_state S sm =
     (case items (stateCh sm) of
        [] \<Rightarrow> sm
      | s # ss \<Rightarrow> executeTransition S s (sm\<lparr>stateCh := (stateCh sm)\<lparr>items := ss\<rparr>\<rparr>))"

subsection \<open>Watchdog and API (state\_manager\_watchdog.go, state\_manager\_api.go)\<close>

definition checkAndTransition :: "time \<Rightarrow> 'i StateManager \<Rightarrow> 'i StateManager" where
  "checkAndTransition now sm =
     (case currentState sm of
        StateActive \<Rightarrow> if now - lastAccess sm > demoDuration sm then transitionTo StateIdle sm else sm
      | StateIdle \<Rightarrow> if now - lastAccess sm > idleTimeout sm then transitionTo StateWatching sm else sm
      | StateWatching \<Rightarrow> sm)"

definition RecordAccess :: "time \<Rightarrow> 'i StateManager \<Rightarrow> 'i StateManager" where
  "RecordAccess now sm =
     (let sm1 = sm\<lparr>lastAccess := now\<rparr>
      in if currentState sm1 = StateIdle \<or> currentState sm1 = StateWatching then transitionTo StateActive sm1 else sm1)"

definition StartDemo :: "time \<Rightarrow> 'i StateManager \<Rightarrow> 'i StateManager" where
  "StartDemo now sm = RecordAccess now sm"

text \<open>A second \<open>Stop\<close> closes a closed channel, which panics.\<close>

definition StateManager_Stop :: "'i IndexerService \<Rightarrow> 'i StateManager \<Rightarrow> 'i StateManager go" where
  "StateManager_Stop S sm =
     (if sm_stopped sm then Panic
      else Ret (sm\<lparr>sm_stopped := True,
        sm_indexer := (if svc_IsRunning S (sm_indexer sm) then fst (svc_Stop S (sm_indexer sm)) else sm_indexer sm)\<rparr>))"

text \<open>
  The goroutines: the processor, the watchdog (not started in continuous mode), accesses, and the
  idle request of the lazy manager.
\<close>

inductive sm_step :: "'i IndexerService \<Rightarrow> 'i StateManager \<Rightarrow> 'i StateManager \<Rightarrow> bool" for S where
  process: "sm_step S sm (process_state S sm)"
| watchdog: "\<not> continuousMode sm \<Longrightarrow> sm_step S sm (checkAndTransition now sm)"
| access: "sm_step S sm (RecordAccess now sm)"
| lazy_idle: "sm_step S sm (transitionTo StateIdle sm)"

subsection \<open>State and indexer agree\<close>

text \<open>
  What the manager relies on: a stopped indexer can be started, a failed start leaves a running
  one running, stopping stops it, and the power mode is independent. \<open>low\<close> observes the power mode.
\<close>

definition service_ok :: "'i IndexerService \<Rightarrow> ('i \<Rightarrow> bool) \<Rightarrow> bool" where
  "service_ok S low \<longleftrightarrow>
     (\<forall>i. svc_IsRunning S (fst (svc_Start S i)) \<and> low (fst (svc_Start S i)) = low i
        \<and> (\<not> svc_IsRunning S i \<longrightarrow> snd (svc_Start S i) = None)
        \<and> \<not> svc_IsRunning S (fst (svc_Stop S i)) \<and> low (fst (svc_Stop S i)) = low i
        \<and> (\<forall>b. svc_IsRunning S (svc_SetLowPowerMode S b i) = svc_IsRunning S i \<and> low (svc_SetLowPowerMode S b i) = b))"

lemma service_rules:
  assumes "service_ok S low"
  shows "svc_IsRunning S (fst (svc_Start S i))" "low (fst (svc_Start S i)) = low i"
    "\<not> svc_IsRunning S i \<Longrightarrow> snd (svc_Start S i) = None"
    "\<not> svc_IsRunning S (fst (svc_Stop S i))" "low (fst (svc_Stop S i)) = low i"
    "svc_IsRunning S (svc_SetLowPowerMode S b i) = svc_IsRunning S i" "low (svc_SetLowPowerMode S b i) = b"
  using assms unfolding service_ok_def by blast+

definition sm_consistent :: "'i IndexerService \<Rightarrow> ('i \<Rightarrow> bool) \<Rightarrow> 'i StateManager \<Rightarrow> bool" where
  "sm_consistent S low sm \<longleftrightarrow> svc_IsRunning S (sm_indexer sm) = (currentState sm \<noteq> StateIdle)
     \<and> low (sm_indexer sm) = (currentState sm = StateWatching) \<and> chan_wf (stateCh sm)"

lemma start_watching:
  assumes "service_ok S low"
  shows "svc_IsRunning S (startWatchingMode S i) \<and> low (startWatchingMode S i)"
proof (cases "svc_IsRunning S i")
  case False
  then obtain i1 where "svc_Start S i = (i1, None)" using service_rules(3) [OF assms] by (metis prod.collapse)
  with False service_rules(1) [OF assms, of i] service_rules(6,7) [OF assms, of True i1] show ?thesis
    by (simp add: startWatchingMode_def)
qed (simp add: startWatchingMode_def service_rules(6,7) [OF assms])

lemma transitionTo_consistent: "sm_consistent S low sm \<Longrightarrow> sm_consistent S low (transitionTo st sm)"
  by (simp add: sm_consistent_def transitionTo_def chan_try_send_wf)

lemma executeTransition_consistent:
  assumes "service_ok S low" and "sm_consistent S low sm"
  shows "sm_consistent S low (executeTransition S st sm)"
  using assms(2) service_rules [OF assms(1)] start_watching [OF assms(1)]
  by (cases st; cases "currentState sm")
    (simp_all add: executeTransition_def sm_consistent_def startActiveMode_def stopActiveMode_def stopWatchingMode_def)

lemma sm_step_consistent:
  assumes "service_ok S low" and "sm_step S sm sm'" and "sm_consistent S low sm"
  shows "sm_consistent S low sm'"
  using assms(2)
proof cases
  case process
  show ?thesis
  proof (cases "items (stateCh sm)")
    case (Cons s ss)
    have "sm_consistent S low (sm\<lparr>stateCh := (stateCh sm)\<lparr>items := ss\<rparr>\<rparr>)"
      using assms(3) Cons by (simp add: sm_consistent_def chan_wf_def chan_len_def)
    with executeTransition_consistent [OF assms(1)] process Cons show ?thesis by (simp add: process_state_def)
  qed (use process assms(3) in \<open>simp add: process_state_def\<close>)
next
  case (watchdog now)
  then show ?thesis using assms(3) transitionTo_consistent
    by (auto simp: checkAndTransition_def split: IndexerState.splits)
next
  case (access now)
  have "sm_consistent S low (sm\<lparr>lastAccess := now\<rparr>)" using assms(3) by (simp add: sm_consistent_def)
  from this transitionTo_consistent [OF this] access show ?thesis by (simp add: RecordAccess_def Let_def)
qed (simp add: transitionTo_consistent [OF assms(3)])


text \<open>An indexer of two switches, running and low power, that refuses a second start.\<close>

definition toy_service :: "(bool \<times> bool) IndexerService" where
  "toy_service =
     \<lparr>svc_Start = (\<lambda>(r, l). ((True, l), if r then Some (OtherError ''already running'') else None)),
      svc_Stop = (\<lambda>(r, l). ((False, l), None)), svc_IsRunning = fst, svc_SetLowPowerMode = (\<lambda>b (r, l). (r, b))\<rparr>"


text \<open>
  In continuous mode the manager starts in the active state, but nothing ever starts the indexer:
  an access in the active state requests nothing.
\<close>

lemma continuous_mode_never_starts:
  assumes "env ''CONTINUOUS_MODE'' = ''true''"
  shows "sm_indexer (process_state S (RecordAccess t (NewStateManager env now i))) = i
    \<and> currentState (process_state S (RecordAccess t (NewStateManager env now i))) = StateActive"
  using assms by (simp add: NewStateManager_def RecordAccess_def process_state_def chan_make_def Let_def)

end
