(* ===== verification/Activity.thy ===== *)
theory Activity
  imports Fetcher Heights State_Manager
begin

section \<open>Activity-driven operation (internal/engine/lazy\_manager.go, eco\_strategy.go)\<close>

text \<open>
  The lazy manager pauses the fetcher when nobody uses the service and resumes it on activity; the
  heat strategy recommends a sampling pace from the recent rate of transactions.

  \<^item> The manager holds the fetcher it controls. Goroutines it starts, callbacks and calls of other
    components are listed as effects, in the order in which they are issued.
  \<^item> \<open>lm_hasStateManager\<close> and \<open>lm_hasStatus\<close> say whether the optional collaborators are set.
\<close>

subsection \<open>The lazy manager\<close>

record lazy_status =
  ls_mode :: string
  ls_lab :: bool
  ls_source :: "string option"
  ls_sleep_in :: "int option"

datatype lazy_effect =
    EffRecordAccess
  | EffStatus lazy_status
  | EffLinearityCheck
  | EffResume
  | EffUserActivity
  | EffTransitionIdle

record LazyManager =
  lm_isActive :: bool
  lm_isAlwaysActive :: bool
  lm_lastHeartbeat :: time
  lm_lastBlockTime :: time
  lm_timeout :: duration
  lm_fetcher :: Fetcher
  lm_hasGuard :: bool
  lm_hasStatus :: bool
  lm_hasStateManager :: bool

definition NewLazyManager :: "time \<Rightarrow> time \<Rightarrow> duration \<Rightarrow> bool \<Rightarrow> Fetcher \<Rightarrow> LazyManager" where
  "NewLazyManager zero now timeout guard f =
     \<lparr>lm_isActive = False, lm_isAlwaysActive = False, lm_lastHeartbeat = now - timeout, lm_lastBlockTime = zero,
      lm_timeout = timeout, lm_fetcher = Pause f, lm_hasGuard = guard, lm_hasStatus = False, lm_hasStateManager = False\<rparr>"

definition SetAlwaysActive :: "bool \<Rightarrow> LazyManager \<Rightarrow> LazyManager" where
  "SetAlwaysActive enabled lm =
     (let lm1 = lm\<lparr>lm_isAlwaysActive := enabled\<rparr>
      in if enabled then lm1\<lparr>lm_isActive := True, lm_fetcher := Resume (lm_fetcher lm)\<rparr> else lm1)"

text \<open>\<open>int(remaining.Seconds())\<close> truncates towards zero.\<close>

definition getStatusLocked :: "time \<Rightarrow> LazyManager \<Rightarrow> lazy_status" where
  "getStatusLocked now lm =
     (if lm_isAlwaysActive lm then \<lparr>ls_mode = ''active'', ls_lab = True, ls_source = None, ls_sleep_in = None\<rparr>
      else
        let lastActivity = (if lm_lastBlockTime lm > lm_lastHeartbeat lm then lm_lastBlockTime lm else lm_lastHeartbeat lm);
            dueToBlocks = (lm_lastBlockTime lm > lm_lastHeartbeat lm)
        in if lm_isActive lm \<or> dueToBlocks
           then \<lparr>ls_mode = ''active'', ls_lab = False, ls_source = Some (if dueToBlocks then ''blockchain'' else ''user''),
                 ls_sleep_in = Some (tdiv (lm_timeout lm - (now - lastActivity)) second)\<rparr>
           else \<lparr>ls_mode = ''sleep'', ls_lab = False, ls_source = None, ls_sleep_in = None\<rparr>)"

definition status_effect :: "time \<Rightarrow> LazyManager \<Rightarrow> lazy_effect list" where
  "status_effect now lm = (if lm_hasStatus lm then [EffStatus (getStatusLocked now lm)] else [])"

definition NotifyBlockProcessed :: "time \<Rightarrow> LazyManager \<Rightarrow> LazyManager \<times> lazy_effect list" where
  "NotifyBlockProcessed now lm =
     (let lm1 = lm\<lparr>lm_lastBlockTime := now\<rparr> in
      if \<not> lm_isActive lm1 \<and> \<not> lm_isAlwaysActive lm1 then
        (let lm2 = lm1\<lparr>lm_isActive := True\<rparr>
         in if lm_hasStateManager lm2 then (lm2, EffRecordAccess # status_effect now lm2)
            else (let lm3 = lm2\<lparr>lm_fetcher := Resume (lm_fetcher lm2)\<rparr> in (lm3, status_effect now lm3)))
      else (lm1, []))"

definition Trigger :: "time \<Rightarrow> LazyManager \<Rightarrow> LazyManager \<times> lazy_effect list" where
  "Trigger now lm =
     (if lm_isAlwaysActive lm then (lm, [])
      else
        let lm1 = lm\<lparr>lm_lastHeartbeat := now\<rparr> in
        if \<not> lm_isActive lm1 then
          (let lm2 = lm1\<lparr>lm_isActive := True\<rparr>
           in if lm_hasStateManager lm2 then (lm2, EffRecordAccess # status_effect now lm2)
              else (lm2, (if lm_hasGuard lm2 then [EffLinearityCheck] else []) @ EffResume # status_effect now lm2 @ [EffUserActivity]))
        else (lm1, []))"

text \<open>The resume that the goroutine of \<open>Trigger\<close> performs after its check.\<close>

definition run_resume :: "LazyManager \<Rightarrow> LazyManager" where
  "run_resume lm = lm\<lparr>lm_fetcher := Resume (lm_fetcher lm)\<rparr>"

definition monitor_tick :: "time \<Rightarrow> HeightSnapshot \<Rightarrow> LazyManager \<Rightarrow> LazyManager \<times> lazy_effect list" where
  "monitor_tick now snap lm =
     (if \<not> lm_isAlwaysActive lm \<and> lm_isActive lm \<and> now - lm_lastHeartbeat lm > lm_timeout lm then
        (let lag0 = wrap_i64 (hs_ChainHead snap - hs_IndexedHead snap);
             currentLag = (if lag0 < 0 then 0 else lag0)
         in if currentLag > 10 then (lm, [])
            else
              let lm1 = lm\<lparr>lm_isActive := False\<rparr>; effs = status_effect now lm1
              in if lm_hasStateManager lm1 then (lm1, effs @ [EffTransitionIdle])
                 else (lm1\<lparr>lm_fetcher := Pause (lm_fetcher lm1)\<rparr>, effs))
      else (lm, []))"

definition regress_tick :: "LazyManager \<Rightarrow> lazy_effect list" where
  "regress_tick lm = (if lm_isActive lm \<and> lm_hasGuard lm then [EffLinearityCheck] else [])"

inductive lazy_step :: "LazyManager \<Rightarrow> LazyManager \<Rightarrow> bool" where
  block: "lazy_step lm (fst (NotifyBlockProcessed now lm))"
| trigger: "lazy_step lm (fst (Trigger now lm))"
| resume: "lazy_step lm (run_resume lm)"
| monitor: "lazy_step lm (fst (monitor_tick now snap lm))"

subsection \<open>The heat strategy (eco\_strategy.go)\<close>

record HeatStrategy =
  tpsWindow :: "rat list"
  windowSize :: nat
  wakeThreshold :: rat
  racingThreshold :: rat
  coolingThreshold :: rat
  isExhausted :: bool
  lastHeat :: rat
  hs_lastUpdate :: time

definition NewHeatStrategy :: "time \<Rightarrow> HeatStrategy" where
  "NewHeatStrategy now =
     \<lparr>tpsWindow = [], windowSize = 60, wakeThreshold = 2, racingThreshold = 5, coolingThreshold = 1 / 2,
      isExhausted = False, lastHeat = 0, hs_lastUpdate = now\<rparr>"

definition RecordTPS :: "time \<Rightarrow> rat \<Rightarrow> HeatStrategy \<Rightarrow> HeatStrategy" where
  "RecordTPS now tps s =
     (let w = tpsWindow s @ [tps]
      in s\<lparr>tpsWindow := (if length w > windowSize s then drop 1 w else w), lastHeat := tps, hs_lastUpdate := now\<rparr>)"

definition calculateAverage :: "HeatStrategy \<Rightarrow> rat" where
  "calculateAverage s = (if tpsWindow s = [] then 0 else sum_list (tpsWindow s) / of_nat (length (tpsWindow s)))"

definition ShouldWakeUp :: "rat \<Rightarrow> HeatStrategy \<Rightarrow> bool" where
  "ShouldWakeUp currentTPS s =
     (if isExhausted s then False
      else if currentTPS > calculateAverage s * 2 then True
      else currentTPS > wakeThreshold s)"

definition GetRecommendedPace :: "HeatStrategy \<Rightarrow> duration" where
  "GetRecommendedPace s =
     (let avg = calculateAverage s; effective = (if lastHeat s > avg * 2 then lastHeat s else avg)
      in if effective \<ge> racingThreshold s then 200 * millisecond
         else if effective \<ge> wakeThreshold s then second
         else if effective \<ge> coolingThreshold s then 5 * second
         else 30 * second)"

definition GetCurrentHeat :: "HeatStrategy \<Rightarrow> rat" where
  "GetCurrentHeat s =
     (if tpsWindow s = [] then 0
      else let heat = calculateAverage s / racingThreshold s * 100 in if heat > 100 then 100 else heat)"

definition ForceExhaustion :: "HeatStrategy \<Rightarrow> HeatStrategy" where
  "ForceExhaustion s = s\<lparr>isExhausted := True\<rparr>"

definition ResetExhaustion :: "HeatStrategy \<Rightarrow> HeatStrategy" where
  "ResetExhaustion s = s\<lparr>isExhausted := False\<rparr>"

subsection \<open>Sleeping and waking\<close>

lemmas lazy_defs = NotifyBlockProcessed_def Trigger_def run_resume_def monitor_tick_def Let_def

text \<open>The fetcher runs whenever the manager is active in lab mode.\<close>

lemma lab_mode_step:
  assumes "lazy_step lm lm'" and "lm_isAlwaysActive lm" and "lm_isActive lm" and "\<not> f_paused (lm_fetcher lm)"
  shows "lm_isAlwaysActive lm' \<and> lm_isActive lm' \<and> \<not> f_paused (lm_fetcher lm')"
  using assms by cases (simp_all add: lazy_defs Resume_def)

text \<open>
  In lab mode the fetcher never sleeps: once \<open>SetAlwaysActive(true)\<close> was called, no sequence of
  block notices, heartbeats, wake-ups and monitor ticks makes the manager inactive or
  pauses the fetcher.
\<close>

lemma lab_mode_never_sleeps:
  assumes "lazy_step\<^sup>*\<^sup>* (SetAlwaysActive True lm) lm'"
  shows "lm_isActive lm' \<and> \<not> f_paused (lm_fetcher lm')"
proof -
  let ?P = "\<lambda>m. lm_isAlwaysActive m \<and> lm_isActive m \<and> \<not> f_paused (lm_fetcher m)"
  from assms have "?P lm'"
    by (induction rule: rtranclp_induct) (use lab_mode_step in \<open>auto simp: SetAlwaysActive_def Resume_def\<close>)
  then show ?thesis by simp
qed

text \<open>
  The manager sleeps only when the index is close to the head: a monitor tick that makes it
  inactive found the last heartbeat older than the timeout and a lag of at most ten blocks, and
  pauses the fetcher or asks the state manager to.
\<close>

lemma sleeps_only_near_head:
  assumes "monitor_tick now snap lm = (lm', effs)" and "lm_isActive lm" and "\<not> lm_isActive lm'"
  shows "lm_timeout lm < now - lm_lastHeartbeat lm \<and> wrap_i64 (hs_ChainHead snap - hs_IndexedHead snap) \<le> 10
    \<and> \<not> lm_isAlwaysActive lm \<and> (if lm_hasStateManager lm then EffTransitionIdle \<in> set effs else f_paused (lm_fetcher lm'))"
  using assms by (auto simp: monitor_tick_def Let_def Pause_def split: if_splits)

definition sample_snapshot :: HeightSnapshot where
  "sample_snapshot = \<lparr>hs_ChainHead = 100, hs_IndexedHead = 95, hs_SyncLag = 5, hs_DriftBlocks = 0,
     hs_IsTimeTravel = False, hs_UpdatedAt = 0\<rparr>"

definition idle_fetcher :: Fetcher where
  "idle_fetcher = NewFetcherWithLimiter 1 unlimited 0 []"

definition sample_lazy :: LazyManager where
  "sample_lazy = run_resume (fst (Trigger 0 (NewLazyManager 0 0 10 False idle_fetcher)))"

text \<open>
  Blocks do not keep the service awake, although they are meant to: a block processed at this
  very moment leaves the heartbeat as it is, so the next monitor tick with an old heartbeat and a
  small lag pauses the fetcher all the same, while the status still says active.
\<close>

lemma block_activity_does_not_prevent_sleep:
  assumes "\<not> lm_isAlwaysActive lm" and "\<not> lm_hasStateManager lm" and "lm_timeout lm < now - lm_lastHeartbeat lm"
    and "0 \<le> lm_timeout lm" and "wrap_i64 (hs_ChainHead snap - hs_IndexedHead snap) \<le> 10"
  defines "lm' \<equiv> fst (monitor_tick now snap (fst (NotifyBlockProcessed now lm)))"
  shows "\<not> lm_isActive lm' \<and> f_paused (lm_fetcher lm') \<and> ls_mode (getStatusLocked now lm') = ''active''"
  using assms(1-5) unfolding lm'_def
  by (auto simp: NotifyBlockProcessed_def monitor_tick_def Let_def getStatusLocked_def Pause_def)

subsection \<open>Heat\<close>

text \<open>The window holds the newest rates, at most sixty.\<close>

definition last_n :: "nat \<Rightarrow> 'a list \<Rightarrow> 'a list" where
  "last_n n xs = drop (length xs - n) xs"

lemma last_n_snoc: "last_n n (xs @ [x]) = (if length (last_n n xs @ [x]) > n then drop 1 (last_n n xs @ [x]) else last_n n xs @ [x])"
proof (cases "length xs < n")
  case True
  then show ?thesis by (simp add: last_n_def)
next
  case False
  let ?k = "length xs - n"
  have "last_n n (xs @ [x]) = drop (1 + ?k) (xs @ [x])" using False by (simp add: last_n_def Suc_diff_le)
  also have "\<dots> = drop 1 (drop ?k (xs @ [x]))" by (simp only: drop_drop)
  also have "drop ?k (xs @ [x]) = last_n n xs @ [x]" by (simp add: last_n_def)
  finally show ?thesis using False by (simp add: last_n_def)
qed

lemma heat_window_newest:
  "tpsWindow (fold (\<lambda>(t, v). RecordTPS t v) vs (NewHeatStrategy now)) = last_n 60 (map snd vs)
     \<and> windowSize (fold (\<lambda>(t, v). RecordTPS t v) vs (NewHeatStrategy now)) = 60"
proof (induction vs rule: rev_induct)
  case (snoc v vs)
  then show ?case by (cases v) (simp add: RecordTPS_def Let_def last_n_snoc)
qed (simp add: NewHeatStrategy_def last_n_def)

lemma heat_bounded: "GetCurrentHeat s \<le> 100"
  by (simp add: GetCurrentHeat_def Let_def)

lemma exhausted_never_wakes: "\<not> ShouldWakeUp tps (ForceExhaustion s)"
  by (simp add: ShouldWakeUp_def ForceExhaustion_def)

end
