(* ===== verification/Services.thy ===== *)
theory Services
  imports Startup Watchdog Activity
begin

section \<open>Strategies, profiles and the wiring of the services\<close>

text \<open>
  The strategy of a chain (strategy.go), the policy and the performance profile of an environment
  (indexer\_policy.go, performance\_profile.go), and \<open>initServices\<close> (cmd/indexer/main\_services.go), which
  creates orchestrator, writer, sequencer and watchdog from the start block and the database.
\<close>

subsection \<open>Strategies (strategy.go)\<close>

record Strategy =
  Strategy_Name :: string
  ShouldPersist :: bool
  GetConfirmations :: u64
  GetBatchSize :: int
  GetInitialSafetyBuffer :: u64

definition AnvilStrategy :: Strategy where
  "AnvilStrategy = \<lparr>Strategy_Name = ''PERSISTENT_ANVIL'', ShouldPersist = True, GetConfirmations = 0, GetBatchSize = 200,
     GetInitialSafetyBuffer = 1\<rparr>"

definition TestnetStrategy :: Strategy where
  "TestnetStrategy = \<lparr>Strategy_Name = ''PERSISTENT_TESTNET'', ShouldPersist = True, GetConfirmations = 6, GetBatchSize = 50,
     GetInitialSafetyBuffer = 1\<rparr>"

definition GetStrategy :: "int \<Rightarrow> Strategy" where
  "GetStrategy chain = (if chain = anvil_chain_id then AnvilStrategy else TestnetStrategy)"

text \<open>Both strategies load the cursor; \<open>query_ok\<close> says whether the two queries get through.\<close>

definition OnStartup :: "bool \<Rightarrow> int \<Rightarrow> db \<Rightarrow> Orchestrator \<Rightarrow> Orchestrator" where
  "OnStartup query_ok chain d o' =
     LoadInitialState (if query_ok then map_option big_string (map_of (db_checkpoints d) chain) else None)
       (if query_ok then Some (GetMaxStoredBlock d) else None) o'"

subsection \<open>Policies and profiles (indexer\_policy.go, performance\_profile.go)\<close>

record IndexerPolicy =
  pol_AllowSleep :: bool
  pol_EnforceQuota :: bool
  BurstBatchSize :: int
  LabMode :: bool

definition IsLocalAnvil :: "string \<Rightarrow> bool" where
  "IsLocalAnvil url = list_ex (contains (ToLower url)) [''localhost'', ''127.0.0.1'', ''anvil'', '':8545'', '':8092'']"

definition lab_policy :: IndexerPolicy where
  "lab_policy = \<lparr>pol_AllowSleep = False, pol_EnforceQuota = False, BurstBatchSize = 100, LabMode = True\<rparr>"

definition GetPolicy :: "string list \<Rightarrow> int \<Rightarrow> IndexerPolicy" where
  "GetPolicy urls chain =
     (if chain = anvil_chain_id then lab_policy
      else if list_ex IsLocalAnvil urls then lab_policy
      else \<lparr>pol_AllowSleep = True, pol_EnforceQuota = True, BurstBatchSize = 20, LabMode = False\<rparr>)"

record PerformanceProfile =
  Profile_Name :: string
  AllowSleep :: bool
  EnforceQuota :: bool
  BatchSize :: int
  ChannelBufferSize :: int
  MaxOpenConns :: int
  Profile_FetchConcurrency :: int
  TPSLimit :: rat
  MetadataCacheSize :: int
  EnableAggressiveBatch :: bool

definition YokohamaLabProfile :: PerformanceProfile where
  "YokohamaLabProfile =
     \<lparr>Profile_Name = ''Yokohama Lab (Unlimited)'', AllowSleep = False, EnforceQuota = False, BatchSize = 100,
      ChannelBufferSize = 10000, MaxOpenConns = 100, Profile_FetchConcurrency = 16, TPSLimit = 100000,
      MetadataCacheSize = 100000, EnableAggressiveBatch = True\<rparr>"

definition ProductionProfile :: PerformanceProfile where
  "ProductionProfile =
     \<lparr>Profile_Name = ''Production (Conservative)'', AllowSleep = True, EnforceQuota = True, BatchSize = 20,
      ChannelBufferSize = 100, MaxOpenConns = 25, Profile_FetchConcurrency = 10, TPSLimit = 20,
      MetadataCacheSize = 10000, EnableAggressiveBatch = False\<rparr>"

definition GetPerformanceProfile :: "string list \<Rightarrow> int \<Rightarrow> PerformanceProfile" where
  "GetPerformanceProfile urls chain =
     (if chain = anvil_chain_id then YokohamaLabProfile
      else if list_ex IsLocalAnvil urls then YokohamaLabProfile
      else ProductionProfile)"

text \<open>The throughput limit of \<open>initEngine\<close>, raised for the local chain after the lazy manager exists.\<close>

definition engine_tps :: "Config \<Rightarrow> int" where
  "engine_tps cfg =
     (let p = GetPerformanceProfile (RPCURLs cfg) (ChainID cfg)
      in if EnableAggressiveBatch p then \<lfloor>TPSLimit p\<rfloor> else RPCRateLimit cfg)"

definition is_lab :: "Config \<Rightarrow> bool" where
  "is_lab cfg \<longleftrightarrow> ChainID cfg = anvil_chain_id \<or> IsLocalAnvil (hd (RPCURLs cfg))"

definition init_fetcher :: "Config \<Rightarrow> time \<Rightarrow> time \<Rightarrow> Fetcher \<Rightarrow> LazyManager" where
  "init_fetcher cfg zero now f =
     (let f1 = SetThroughputLimit (Some (of_int (engine_tps cfg))) f;
          lm = NewLazyManager zero now (5 * 60 * second) True f1
      in if is_lab cfg
         then (let lm1 = SetAlwaysActive True lm in lm1\<lparr>lm_fetcher := SetThroughputLimit (Some 100000) (lm_fetcher lm1)\<rparr>)
         else lm)"

subsection \<open>The services\<close>

record 'p services =
  svc_db :: db
  svc_orchestrator :: Orchestrator
  svc_writer :: AsyncWriter
  svc_sequencer :: "'p Sequencer"
  svc_watchdog :: DeadlockWatchdog

text \<open>
  Phase 1 of \<open>initServices\<close>: the components are created and connected before any goroutine runs.
  \<open>tip\<close> is the node's answer for the alignment of the local chain.
\<close>

definition initServices ::
    "Config \<Rightarrow> go_error + int \<Rightarrow> bool \<Rightarrow> time \<Rightarrow> Fetcher \<Rightarrow> 'p \<Rightarrow> int \<Rightarrow> db \<Rightarrow> Orchestrator \<Rightarrow> 'p services" where
  "initServices cfg tip db_up now f p startBlock d o' =
     (let chain = ChainID cfg;
          d1 = (if chain = anvil_chain_id then AlignAnvilData tip db_up db_up db_up d else d);
          strategy = GetStrategy chain;
          o1 = Orchestrator_Init (Some (f_jobs f, chan_len (f_Results f))) (GetInitialSafetyBuffer strategy) o';
          o2 = OnStartup db_up chain d1 o1;
          w = NewAsyncWriter d1 (\<not> ShouldPersist strategy) chain (LatestHeight (GetSnapshot o2))
      in \<lparr>svc_db = d1, svc_orchestrator = SetAsyncWriter (w_taskChan w) o2, svc_writer = w,
          svc_sequencer = NewSequencerWithFetcher p (Some (f_paused f)) startBlock chain None now,
          svc_watchdog = Enable (SetFetcher (NewDeadlockWatchdog chain (DemoMode cfg)))\<rparr>)"

lemma profile_policy_agree:
  "AllowSleep (GetPerformanceProfile urls chain) = pol_AllowSleep (GetPolicy urls chain)
   \<and> EnforceQuota (GetPerformanceProfile urls chain) = pol_EnforceQuota (GetPolicy urls chain)
   \<and> BatchSize (GetPerformanceProfile urls chain) = BurstBatchSize (GetPolicy urls chain)"
  by (simp add: GetPerformanceProfile_def GetPolicy_def YokohamaLabProfile_def ProductionProfile_def lab_policy_def)

text \<open>Every strategy persists, so the configuration's memory-only mode never reaches the writer.\<close>

lemma writer_always_persists: "\<not> w_ephemeralMode (svc_writer (initServices cfg tip db_up now f p start d o'))"
  by (simp add: initServices_def Let_def NewAsyncWriter_def GetStrategy_def AnvilStrategy_def TestnetStrategy_def)

text \<open>A fetcher of the local chain is awake, any other starts paused until the first activity.\<close>

lemma init_fetcher_paused: "f_paused (lm_fetcher (init_fetcher cfg zero now f)) = (\<not> is_lab cfg)"
  by (simp add: init_fetcher_def Let_def NewLazyManager_def SetAlwaysActive_def SetThroughputLimit_def Resume_def Pause_def)

lemma db_checkpoints_align:
  "map_of (db_checkpoints (AlignAnvilData tip q del upd d)) c = map_of (db_checkpoints d) c
    \<or> (c = anvil_chain_id \<and> (\<exists>t. tip = Inr t \<and> GetMaxStoredBlock d > uint (num_u64 t)))"
proof -
  have other: "c \<noteq> a \<Longrightarrow> map_of (map (\<lambda>(k, m). (k, if k = a then n else m)) xs) c = map_of xs c" for a n and xs :: "(int \<times> int) list"
    by (induction xs) auto
  show ?thesis
    by (cases "c = anvil_chain_id")
      (auto simp: AlignAnvilData_def Let_def set_checkpoint_def delete_blocks_from_def other word_less_def u64_of_nat_uint
        split: sum.splits)
qed

text \<open>
  All services start at the same place: with a checkpoint \<open>n\<close> stored, no explicit start block, and
  a database that is not ahead of the local node, the sequencer expects block \<open>n + 1\<close> with an empty
  buffer, the orchestrator's cursor, in its state and its published snapshot, is \<open>n\<close>, the writer
  writes to the database, its queue is the one the orchestrator uses, and the watchdog is armed.
\<close>

lemma services_start_in_step:
  fixes now :: time and f :: Fetcher and p :: 'p and o' :: Orchestrator
  assumes "map_of (db_checkpoints d) (ChainID cfg) = Some n" and "0 < n"
    and "StartBlockStr cfg \<noteq> ''latest''" and "StartBlock cfg \<le> 0"
    and "ChainID cfg = anvil_chain_id \<longrightarrow> (\<forall>t. tip = Inr t \<longrightarrow> GetMaxStoredBlock d \<le> uint (num_u64 t))"
    and "snd (getStartBlockFromCheckpoint cfg latest None True (ChainID cfg) [] False d) = r"
  defines "S \<equiv> initServices cfg tip True now f p (start_block_of cfg r) d o'"
  shows "expectedBlock (svc_sequencer S) = n + 1 \<and> buffer (svc_sequencer S) = []
    \<and> SyncedCursor (ostate (svc_orchestrator S)) = num_u64 n \<and> SyncedCursor (GetSnapshot (svc_orchestrator S)) = num_u64 n
    \<and> SafetyBuffer (ostate (svc_orchestrator S)) = 1 \<and> \<not> w_ephemeralMode (svc_writer S)
    \<and> asyncWriter (svc_orchestrator S) = Some (w_taskChan (svc_writer S)) \<and> dw_enabled (svc_watchdog S)"
proof -
  have r: "r = Inr (n + 1)"
    using assms(6) start_from_checkpoint [OF assms(3,4,1)] by simp
  let ?d = "if ChainID cfg = anvil_chain_id then AlignAnvilData tip True True True d else d"
  have ck: "map_of (db_checkpoints ?d) (ChainID cfg) = Some n"
    using db_checkpoints_align [of tip True True True d "ChainID cfg"] assms(1,5) by fastforce
  have "big_string 0 = ''0''" by code_simp
  then have "big_string n \<noteq> ''0''" using assms(2) big_string_inj [of n 0] by simp
  then have load: "OnStartup True (ChainID cfg) ?d q = q\<lparr>ostate := (ostate q)\<lparr>SyncedCursor := num_u64 n\<rparr>,
      snapshot := (ostate q)\<lparr>SyncedCursor := num_u64 n\<rparr>\<rparr>" for q
    unfolding OnStartup_def ck by (simp add: LoadInitialState_def Let_def)
  show ?thesis
    unfolding S_def initServices_def Let_def load
    by (simp add: r start_block_of_def NewSequencerWithFetcher_def Orchestrator_Init_def GetSnapshot_def SetAsyncWriter_def
        NewAsyncWriter_def GetStrategy_def AnvilStrategy_def TestnetStrategy_def Enable_def)
qed

end
