(* ===== verification/Backpressure.thy ===== *)
theory Backpressure
  imports Fetcher_Props
begin

section \<open>Dynamic back-pressure (internal/engine/dynamic\_backpressure.go)\<close>

text \<open>
  \<open>ScheduleDynamic\<close> puts three steps before the fetcher's \<open>Schedule\<close>: it merges repeated requests for
  the same range, compares the depths of the queues with watermarks, and backs off exponentially
  after a refusal. The clock readings of the steps are arguments, \<open>t1\<close> of the merge and \<open>t2\<close> of the
  check.
\<close>

record BackpressureManager =
  maxJobsCapacity :: int
  maxResultsCapacity :: int
  maxSeqBuffer :: int
  jobsWatermark :: int
  resultsWatermark :: int
  seqBufferWatermark :: int
  lastBlockedTime :: time
  backoffLevel :: nat
  totalBlockedCount :: u64

text \<open>\<open>sys\<close> is the memory obtained from the system, in bytes; the zero time stands for "never".\<close>

definition NewBackpressureManager :: "u64 \<Rightarrow> time \<Rightarrow> BackpressureManager" where
  "NewBackpressureManager sys zero =
     (let memGB = uint (sys div 1073741824); r0 = wrap_i64 (memGB * 1000);
          r1 = (if r0 > 100000 then 100000 else r0);
          r = (if r1 < 5000 then 5000 else r1);
          j = tdiv r 5
      in \<lparr>maxJobsCapacity = j, maxResultsCapacity = r, maxSeqBuffer = 10000,
          jobsWatermark = tdiv (j * 80) 100, resultsWatermark = tdiv (r * 80) 100, seqBufferWatermark = 800,
          lastBlockedTime = zero, backoffLevel = 0, totalBlockedCount = 0\<rparr>)"

definition backoff_duration :: "nat \<Rightarrow> duration" where
  "backoff_duration level = 2 ^ level * 100 * millisecond"

definition blockWithError :: "time \<Rightarrow> string \<Rightarrow> BackpressureManager \<Rightarrow> BackpressureManager \<times> go_error option" where
  "blockWithError now component bpm =
     (bpm\<lparr>totalBlockedCount := totalBlockedCount bpm + 1, lastBlockedTime := now,
          backoffLevel := (if backoffLevel bpm < 5 then backoffLevel bpm + 1 else backoffLevel bpm)\<rparr>,
      Some (OtherError (component @ '' queue backpressure'')))"

definition CheckSchedule :: "time \<Rightarrow> int \<Rightarrow> int \<Rightarrow> int \<Rightarrow> BackpressureManager \<Rightarrow> BackpressureManager \<times> go_error option" where
  "CheckSchedule now jobsDepth resultsDepth seqBufferSize bpm =
     (if jobsDepth > jobsWatermark bpm then blockWithError now ''jobs'' bpm
      else if resultsDepth > resultsWatermark bpm then blockWithError now ''results'' bpm
      else if seqBufferSize > seqBufferWatermark bpm then blockWithError now ''sequencer'' bpm
      else if backoffLevel bpm > 0
      then (if now - lastBlockedTime bpm < backoff_duration (backoffLevel bpm)
            then (bpm, Some (OtherError ''backoff''))
            else (bpm\<lparr>backoffLevel := 0\<rparr>, None))
      else (bpm, None))"

definition ResetBackoff :: "BackpressureManager \<Rightarrow> BackpressureManager" where
  "ResetBackoff bpm = (if backoffLevel bpm > 0 then bpm\<lparr>backoffLevel := 0\<rparr> else bpm)"

subsection \<open>Merging of repeated requests\<close>

type_synonym MergeKey = "string \<times> string"

record ScheduleMerge =
  pending :: "(MergeKey \<times> time) list"
  mergeWindow :: duration

definition NewScheduleMerge :: "duration \<Rightarrow> ScheduleMerge" where
  "NewScheduleMerge window = \<lparr>pending = [], mergeWindow = window\<rparr>"

definition ShouldSchedule :: "time \<Rightarrow> int \<Rightarrow> int \<Rightarrow> ScheduleMerge \<Rightarrow> ScheduleMerge \<times> bool" where
  "ShouldSchedule now start end' sm =
     (let key = (big_string start, big_string end')
      in case map_of (pending sm) key of
           Some lastTime \<Rightarrow>
             if now - lastTime < mergeWindow sm then (sm, False)
             else (sm\<lparr>pending := AList.update key now (pending sm)\<rparr>, True)
         | None \<Rightarrow> (sm\<lparr>pending := AList.update key now (pending sm)\<rparr>, True))"

definition Cleanup :: "time \<Rightarrow> ScheduleMerge \<Rightarrow> ScheduleMerge" where
  "Cleanup now sm = sm\<lparr>pending := filter (\<lambda>(k, t). \<not> now - t > 10 * 60 * second) (pending sm)\<rparr>"

subsection \<open>The guarded fetcher\<close>

record FetcherWithDynamicBackpressure =
  fd_fetcher :: Fetcher
  backpressureMgr :: BackpressureManager
  scheduleMerge :: ScheduleMerge

definition NewFetcherWithDynamicBackpressure :: "u64 \<Rightarrow> time \<Rightarrow> Fetcher \<Rightarrow> FetcherWithDynamicBackpressure" where
  "NewFetcherWithDynamicBackpressure sys zero f =
     \<lparr>fd_fetcher = f, backpressureMgr = NewBackpressureManager sys zero, scheduleMerge = NewScheduleMerge (5 * second)\<rparr>"

definition ScheduleDynamic ::
    "time \<Rightarrow> time \<Rightarrow> u64 \<Rightarrow> (nat \<Rightarrow> send_choice) \<Rightarrow> int \<Rightarrow> int \<Rightarrow> FetcherWithDynamicBackpressure
      \<Rightarrow> FetcherWithDynamicBackpressure \<times> FetchJob list \<times> go_error option" where
  "ScheduleDynamic t1 t2 latest pick start end' fd =
     (let (sm, go) = ShouldSchedule t1 start end' (scheduleMerge fd); fd1 = fd\<lparr>scheduleMerge := sm\<rparr>; f = fd_fetcher fd in
      if \<not> go then (fd1, [], None)
      else case CheckSchedule t2 (int (chan_len (f_jobs f))) (int (chan_len (f_Results f)))
                  (case f_sequencer f of None \<Rightarrow> 0 | Some n \<Rightarrow> int n) (backpressureMgr fd) of
             (bpm, Some e) \<Rightarrow> (fd1\<lparr>backpressureMgr := bpm\<rparr>, [], Some e)
           | (bpm, None) \<Rightarrow>
               (case Schedule latest pick start end' f of
                  (jobs, Some e) \<Rightarrow> (fd1\<lparr>backpressureMgr := bpm\<rparr>, jobs, Some e)
                | (jobs, None) \<Rightarrow> (fd1\<lparr>backpressureMgr := ResetBackoff bpm\<rparr>, jobs, None)))"

subsection \<open>Watermarks and back-off\<close>

text \<open>The shape every manager has: watermarks below the capacities, at most five back-off levels.\<close>

definition bpm_wf :: "BackpressureManager \<Rightarrow> bool" where
  "bpm_wf b \<longleftrightarrow> 0 < jobsWatermark b \<and> jobsWatermark b < maxJobsCapacity b
     \<and> 0 < resultsWatermark b \<and> resultsWatermark b < maxResultsCapacity b
     \<and> seqBufferWatermark b < maxSeqBuffer b \<and> maxResultsCapacity b \<in> {5000..100000} \<and> backoffLevel b \<le> 5"

lemma watermark_less:
  assumes "2 \<le> (x :: int)"
  shows "0 < x * 80 div 100 \<and> x * 80 div 100 < x"
proof -
  have "x * 80 div 100 * 100 + x * 80 mod 100 = x * 80" by (rule div_mult_mod_eq)
  moreover have "0 \<le> x * 80 mod 100" "x * 80 mod 100 < 100" by simp_all
  ultimately show ?thesis using assms by linarith
qed

lemma new_bpm_small:
  "NewBackpressureManager 0 zero =
     \<lparr>maxJobsCapacity = 1000, maxResultsCapacity = 5000, maxSeqBuffer = 10000, jobsWatermark = 800, resultsWatermark = 4000,
      seqBufferWatermark = 800, lastBlockedTime = zero, backoffLevel = 0, totalBlockedCount = 0\<rparr>"
proof -
  have "uint ((0 :: u64) div 1073741824) = 0" by simp
  then show ?thesis by (simp only: NewBackpressureManager_def Let_def) (simp add: wrap_i64_def tdiv_nonneg)
qed

lemma new_bpm_wf: "bpm_wf (NewBackpressureManager sys zero)"
proof -
  let ?r0 = "wrap_i64 (uint (sys div 1073741824) * 1000)"
  define r where "r = (if (if ?r0 > 100000 then 100000 else ?r0) < 5000 then 5000 else (if ?r0 > 100000 then 100000 else ?r0))"
  have r: "5000 \<le> r" "r \<le> 100000" by (auto simp: r_def)
  have "1000 \<le> r div 5" using r by presburger
  then have b: "0 < r div 5 * 80 div 100 \<and> r div 5 * 80 div 100 < r div 5" "0 < r * 80 div 100 \<and> r * 80 div 100 < r"
    using watermark_less [of "r div 5"] watermark_less [of r] r by simp_all
  have "bpm_wf \<lparr>maxJobsCapacity = tdiv r 5, maxResultsCapacity = r, maxSeqBuffer = 10000,
      jobsWatermark = tdiv (tdiv r 5 * 80) 100, resultsWatermark = tdiv (r * 80) 100, seqBufferWatermark = 800,
      lastBlockedTime = zero, backoffLevel = 0, totalBlockedCount = 0\<rparr>"
    using r b \<open>1000 \<le> r div 5\<close> by (simp add: bpm_wf_def tdiv_nonneg)
  then show ?thesis unfolding NewBackpressureManager_def Let_def r_def .
qed

lemma blockWithError_wf: "bpm_wf b \<Longrightarrow> bpm_wf (fst (blockWithError now c b))"
  by (simp add: blockWithError_def bpm_wf_def)

lemma CheckSchedule_wf: "bpm_wf b \<Longrightarrow> bpm_wf (fst (CheckSchedule now j r s b))"
  using blockWithError_wf [of b] by (auto simp: CheckSchedule_def) (simp_all add: bpm_wf_def)

lemma ScheduleDynamic_wf:
  assumes "bpm_wf (backpressureMgr fd)"
  shows "bpm_wf (backpressureMgr (fst (ScheduleDynamic t1 t2 latest pick a b fd)))"
proof -
  let ?f = "fd_fetcher fd"
  obtain sm go where sm: "ShouldSchedule t1 a b (scheduleMerge fd) = (sm, go)" by fastforce
  obtain bpm r where c: "CheckSchedule t2 (int (chan_len (f_jobs ?f))) (int (chan_len (f_Results ?f)))
      (case f_sequencer ?f of None \<Rightarrow> 0 | Some n \<Rightarrow> int n) (backpressureMgr fd) = (bpm, r)" by fastforce
  obtain jobs e where s: "Schedule latest pick a b ?f = (jobs, e)" by fastforce
  have "bpm_wf bpm" using CheckSchedule_wf [OF assms] c by (metis fst_conv)
  moreover from this have "bpm_wf (ResetBackoff bpm)" by (simp add: ResetBackoff_def bpm_wf_def)
  ultimately show ?thesis using assms by (cases go; cases r; cases e) (simp_all add: ScheduleDynamic_def sm c s)
qed

text \<open>
  The back-off ends: however often requests were refused before, once the queues are below their
  watermarks a request that comes at least 3.2 seconds after the last refusal is admitted,
  and the back-off starts again from its lowest level.
\<close>

lemma backoff_ends:
  assumes "bpm_wf b" and "jobs \<le> jobsWatermark b" and "results \<le> resultsWatermark b" and "seq \<le> seqBufferWatermark b"
    and "lastBlockedTime b + 3200 * millisecond \<le> now"
  shows "\<exists>b'. CheckSchedule now jobs results seq b = (b', None) \<and> backoffLevel b' = 0 \<and> bpm_wf b'"
proof -
  have "(2 :: int) ^ backoffLevel b \<le> 2 ^ 5" using assms(1) by (intro power_increasing) (simp_all add: bpm_wf_def)
  then have "backoff_duration (backoffLevel b) \<le> 3200 * millisecond" by (simp add: backoff_duration_def)
  then have "\<not> now - lastBlockedTime b < backoff_duration (backoffLevel b)" using assms(5) by simp
  then show ?thesis using assms(1-4) by (auto simp: CheckSchedule_def bpm_wf_def)
qed

text \<open>
  A refused range is lost for the merge window: the request is entered as scheduled before the
  queues are checked, so when the check refuses it, every repetition of the range within the
  next five seconds returns success although no job exists for it.
\<close>

lemma refused_range_reported_scheduled:
  assumes "ShouldSchedule t1 a b (scheduleMerge fd) = (sm, True)"
    and "ScheduleDynamic t1 t2 latest pick a b fd = (fd1, [], Some e)"
    and "t3 - t1 < mergeWindow (scheduleMerge fd)"
  shows "snd (ScheduleDynamic t3 t4 latest' pick' a b fd1) = ([], None)"
proof -
  let ?k = "(big_string a, big_string b)"
  have sm: "map_of (pending sm) ?k = Some t1" "mergeWindow sm = mergeWindow (scheduleMerge fd)"
    using assms(1) by (auto simp: ShouldSchedule_def Let_def update_conv' split: option.splits if_splits)
  have "scheduleMerge fd1 = sm"
    using assms(1,2) by (auto simp: ScheduleDynamic_def Let_def split: prod.splits option.splits)
  with sm assms(3) have "ShouldSchedule t3 a b (scheduleMerge fd1) = (sm, False)" by (simp add: ShouldSchedule_def)
  then show ?thesis by (simp add: ScheduleDynamic_def)
qed

end
