(* ===== verification/Replay.thy ===== *)
theory Replay
  imports Processor
begin

section \<open>Replay of recorded trajectories (source\_lz4\_replay.go, cmd/indexer/replay.go)\<close>

text \<open>
  A trajectory is a compressed file of JSON lines. The source hands out the blocks of a range
  (\<open>FetchLogs\<close>, the pull mode that \<open>RunReplayMode\<close> uses) or all blocks one by one (\<open>StreamBlocks\<close>).

  \<^item> \<open>rs_lines\<close> are the lines not yet scanned, decompressed and parsed: \<open>None\<close> is a line that is not JSON.
    The names of object fields are taken as the recorder writes them, a number is the value of the
    \<open>float64\<close> it is read as.
  \<^item> The JSON forms of blocks and logs are those of go-ethereum: their decoders are the argument \<open>dec\<close>.
  \<^item> \<open>ctx k\<close> says that the context fires in the pause before the entry with \<open>k\<close> lines behind it.
\<close>

datatype json = JNull | JBool bool | JNum rat | JStr string | JArr "json list" | JObj "(string \<times> json) list"

record decoders =
  dec_block :: "json \<Rightarrow> EthBlock option"
  dec_logs :: "json list \<Rightarrow> Log list option"

text \<open>A field of an object; a repeated name overwrites.\<close>

definition field :: "string \<Rightarrow> (string \<times> json) list \<Rightarrow> json option" where
  "field k fs = map_of (rev fs) k"

text \<open>\<open>fmt.Sprintf("%.0f", v)\<close> rounds to the nearest integer, halves to the even one.\<close>

definition round_even :: "rat \<Rightarrow> int" where
  "round_even r =
     (let f = \<lfloor>r\<rfloor>; d = r - of_int f
      in if d < 1 / 2 then f else if d > 1 / 2 then f + 1 else if even f then f else f + 1)"

fun parseBigInt :: "json \<Rightarrow> int option" where
  "parseBigInt (JNum r) = Some (round_even r)"
| "parseBigInt (JStr s) = SetString10 s"
| "parseBigInt _ = None"

record Lz4ReplaySource =
  rs_file :: "json option list"
  rs_lines :: "json option list"
  totalSize :: int
  lastNum :: u64
  lastTime :: u64
  speedFactor :: rat

text \<open>\<open>content\<close> is what opening the file gives: its lines and its compressed size, or an error.\<close>

definition NewLz4ReplaySource :: "go_error + json option list \<times> int \<Rightarrow> rat \<Rightarrow> go_error + Lz4ReplaySource" where
  "NewLz4ReplaySource content speed =
     map_sum id (\<lambda>(ls, size). \<lparr>rs_file = ls, rs_lines = ls, totalSize = size, lastNum = 0, lastTime = 0, speedFactor = speed\<rparr>)
       content"

text \<open>The position in the compressed file, in percent; \<open>None\<close> when the seek fails.\<close>

definition GetProgress :: "int option \<Rightarrow> Lz4ReplaySource \<Rightarrow> rat" where
  "GetProgress pos src =
     (if totalSize src = 0 then 0
      else (case pos of None \<Rightarrow> 0 | Some p \<Rightarrow> of_int p / of_int (totalSize src) * 100))"

text \<open>Back to the beginning of the file; the last number and time stay.\<close>

definition Replay_Reset :: "go_error option \<Rightarrow> Lz4ReplaySource \<Rightarrow> go_error option \<times> Lz4ReplaySource" where
  "Replay_Reset seek_err src =
     (case seek_err of Some e \<Rightarrow> (Some e, src) | None \<Rightarrow> (None, src\<lparr>rs_lines := rs_file src\<rparr>))"

subsection \<open>Decoding a line\<close>

text \<open>A field decoded into a Go string: absent and null give the empty string.\<close>

definition text_field :: "string \<Rightarrow> (string \<times> json) list \<Rightarrow> string option" where
  "text_field k fs = (case field k fs of None \<Rightarrow> Some [] | Some JNull \<Rightarrow> Some [] | Some (JStr s) \<Rightarrow> Some s | _ \<Rightarrow> None)"

definition number_field :: "string \<Rightarrow> (string \<times> json) list \<Rightarrow> int option" where
  "number_field k fs = (case field k fs of None \<Rightarrow> None | Some v \<Rightarrow> parseBigInt v)"

text \<open>
  The block of an entry: \<open>None\<close> when the entry is skipped because it has only the two fields of the
  receipt metadata, else the decoded block if there is one.
\<close>

definition block_field :: "decoders \<Rightarrow> (string \<times> json) list \<Rightarrow> EthBlock option option" where
  "block_field dec fs =
     (case field ''Block'' fs of
        None \<Rightarrow> Some None
      | Some JNull \<Rightarrow> Some None
      | Some (JObj bs) \<Rightarrow> if card (fst ` set bs) = 2 then None else Some (dec_block dec (JObj bs))
      | Some v \<Rightarrow> Some (dec_block dec v))"

text \<open>The logs of an entry: \<open>None\<close> when the field has the wrong type, which skips the entry.\<close>

definition logs_field :: "decoders \<Rightarrow> (string \<times> json) list \<Rightarrow> Log list option" where
  "logs_field dec fs =
     (case field ''Logs'' fs of
        None \<Rightarrow> Some []
      | Some JNull \<Rightarrow> Some []
      | Some (JArr ls) \<Rightarrow> Some (case dec_logs dec ls of None \<Rightarrow> [] | Some l \<Rightarrow> l)
      | _ \<Rightarrow> None)"

definition err_field_ok :: "(string \<times> json) list \<Rightarrow> bool" where
  "err_field_ok fs = (case field ''Err'' fs of None \<Rightarrow> True | Some JNull \<Rightarrow> True | Some (JObj _) \<Rightarrow> True | _ \<Rightarrow> False)"

definition block_data :: "decoders \<Rightarrow> (string \<times> json) list \<Rightarrow> BlockData option" where
  "block_data dec fs =
     (case (block_field dec fs, logs_field dec fs) of
        (Some b, Some ls) \<Rightarrow>
          Some \<lparr>bd_Number = number_field ''Number'' fs, bd_RangeEnd = number_field ''RangeEnd'' fs, bd_Block = b,
                bd_Err = None, bd_Logs = ls\<rparr>
      | _ \<Rightarrow> None)"

text \<open>A line as \<open>FetchLogs\<close> reads it: \<open>None\<close> for \<open>continue\<close>. A data field of null is an empty map.\<close>

definition fetch_entry :: "decoders \<Rightarrow> json option \<Rightarrow> BlockData option" where
  "fetch_entry dec line =
     (case line of
        Some (JObj fs) \<Rightarrow>
          if text_field ''type'' fs = Some ''block_data'' then
            (case field ''data'' fs of
               Some (JObj ds) \<Rightarrow> if err_field_ok ds then block_data dec ds else None
             | Some JNull \<Rightarrow> block_data dec []
             | _ \<Rightarrow> None)
          else None
      | _ \<Rightarrow> None)"

text \<open>A line as \<open>StreamBlocks\<close> reads it: the time stamp must be an \<open>int64\<close>, the number must be present.\<close>

definition ts_ok :: "(string \<times> json) list \<Rightarrow> bool" where
  "ts_ok fs = (case field ''ts'' fs of
     None \<Rightarrow> True | Some JNull \<Rightarrow> True | Some (JNum r) \<Rightarrow> of_int \<lfloor>r\<rfloor> = r \<and> in_i64 \<lfloor>r\<rfloor> | _ \<Rightarrow> False)"

definition stream_entry :: "decoders \<Rightarrow> json option \<Rightarrow> BlockData option" where
  "stream_entry dec line =
     (case line of
        Some (JObj fs) \<Rightarrow>
          if ts_ok fs \<and> text_field ''type'' fs = Some ''block_data'' then
            (case field ''data'' fs of
               Some (JObj ds) \<Rightarrow> if number_field ''Number'' ds = None then None else block_data dec ds
             | _ \<Rightarrow> None)
          else None
      | _ \<Rightarrow> None)"

subsection \<open>Pull and push\<close>

text \<open>The pause before a block, whether it is made and whether the context fires in it.\<close>

definition pauses :: "BlockData \<Rightarrow> Lz4ReplaySource \<Rightarrow> bool" where
  "pauses bd src \<longleftrightarrow> speedFactor src > 0 \<and> lastTime src > 0
     \<and> (case bd_Block bd of None \<Rightarrow> False | Some b \<Rightarrow> eb_Time b > lastTime src)"

definition pause_err :: "(nat \<Rightarrow> go_error option) \<Rightarrow> nat \<Rightarrow> BlockData \<Rightarrow> Lz4ReplaySource \<Rightarrow> go_error option" where
  "pause_err ctx k bd src = (if pauses bd src then ctx k else None)"

definition note_block :: "BlockData \<Rightarrow> u64 \<Rightarrow> Lz4ReplaySource \<Rightarrow> Lz4ReplaySource" where
  "note_block bd bn src =
     src\<lparr>lastNum := bn, lastTime := (case bd_Block bd of None \<Rightarrow> lastTime src | Some b \<Rightarrow> eb_Time b)\<rparr>"

text \<open>The scan of \<open>FetchLogs\<close>; the number of an entry without one is a nil pointer, whose use panics.\<close>

fun fetch_lines ::
    "decoders \<Rightarrow> (nat \<Rightarrow> go_error option) \<Rightarrow> u64 \<Rightarrow> u64 \<Rightarrow> json option list \<Rightarrow> Lz4ReplaySource
      \<Rightarrow> ((go_error + BlockData list) \<times> Lz4ReplaySource) go" where
  "fetch_lines dec ctx targetStart targetEnd [] src = Ret (Inr [], src\<lparr>rs_lines := []\<rparr>)"
| "fetch_lines dec ctx targetStart targetEnd (l # ls) src =
     (case fetch_entry dec l of
        None \<Rightarrow> fetch_lines dec ctx targetStart targetEnd ls src
      | Some bd \<Rightarrow>
          (case bd_Number bd of
             None \<Rightarrow> Panic
           | Some n \<Rightarrow>
               (let bn = num_u64 n in
                if bn \<ge> targetStart \<and> bn \<le> targetEnd then
                  (case pause_err ctx (length ls) bd src of
                     Some e \<Rightarrow> Ret (Inl e, src\<lparr>rs_lines := ls\<rparr>)
                   | None \<Rightarrow>
                       (let src1 = note_block bd bn src in
                        if bn \<ge> targetEnd then Ret (Inr [bd], src1\<lparr>rs_lines := ls\<rparr>)
                        else go_bind (fetch_lines dec ctx targetStart targetEnd ls src1)
                               (\<lambda>(r, s). Ret (map_sum id (\<lambda>ds. bd # ds) r, s))))
                else if bn \<ge> targetEnd then Ret (Inr [], src\<lparr>rs_lines := ls\<rparr>)
                else fetch_lines dec ctx targetStart targetEnd ls src)))"

definition FetchLogs ::
    "decoders \<Rightarrow> (nat \<Rightarrow> go_error option) \<Rightarrow> go_error option \<Rightarrow> int \<Rightarrow> int \<Rightarrow> Lz4ReplaySource
      \<Rightarrow> ((go_error + BlockData list) \<times> Lz4ReplaySource) go" where
  "FetchLogs dec ctx scan_err start end' src =
     go_bind (fetch_lines dec ctx (num_u64 start) (num_u64 end') (rs_lines src) src) (\<lambda>(r, s).
       Ret (case (r, scan_err) of
              (Inr ds, Some e) \<Rightarrow> Inl (Wrapped ''lz4_scan_failed'' e)
            | _ \<Rightarrow> r, s))"

text \<open>
  \<open>StreamBlocks\<close>: \<open>stop k\<close> and \<open>send k\<close> say that the context is done before the entry with \<open>k\<close> lines behind
  it is parsed, or while its block waits for the channel; \<open>scan_err\<close> is the scanner's final error.
\<close>

fun stream_lines ::
    "decoders \<Rightarrow> (nat \<Rightarrow> go_error option) \<Rightarrow> (nat \<Rightarrow> go_error option) \<Rightarrow> (nat \<Rightarrow> go_error option) \<Rightarrow> go_error option
      \<Rightarrow> json option list \<Rightarrow> Lz4ReplaySource \<Rightarrow> BlockData list \<times> Lz4ReplaySource \<times> go_error option" where
  "stream_lines dec ctx stop send scan_err [] src = ([], src\<lparr>rs_lines := []\<rparr>, scan_err)"
| "stream_lines dec ctx stop send scan_err (l # ls) src =
     (case stop (length ls) of
        Some e \<Rightarrow> ([], src\<lparr>rs_lines := ls\<rparr>, Some e)
      | None \<Rightarrow>
          (case stream_entry dec l of
             None \<Rightarrow> stream_lines dec ctx stop send scan_err ls src
           | Some bd \<Rightarrow>
               (case pause_err ctx (length ls) bd src of
                  Some e \<Rightarrow> ([], src\<lparr>rs_lines := ls\<rparr>, Some e)
                | None \<Rightarrow>
                    (let src1 = note_block bd (num_u64 (the (bd_Number bd))) src
                     in case send (length ls) of
                          Some e \<Rightarrow> ([], src1\<lparr>rs_lines := ls\<rparr>, Some e)
                        | None \<Rightarrow> (let (ds, s, r) = stream_lines dec ctx stop send scan_err ls src1 in (bd # ds, s, r))))))"

definition StreamBlocks ::
    "decoders \<Rightarrow> (nat \<Rightarrow> go_error option) \<Rightarrow> (nat \<Rightarrow> go_error option) \<Rightarrow> (nat \<Rightarrow> go_error option) \<Rightarrow> go_error option
      \<Rightarrow> Lz4ReplaySource \<Rightarrow> BlockData list \<times> Lz4ReplaySource \<times> go_error option" where
  "StreamBlocks dec ctx stop send scan_err src = stream_lines dec ctx stop send scan_err (rs_lines src) src"

definition GetLatestHeight :: int where
  "GetLatestHeight = 999999999"

subsection \<open>The replay loop (cmd/indexer/replay.go)\<close>

text \<open>
  One tick: a range of eleven numbers is fetched, the blocks go to \<open>ProcessBatch\<close> in one call (the list
  \<open>delivered\<close>), and the cursor moves behind the last one, or behind the range when it was empty.
  \<open>pos\<close> is the position in the compressed file as a function of the lines left.
\<close>

datatype replay_end = RunOn | Finished | Failed go_error

definition replay_tick ::
    "decoders \<Rightarrow> (nat \<Rightarrow> go_error option) \<Rightarrow> (nat \<Rightarrow> int option) \<Rightarrow> int \<Rightarrow> Lz4ReplaySource
      \<Rightarrow> (int \<times> Lz4ReplaySource \<times> BlockData list \<times> replay_end) go" where
  "replay_tick dec ctx pos currentBlock src =
     go_bind (FetchLogs dec ctx None currentBlock (currentBlock + 10) src) (\<lambda>(r, s).
       case r of
         Inl e \<Rightarrow> Ret (currentBlock, s, [], Failed e)
       | Inr [] \<Rightarrow>
           if GetProgress (pos (length (rs_lines s))) s \<ge> 999 / 10 then Ret (currentBlock, s, [], Finished)
           else Ret (currentBlock + 10 + 1, s, [], RunOn)
       | Inr ds \<Rightarrow>
           (case bd_Number (last ds) of
              None \<Rightarrow> Panic
            | Some n \<Rightarrow> Ret (n + 1, s, ds, RunOn)))"

fun replay_ticks ::
    "decoders \<Rightarrow> (nat \<Rightarrow> go_error option) \<Rightarrow> (nat \<Rightarrow> int option) \<Rightarrow> nat \<Rightarrow> int \<Rightarrow> Lz4ReplaySource
      \<Rightarrow> (int \<times> Lz4ReplaySource \<times> BlockData list \<times> replay_end) go" where
  "replay_ticks dec ctx pos 0 cur src = Ret (cur, src, [], RunOn)"
| "replay_ticks dec ctx pos (Suc k) cur src =
     go_bind (replay_tick dec ctx pos cur src) (\<lambda>(c1, s1, ds, e).
       if e = RunOn
       then go_bind (replay_ticks dec ctx pos k c1 s1) (\<lambda>(c2, s2, ds', e'). Ret (c2, s2, ds @ ds', e'))
       else Ret (c1, s1, ds, e))"

subsection \<open>Push delivers everything, pull does not\<close>

text \<open>
  Streaming hands out every block entry of the trajectory, in order and once each, when the context
  does not fire.
\<close>

lemma stream_delivers_all:
  "\<exists>s. StreamBlocks dec (\<lambda>_. None) (\<lambda>_. None) (\<lambda>_. None) None src
     = (List.map_filter (stream_entry dec) (rs_lines src), s, None)"
proof -
  let ?go = "stream_lines dec (\<lambda>_. None) (\<lambda>_. None) (\<lambda>_. None) None"
  have "\<exists>s. ?go ls src = (List.map_filter (stream_entry dec) ls, s, None)" for ls
  proof (induction ls arbitrary: src)
    case (Cons l ls)
    show ?case
    proof (cases "stream_entry dec l")
      case None
      with Cons.IH [of src] show ?thesis by (simp add: map_filter_simps)
    next
      case (Some bd)
      from Cons.IH obtain s where
        "?go ls (note_block bd (num_u64 (the (bd_Number bd))) src) = (List.map_filter (stream_entry dec) ls, s, None)" by blast
      with Some show ?thesis by (simp add: map_filter_simps pause_err_def)
    qed
  qed (simp add: map_filter_simps)
  then show ?thesis by (simp add: StreamBlocks_def)
qed

text \<open>A recording of size 0 never ends: its progress stays 0, so the loop probes ever higher numbers.\<close>

lemma empty_recording_never_ends:
  "rs_lines src = [] \<Longrightarrow> totalSize src = 0 \<Longrightarrow> replay_ticks dec ctx pos k cur src = Ret (cur + 11 * int k, src, [], RunOn)"
proof (induction k arbitrary: cur)
  case (Suc k)
  have "src\<lparr>rs_lines := []\<rparr> = src" using Suc.prems(1) by simp
  with Suc.prems have "replay_tick dec ctx pos cur src = Ret (cur + 11, src, [], RunOn)"
    by (simp add: replay_tick_def FetchLogs_def GetProgress_def)
  with Suc.IH [OF Suc.prems, of "cur + 11"] show ?case by (simp add: algebra_simps)
qed simp

text \<open>A trajectory of consecutive blocks from \<open>n\<close> on, played at full speed.\<close>

definition dense :: "decoders \<Rightarrow> int \<Rightarrow> json option list \<Rightarrow> bool" where
  "dense dec n ls \<longleftrightarrow> 0 \<le> n \<and> n + int (length ls) < 2 ^ 63
     \<and> (\<forall>i < length ls. \<exists>bd. fetch_entry dec (ls ! i) = Some bd \<and> bd_Number bd = Some (n + int i))"

lemma dense_Cons: "dense dec n (l # ls) \<Longrightarrow>
    dense dec (n + 1) ls \<and> (\<exists>bd. fetch_entry dec l = Some bd \<and> bd_Number bd = Some n) \<and> 0 \<le> n \<and> n < 2 ^ 63"
  unfolding dense_def by (auto simp: nth_Cons' dest: spec [where x = 0] spec [where x = "Suc _"])

lemma num_u64_le: "0 \<le> a \<Longrightarrow> a < 2 ^ 64 \<Longrightarrow> 0 \<le> b \<Longrightarrow> b < 2 ^ 64 \<Longrightarrow> num_u64 a \<le> num_u64 b \<longleftrightarrow> a \<le> b"
  by (simp add: word_le_def uint_num_u64)

lemma GetProgress_lines [simp]: "GetProgress pos (src\<lparr>rs_lines := ls\<rparr>) = GetProgress pos src"
  by (cases pos) (simp_all add: GetProgress_def)

text \<open>
  One tick below the trajectory: the first entry is read and dropped, since its number lies beyond
  the range, and nothing is delivered. If the file position is at the end already (the decompressor
  reads ahead), the replay stops there and then.
\<close>

lemma tick_drops_entry:
  assumes "rs_lines src = l # ls" and "dense dec m (l # ls)" and "0 \<le> cur" and "cur + 10 < m"
  shows "replay_tick dec ctx pos cur src =
    (if GetProgress (pos (length ls)) src \<ge> 999 / 10 then Ret (cur, src\<lparr>rs_lines := ls\<rparr>, [], Finished)
     else Ret (cur + 11, src\<lparr>rs_lines := ls\<rparr>, [], RunOn))"
proof -
  from dense_Cons [OF assms(2)] obtain bd
    where bd: "fetch_entry dec l = Some bd" "bd_Number bd = Some m" "0 \<le> m" "m < 2 ^ 63" by auto
  have "\<not> num_u64 m \<le> num_u64 (cur + 10)" "num_u64 (cur + 10) \<le> num_u64 m"
    using assms(3,4) bd(3,4) by (simp_all add: num_u64_le)
  with assms(1) bd(1,2) show ?thesis by (simp add: replay_tick_def FetchLogs_def)
qed

text \<open>
  The replay loop loses the beginning of a trajectory: it starts at block 0 and asks for eleven
  numbers at a time, and every call drops the first entry it reads when that lies beyond the range.
  A trajectory of consecutive blocks from \<open>n\<close> on therefore loses one block per tick without delivering
  any, as long as the cursor has not caught up: \<open>k\<close> blocks for every \<open>k\<close> with \<open>10 k < n\<close>.
\<close>

lemma replay_drops_head:
  assumes "dense dec n (rs_lines src)" and "k \<le> length (rs_lines src)" and "10 * int k < n"
    and "\<forall>j. GetProgress (pos j) src < 999 / 10"
  shows "replay_ticks dec ctx pos k 0 src = Ret (11 * int k, src\<lparr>rs_lines := drop k (rs_lines src)\<rparr>, [], RunOn)"
proof -
  have "replay_ticks dec ctx pos k cur src = Ret (cur + 11 * int k, src\<lparr>rs_lines := drop k (rs_lines src)\<rparr>, [], RunOn)"
    if "dense dec m (rs_lines src)" "k \<le> length (rs_lines src)" "0 \<le> cur" "cur + 10 * int k < m"
      "\<forall>j. GetProgress (pos j) src < 999 / 10" for cur m
    using that
  proof (induction k arbitrary: cur src m)
    case (Suc k)
    from Suc.prems(2) obtain l rest where ls: "rs_lines src = l # rest" by (cases "rs_lines src") auto
    let ?s = "src\<lparr>rs_lines := rest\<rparr>"
    have p: "\<forall>j. GetProgress (pos j) ?s < 999 / 10" using Suc.prems(5) by simp
    have d: "dense dec (m + 1) (rs_lines ?s)" using dense_Cons [of dec m l rest] Suc.prems(1) ls by simp
    have "replay_tick dec ctx pos cur src = Ret (cur + 11, ?s, [], RunOn)"
      using tick_drops_entry [OF ls _ Suc.prems(3), of dec m ctx pos] Suc.prems(1,4,5) ls by (auto simp: not_le)
    with Suc.IH [OF d _ _ _ p, of "cur + 11"] Suc.prems(2-4) ls show ?case by (simp add: algebra_simps)
  qed simp
  from this [of n 0] assms show ?thesis by simp
qed

end
