(* ===== verification/Web_Hub.thy ===== *)
theory Web_Hub
  imports Go_Utils
begin

section \<open>The WebSocket hub (internal/web/hub.go, hub\_throttle.go)\<close>

text \<open>
  The hub fans events out to the connected browsers. Its goroutine owns the set of clients; every
  client has a buffered channel that its write pump empties into the connection. Go panics on a
  send on a closed channel and on closing a channel twice, so both are modelled.

  \<^item> Clients are pointers: a client is its index in \<open>conns\<close>, the list of all clients ever created.
  \<^item> \<open>received\<close> is what the write pump has written to the connection.
  \<^item> \<open>activity\<close> counts the calls of \<open>OnActivity\<close>, \<open>metas\<close> lists those of \<open>OnNeedMeta\<close>; both are set when
    the process has started. JSON encoding is the argument \<open>marshal\<close>.
\<close>

record Client =
  cl_send :: "string chan"
  send_closed :: bool
  received :: "string list"
  pump_done :: bool

record 'e Hub =
  clients :: "nat list"
  conns :: "Client list"
  hub_broadcast :: "'e chan"
  activity :: nat
  metas :: "string list"
  running :: bool

definition NewHub :: "'e Hub" where
  "NewHub = \<lparr>clients = [], conns = [], hub_broadcast = chan_make 10000, activity = 0, metas = [], running = True\<rparr>"

text \<open>The origins that may open a connection.\<close>

definition CheckOrigin :: "string \<Rightarrow> bool" where
  "CheckOrigin origin \<longleftrightarrow> origin = [] \<or> list_ex (contains origin) [''localhost'', ''127.0.0.1'', ''mp1'', ''st6160.click'']"

subsection \<open>The hub's goroutine\<close>

definition upd_client :: "nat \<Rightarrow> (Client \<Rightarrow> Client) \<Rightarrow> 'e Hub \<Rightarrow> 'e Hub" where
  "upd_client c g h = h\<lparr>conns := (conns h)[c := g (conns h ! c)]\<rparr>"

definition delete_client :: "nat \<Rightarrow> 'e Hub \<Rightarrow> 'e Hub" where
  "delete_client c h = h\<lparr>clients := filter (\<lambda>x. x \<noteq> c) (clients h)\<rparr>"

definition close_send :: "nat \<Rightarrow> 'e Hub \<Rightarrow> 'e Hub go" where
  "close_send c h = (if send_closed (conns h ! c) then Panic else Ret (upd_client c (send_closed_update (\<lambda>_. True)) h))"

text \<open>
  \<open>HandleWS\<close> upgrades the connection, which needs an allowed origin and can fail, creates the client and
  hands it to the hub, which counts an activity.
\<close>

definition HandleWS :: "string \<Rightarrow> bool \<Rightarrow> 'e Hub \<Rightarrow> 'e Hub" where
  "HandleWS origin upgrade_ok h =
     (if CheckOrigin origin \<and> upgrade_ok
      then h\<lparr>conns := conns h @ [\<lparr>cl_send = chan_make 256, send_closed = False, received = [], pump_done = False\<rparr>],
             clients := clients h @ [length (conns h)], activity := activity h + 1\<rparr>
      else h)"

text \<open>The end of a read pump.\<close>

definition unregister :: "nat \<Rightarrow> 'e Hub \<Rightarrow> 'e Hub go" where
  "unregister c h = (if c \<in> set (clients h) then close_send c (delete_client c h) else Ret h)"

text \<open>A message for one client: a client whose channel is full is disconnected.\<close>

definition offer :: "string \<Rightarrow> nat \<Rightarrow> 'e Hub \<Rightarrow> 'e Hub go" where
  "offer m c h =
     (if send_closed (conns h ! c) then Panic
      else case chan_try_send m (cl_send (conns h ! c)) of
             (ch, True) \<Rightarrow> Ret (upd_client c (cl_send_update (\<lambda>_. ch)) h)
           | (_, False) \<Rightarrow> go_bind (close_send c h) (\<lambda>h1. Ret (delete_client c h1)))"

fun offer_all :: "string \<Rightarrow> nat list \<Rightarrow> 'e Hub \<Rightarrow> 'e Hub go" where
  "offer_all m [] h = Ret h"
| "offer_all m (c # cs) h = go_bind (offer m c h) (offer_all m cs)"

text \<open>The next event of the queue, if any.\<close>

definition dispatch :: "('e \<Rightarrow> string option) \<Rightarrow> 'e Hub \<Rightarrow> 'e Hub go" where
  "dispatch marshal h =
     (case items (hub_broadcast h) of
        [] \<Rightarrow> Ret h
      | e # es \<Rightarrow>
          (let h1 = h\<lparr>hub_broadcast := (hub_broadcast h)\<lparr>items := es\<rparr>\<rparr>
           in case marshal e of None \<Rightarrow> Ret h1 | Some m \<Rightarrow> offer_all m (clients h1) h1))"

text \<open>The cancelled context: every client's channel is closed and the goroutine ends.\<close>

fun close_all :: "nat list \<Rightarrow> 'e Hub \<Rightarrow> 'e Hub go" where
  "close_all [] h = Ret h"
| "close_all (c # cs) h = go_bind (close_send c h) (\<lambda>h1. close_all cs (delete_client c h1))"

definition Hub_stop :: "'e Hub \<Rightarrow> 'e Hub go" where
  "Hub_stop h = go_bind (close_all (clients h) h) (\<lambda>h1. Ret (h1\<lparr>running := False\<rparr>))"

definition Broadcast :: "'e \<Rightarrow> 'e Hub \<Rightarrow> 'e Hub" where
  "Broadcast e h = h\<lparr>hub_broadcast := fst (chan_try_send e (hub_broadcast h))\<rparr>"

subsection \<open>The pumps of a client\<close>

text \<open>A message from the browser: \<open>msg\<close> is its type and address, \<open>None\<close> when it cannot be decoded.\<close>

definition readPump :: "(string \<times> string) option \<Rightarrow> 'e Hub \<Rightarrow> 'e Hub" where
  "readPump msg h =
     (let h1 = h\<lparr>activity := activity h + 1\<rparr>
      in case msg of
           None \<Rightarrow> h1
         | Some (ty, addr) \<Rightarrow>
             (let h2 = (if ty = ''NEED_METADATA'' then h1\<lparr>metas := metas h1 @ [addr]\<rparr> else h1)
              in if ty = ''HEARTBEAT'' then h2\<lparr>activity := activity h2 + 1\<rparr> else h2))"

definition pong :: "'e Hub \<Rightarrow> 'e Hub" where
  "pong h = h\<lparr>activity := activity h + 1\<rparr>"

text \<open>
  One round of the write pump, with the answer of the connection: a failed write or ping ends the
  pump, as does a closed channel that is empty. With no message waiting the round is a ping.
\<close>

definition writePump :: "nat \<Rightarrow> bool \<Rightarrow> 'e Hub \<Rightarrow> 'e Hub" where
  "writePump c ok h =
     (if c < length (conns h) \<and> \<not> pump_done (conns h ! c)
      then (case items (cl_send (conns h ! c)) of
              [] \<Rightarrow> if send_closed (conns h ! c) \<or> \<not> ok then upd_client c (pump_done_update (\<lambda>_. True)) h else h
            | m # ms \<Rightarrow>
                if ok
                then upd_client c (\<lambda>cl. cl\<lparr>cl_send := (cl_send cl)\<lparr>items := ms\<rparr>, received := received cl @ [m]\<rparr>) h
                else upd_client c (\<lambda>cl. cl\<lparr>cl_send := (cl_send cl)\<lparr>items := ms\<rparr>, pump_done := True\<rparr>) h)
      else h)"

subsection \<open>Runs\<close>

datatype 'e hub_event =
    Connect string bool
  | Disconnect nat
  | Publish 'e
  | Dispatch
  | FromClient "(string \<times> string) option"
  | Pong
  | WriteOut nat bool
  | Stop

text \<open>
  The unbuffered channels and the queue are served by the hub's goroutine: once it has ended, the
  calls that need it wait forever, which leaves the hub as it is.
\<close>

definition serve :: "('e Hub \<Rightarrow> 'e Hub go) \<Rightarrow> 'e Hub \<Rightarrow> 'e Hub go" where
  "serve g h = (if running h then g h else Ret h)"

fun hub_step :: "('e \<Rightarrow> string option) \<Rightarrow> 'e hub_event \<Rightarrow> 'e Hub \<Rightarrow> 'e Hub go" where
  "hub_step marshal (Connect origin ok) h = serve (\<lambda>h. Ret (HandleWS origin ok h)) h"
| "hub_step marshal (Disconnect c) h = serve (unregister c) h"
| "hub_step marshal (Publish e) h = Ret (Broadcast e h)"
| "hub_step marshal Dispatch h = serve (dispatch marshal) h"
| "hub_step marshal (FromClient msg) h = Ret (readPump msg h)"
| "hub_step marshal Pong h = Ret (pong h)"
| "hub_step marshal (WriteOut c ok) h = Ret (writePump c ok h)"
| "hub_step marshal Stop h = serve Hub_stop h"

text \<open>The message an event sends round, if it does; a run returns the hub and all of them.\<close>

fun sent_round :: "('e \<Rightarrow> string option) \<Rightarrow> 'e hub_event \<Rightarrow> 'e Hub \<Rightarrow> string list" where
  "sent_round marshal Dispatch h =
     (if running h
      then (case items (hub_broadcast h) of [] \<Rightarrow> [] | e # _ \<Rightarrow> (case marshal e of None \<Rightarrow> [] | Some m \<Rightarrow> [m]))
      else [])"
| "sent_round marshal _ h = []"

fun hub_run :: "('e \<Rightarrow> string option) \<Rightarrow> 'e hub_event list \<Rightarrow> 'e Hub \<times> string list \<Rightarrow> ('e Hub \<times> string list) go" where
  "hub_run marshal [] x = Ret x"
| "hub_run marshal (ev # evs) x =
     go_bind (hub_step marshal ev (fst x)) (\<lambda>h. hub_run marshal evs (h, snd x @ sent_round marshal ev (fst x)))"

subsection \<open>The fan-out\<close>

text \<open>What one message does to a client that is connected.\<close>

definition has_room :: "Client \<Rightarrow> bool" where
  "has_room cl \<longleftrightarrow> length (items (cl_send cl)) < capacity (cl_send cl)"

definition take_message :: "string \<Rightarrow> Client \<Rightarrow> Client" where
  "take_message m cl =
     (if has_room cl then cl\<lparr>cl_send := (cl_send cl)\<lparr>items := items (cl_send cl) @ [m]\<rparr>\<rparr> else cl\<lparr>send_closed := True\<rparr>)"

definition wired :: "'e Hub \<Rightarrow> bool" where
  "wired h \<longleftrightarrow> distinct (clients h) \<and> set (clients h) \<subseteq> {..<length (conns h)}
     \<and> (\<forall>i < length (conns h). send_closed (conns h ! i) = (i \<notin> set (clients h)) \<and> chan_wf (cl_send (conns h ! i))
          \<and> capacity (cl_send (conns h ! i)) = 256)"

text \<open>
  The loop over the clients acts on each of them alone, so the order of Go's map iteration does
  not matter: those with room get the message, the others are closed and removed.
\<close>

lemma offer_eq:
  assumes "\<not> send_closed (conns h ! c)"
  shows "offer m c h = Ret (h\<lparr>conns := (conns h)[c := take_message m (conns h ! c)],
    clients := if has_room (conns h ! c) then clients h else filter (\<lambda>x. x \<noteq> c) (clients h)\<rparr>)"
  using assms by (simp add: offer_def chan_try_send_def chan_len_def has_room_def take_message_def upd_client_def
      close_send_def delete_client_def)

lemma offer_all_eq:
  assumes "distinct cs" and "\<forall>c \<in> set cs. c < length (conns h) \<and> \<not> send_closed (conns h ! c)"
  shows "offer_all m cs h = Ret (h\<lparr>conns := map (\<lambda>i. if i \<in> set cs then take_message m (conns h ! i) else conns h ! i) [0..<length (conns h)],
    clients := filter (\<lambda>c. c \<in> set cs \<longrightarrow> has_room (conns h ! c)) (clients h)\<rparr>)"
  using assms
proof (induction cs arbitrary: h)
  case Nil
  then show ?case by (simp add: map_nth)
next
  case (Cons c cs)
  let ?h = "h\<lparr>conns := (conns h)[c := take_message m (conns h ! c)],
    clients := if has_room (conns h ! c) then clients h else filter (\<lambda>x. x \<noteq> c) (clients h)\<rparr>"
  have o: "offer m c h = Ret ?h" using Cons.prems by (intro offer_eq) simp
  have "offer_all m cs ?h = Ret (?h\<lparr>conns := map (\<lambda>i. if i \<in> set cs then take_message m (conns ?h ! i) else conns ?h ! i) [0..<length (conns ?h)],
    clients := filter (\<lambda>c. c \<in> set cs \<longrightarrow> has_room (conns ?h ! c)) (clients ?h)\<rparr>)"
    using Cons.prems by (intro Cons.IH) (auto simp: nth_list_update)
  moreover have "map (\<lambda>i. if i \<in> set cs then take_message m (conns ?h ! i) else conns ?h ! i) [0..<length (conns ?h)]
      = map (\<lambda>i. if i \<in> set (c # cs) then take_message m (conns h ! i) else conns h ! i) [0..<length (conns h)]"
    using Cons.prems by (auto simp: nth_list_update)
  moreover have "filter (\<lambda>c. c \<in> set cs \<longrightarrow> has_room (conns ?h ! c)) (clients ?h)
      = filter (\<lambda>x. x \<in> set (c # cs) \<longrightarrow> has_room (conns h ! x)) (clients h)"
    using Cons.prems by (auto simp: nth_list_update intro!: filter_cong)
  ultimately show ?case by (simp add: o)
qed

lemma close_all_eq:
  assumes "distinct cs" and "\<forall>c \<in> set cs. c < length (conns h) \<and> \<not> send_closed (conns h ! c)"
  shows "close_all cs h = Ret (h\<lparr>conns := map (\<lambda>i. if i \<in> set cs then (conns h ! i)\<lparr>send_closed := True\<rparr> else conns h ! i) [0..<length (conns h)],
    clients := filter (\<lambda>c. c \<notin> set cs) (clients h)\<rparr>)"
  using assms
proof (induction cs arbitrary: h)
  case Nil
  then show ?case by (simp add: map_nth)
next
  case (Cons c cs)
  let ?h = "h\<lparr>conns := (conns h)[c := (conns h ! c)\<lparr>send_closed := True\<rparr>], clients := filter (\<lambda>x. x \<noteq> c) (clients h)\<rparr>"
  have c: "go_bind (close_send c h) (\<lambda>h1. close_all cs (delete_client c h1)) = close_all cs ?h"
    using Cons.prems by (simp add: close_send_def delete_client_def upd_client_def)
  have "close_all cs ?h = Ret (?h\<lparr>conns := map (\<lambda>i. if i \<in> set cs then (conns ?h ! i)\<lparr>send_closed := True\<rparr> else conns ?h ! i) [0..<length (conns ?h)],
    clients := filter (\<lambda>c. c \<notin> set cs) (clients ?h)\<rparr>)"
    using Cons.prems by (intro Cons.IH) (auto simp: nth_list_update)
  moreover have "map (\<lambda>i. if i \<in> set cs then (conns ?h ! i)\<lparr>send_closed := True\<rparr> else conns ?h ! i) [0..<length (conns ?h)]
      = map (\<lambda>i. if i \<in> set (c # cs) then (conns h ! i)\<lparr>send_closed := True\<rparr> else conns h ! i) [0..<length (conns h)]"
    using Cons.prems by (auto simp: nth_list_update)
  ultimately show ?case by (simp add: c conj_commute)
qed

subsection \<open>The stream of a client\<close>

text \<open>
  What a client has received and what waits for it is one contiguous piece of the messages sent
  round; as long as it is connected, the piece reaches to the newest one. Once its pump has ended
  nothing more is received.
\<close>

definition waiting :: "Client \<Rightarrow> string list" where
  "waiting cl = (if pump_done cl then [] else items (cl_send cl))"

definition in_stream :: "string list \<Rightarrow> bool \<Rightarrow> Client \<Rightarrow> bool" where
  "in_stream msgs on cl \<longleftrightarrow>
     (\<exists>pre post. msgs = pre @ received cl @ waiting cl @ post \<and> (on \<and> \<not> pump_done cl \<longrightarrow> post = []))"

definition hub_ok :: "string list \<Rightarrow> 'e Hub \<Rightarrow> bool" where
  "hub_ok msgs h \<longleftrightarrow> wired h \<and> (\<forall>i < length (conns h). in_stream msgs (i \<in> set (clients h)) (conns h ! i))"

lemma in_stream_closed [simp]: "in_stream msgs on (cl\<lparr>send_closed := x\<rparr>) = in_stream msgs on cl"
  by (simp add: in_stream_def waiting_def)

lemma in_stream_disconnect: "in_stream msgs on cl \<Longrightarrow> in_stream msgs False cl"
  unfolding in_stream_def by blast

lemma in_stream_new: "received cl = [] \<Longrightarrow> items (cl_send cl) = [] \<Longrightarrow> in_stream msgs on cl"
  unfolding in_stream_def waiting_def by (intro exI [of _ msgs] exI [of _ "[]"]) simp

lemma in_stream_missed: "in_stream msgs b cl \<Longrightarrow> \<not> b' \<or> pump_done cl \<Longrightarrow> in_stream (msgs @ ms) b' cl"
  unfolding in_stream_def by (metis append.assoc)

lemma in_stream_take:
  assumes "in_stream msgs True cl"
  shows "in_stream (msgs @ [m]) (has_room cl) (take_message m cl)"
proof (cases "has_room cl \<and> \<not> pump_done cl")
  case True
  with assms show ?thesis by (auto simp: in_stream_def take_message_def waiting_def)
next
  case False
  with in_stream_missed [OF assms, of "has_room cl" "[m]"] have "in_stream (msgs @ [m]) (has_room cl) cl" by blast
  moreover have "in_stream ms on (cl\<lparr>cl_send := ch\<rparr>) = in_stream ms on cl" if "pump_done cl" for ms on ch
    using that by (simp add: in_stream_def waiting_def)
  ultimately show ?thesis using False by (cases "has_room cl") (simp_all add: take_message_def)
qed

lemma in_stream_write:
  assumes "items (cl_send cl) = m # ms" and "\<not> pump_done cl"
  shows "in_stream msgs on (cl\<lparr>cl_send := (cl_send cl)\<lparr>items := ms\<rparr>, received := received cl @ [m]\<rparr>) = in_stream msgs on cl"
    and "in_stream msgs on cl \<Longrightarrow> in_stream msgs on (cl\<lparr>cl_send := (cl_send cl)\<lparr>items := ms\<rparr>, pump_done := True\<rparr>)"
  using assms by (auto simp: in_stream_def waiting_def)

lemma in_stream_end: "in_stream msgs on cl \<Longrightarrow> in_stream msgs on (cl\<lparr>pump_done := True\<rparr>)"
  by (auto simp: in_stream_def waiting_def)

lemma hub_ok_connect: "hub_ok msgs h \<Longrightarrow> hub_ok msgs (HandleWS origin ok h)"
  by (auto simp: hub_ok_def wired_def HandleWS_def in_stream_new nth_append less_Suc_eq chan_wf_def chan_len_def chan_make_def)

lemma hub_ok_close:
  assumes "hub_ok msgs h" and "distinct cs" and "set cs \<subseteq> set (clients h)"
  shows "\<exists>h'. close_all cs h = Ret h' \<and> hub_ok msgs h'"
proof -
  have "\<forall>c \<in> set cs. c < length (conns h) \<and> \<not> send_closed (conns h ! c)"
    using assms(1,3) by (auto simp: hub_ok_def wired_def)
  from close_all_eq [OF assms(2) this] assms(1) show ?thesis
    by (auto simp: hub_ok_def wired_def intro: in_stream_disconnect)
qed

lemma hub_ok_disconnect:
  assumes "hub_ok msgs h"
  shows "\<exists>h'. unregister c h = Ret h' \<and> hub_ok msgs h'"
proof (cases "c \<in> set (clients h)")
  case True
  with hub_ok_close [OF assms, of "[c]"] show ?thesis
    by (simp add: unregister_def close_send_def delete_client_def upd_client_def hub_ok_def wired_def split: if_splits)
qed (use assms in \<open>simp add: unregister_def\<close>)

lemma hub_ok_offer:
  assumes "hub_ok msgs h"
  shows "\<exists>h'. offer_all m (clients h) h = Ret h' \<and> hub_ok (msgs @ [m]) h'"
proof -
  have w: "distinct (clients h)" "\<forall>c \<in> set (clients h). c < length (conns h) \<and> \<not> send_closed (conns h ! c)"
    using assms by (auto simp: hub_ok_def wired_def)
  let ?h = "h\<lparr>conns := map (\<lambda>i. if i \<in> set (clients h) then take_message m (conns h ! i) else conns h ! i) [0..<length (conns h)],
    clients := filter (\<lambda>c. c \<in> set (clients h) \<longrightarrow> has_room (conns h ! c)) (clients h)\<rparr>"
  have "wired ?h"
    using assms by (auto simp: hub_ok_def wired_def take_message_def has_room_def chan_wf_def chan_len_def)
  moreover have "in_stream (msgs @ [m]) (i \<in> set (clients ?h)) (conns ?h ! i)" if "i < length (conns h)" for i
  proof (cases "i \<in> set (clients h)")
    case True
    with assms that have "in_stream msgs True (conns h ! i)" by (auto simp: hub_ok_def)
    from in_stream_take [OF this] True that show ?thesis by simp
  next
    case False
    with assms that have "in_stream msgs False (conns h ! i)" by (auto simp: hub_ok_def)
    from in_stream_missed [OF this] False that show ?thesis by simp
  qed
  ultimately show ?thesis by (simp add: offer_all_eq [OF w] hub_ok_def)
qed

lemma hub_ok_write: "hub_ok msgs h \<Longrightarrow> hub_ok msgs (writePump c ok h)"
  by (auto simp: hub_ok_def wired_def writePump_def upd_client_def in_stream_write in_stream_end nth_list_update chan_wf_def
      chan_len_def split: list.splits)

lemma hub_ok_frame: "conns h' = conns h \<Longrightarrow> clients h' = clients h \<Longrightarrow> hub_ok msgs h' = hub_ok msgs h"
  by (simp add: hub_ok_def wired_def)

lemma hub_ok_Broadcast: "hub_ok msgs (Broadcast e h) = hub_ok msgs h"
  by (rule hub_ok_frame) (simp_all add: Broadcast_def)

lemma hub_ok_readPump: "hub_ok msgs (readPump msg h) = hub_ok msgs h"
  by (rule hub_ok_frame) (simp_all add: readPump_def Let_def split: option.splits)

lemma hub_ok_pong: "hub_ok msgs (pong h) = hub_ok msgs h"
  by (rule hub_ok_frame) (simp_all add: pong_def)

lemma hub_step_ok:
  assumes "hub_ok msgs h"
  shows "\<exists>h'. hub_step marshal ev h = Ret h' \<and> hub_ok (msgs @ sent_round marshal ev h) h'"
proof (cases ev)
  case Dispatch
  note frame = hub_ok_frame [of "h\<lparr>hub_broadcast := q\<rparr>" h for q]
  show ?thesis
  proof (cases "items (hub_broadcast h)")
    case (Cons e es)
    let ?h = "h\<lparr>hub_broadcast := (hub_broadcast h)\<lparr>items := es\<rparr>\<rparr>"
    have "hub_ok msgs ?h" using assms by (simp add: frame)
    then show ?thesis
      using Dispatch Cons assms hub_ok_offer [of msgs ?h] by (cases "marshal e") (simp_all add: serve_def dispatch_def)
  qed (use Dispatch assms in \<open>simp add: serve_def dispatch_def\<close>)
next
  case Stop
  from hub_ok_close [OF assms, of "clients h"] assms obtain h'
    where "close_all (clients h) h = Ret h'" "hub_ok msgs h'" by (auto simp: hub_ok_def wired_def)
  with Stop assms show ?thesis by (simp add: serve_def Hub_stop_def hub_ok_frame [of "h'\<lparr>running := False\<rparr>" h'])
qed (use assms in \<open>simp_all add: serve_def hub_ok_connect hub_ok_disconnect hub_ok_write hub_ok_Broadcast hub_ok_readPump hub_ok_pong\<close>)

lemma hub_run_ok: "hub_ok (snd x) (fst x) \<Longrightarrow> \<exists>h msgs. hub_run marshal evs x = Ret (h, msgs) \<and> hub_ok msgs h"
proof (induction evs arbitrary: x)
  case (Cons ev evs)
  from hub_step_ok [OF Cons.prems] obtain h'
    where h': "hub_step marshal ev (fst x) = Ret h'" "hub_ok (snd x @ sent_round marshal ev (fst x)) h'" by blast
  with Cons.IH [of "(h', snd x @ sent_round marshal ev (fst x))"] show ?case by simp
qed (metis hub_run.simps(1) prod.collapse)

text \<open>
  (C33) The hub serves gapless streams and never panics: whatever connections, disconnections, events and
  slow readers come in whatever order, no channel is closed twice or used after its close, every
  client's buffer stays within 256, and what a client has received and what waits for it is one
  contiguous piece of the messages sent round, in order and once each; for a connected client whose
  connection works it ends with the newest message. A slow client is disconnected, never skipped.
\<close>

theorem hub_streams_gapless:
  "\<exists>h msgs. hub_run marshal evs (NewHub, []) = Ret (h, msgs)
    \<and> (\<forall>i < length (conns h). chan_len (cl_send (conns h ! i)) \<le> 256 \<and> send_closed (conns h ! i) = (i \<notin> set (clients h))
        \<and> (\<exists>pre post. msgs = pre @ received (conns h ! i) @ waiting (conns h ! i) @ post
              \<and> (i \<in> set (clients h) \<and> \<not> pump_done (conns h ! i) \<longrightarrow> post = [])))"
proof -
  have "hub_ok [] NewHub" by (simp add: hub_ok_def wired_def NewHub_def)
  with hub_run_ok [of "(NewHub, [])" marshal evs] obtain h msgs
    where "hub_run marshal evs (NewHub, []) = Ret (h, msgs)" "hub_ok msgs h" by auto
  then show ?thesis by (fastforce simp: hub_ok_def wired_def in_stream_def chan_wf_def)
qed

theorem hub_streams_gapless_witness:
  "\<exists>h pre. hub_run Some [Connect [] True, Publish ''a'', Dispatch, Connect ''http://localhost:8080'' True, Publish ''b'', Dispatch, WriteOut 1 True] (NewHub, []) = Ret (h, [''a'', ''b''])
     \<and> clients h = [0, 1] \<and> [''a'', ''b''] = pre @ received (conns h ! 1) @ waiting (conns h ! 1)"
proof -
  let ?evs = "[Connect [] True, Publish ''a'', Dispatch, Connect ''http://localhost:8080'' True, Publish ''b'', Dispatch, WriteOut 1 True]"
  obtain h msgs where run: "hub_run Some ?evs (NewHub, []) = Ret (h, msgs)"
    and ok: "\<forall>i < length (conns h). chan_len (cl_send (conns h ! i)) \<le> 256 \<and> send_closed (conns h ! i) = (i \<notin> set (clients h))
      \<and> (\<exists>pre post. msgs = pre @ received (conns h ! i) @ waiting (conns h ! i) @ post
            \<and> (i \<in> set (clients h) \<and> \<not> pump_done (conns h ! i) \<longrightarrow> post = []))"
    using hub_streams_gapless [of Some ?evs] by blast
  have "go_bind (hub_run Some ?evs (NewHub, [])) (\<lambda>(h, ms). Ret (clients h, length (conns h), pump_done (conns h ! 1), ms)) = Ret ([0, 1], 2, False, [''a'', ''b''])"
    by code_simp
  from this [unfolded run] have h: "clients h = [0, 1]" "length (conns h) = 2" "\<not> pump_done (conns h ! 1)" "msgs = [''a'', ''b'']" by simp_all
  then have "\<exists>pre. [''a'', ''b''] = pre @ received (conns h ! 1) @ waiting (conns h ! 1)"
    using ok [rule_format, of 1] by auto
  with run [unfolded h(4)] h(1) show ?thesis by blast
qed

subsection \<open>The throttled hub (hub\_throttle.go)\<close>

text \<open>
  On the local chain events may be collected and sent in batches, one event per type. An event is a
  \<open>WSEvent\<close> with its type or any other value. Go's map iteration has no fixed order: \<open>shuffle\<close> is the order
  in which the collected events come out.
\<close>

datatype 'd ui_event = WSEvent (ev_Type: string) (ev_Data: 'd) | OtherEvent 'd

record 'd ThrottledHub =
  th_Hub :: "'d ui_event Hub"
  throttleInterval :: duration
  aggregateEvents :: "'d ui_event list"
  lastBroadcast :: time
  totalEvents :: u64
  droppedEvents :: u64
  aggregatedBatches :: u64

definition NewThrottledHub :: "time \<Rightarrow> duration \<Rightarrow> 'd ThrottledHub" where
  "NewThrottledHub now interval =
     \<lparr>th_Hub = NewHub, throttleInterval = (if interval > 200 * millisecond then 200 * millisecond else interval),
      aggregateEvents = [], lastBroadcast = now, totalEvents = 0, droppedEvents = 0, aggregatedBatches = 0\<rparr>"

fun getEventType :: "'d ui_event \<Rightarrow> string" where
  "getEventType (WSEvent ty d) = ty"
| "getEventType (OtherEvent d) = ''unknown''"

definition shouldImmediateBroadcast :: "string \<Rightarrow> bool" where
  "shouldImmediateBroadcast ty \<longleftrightarrow> ty \<in> {''system_healing'', ''engine_panic'', ''linearity_status'', ''lazy_status''}"

definition smartAggregate :: "'d ui_event list \<Rightarrow> 'd ui_event list" where
  "smartAggregate events = map snd (fold (\<lambda>e m. AList.update (getEventType e) e m) events [])"

text \<open>A blocked client loses the message here, and stays connected.\<close>

fun push_all :: "string \<Rightarrow> nat list \<Rightarrow> 'd ThrottledHub \<Rightarrow> 'd ThrottledHub go" where
  "push_all m [] th = Ret th"
| "push_all m (c # cs) th =
     (if send_closed (conns (th_Hub th) ! c) then Panic
      else case chan_try_send m (cl_send (conns (th_Hub th) ! c)) of
             (ch, True) \<Rightarrow> push_all m cs (th\<lparr>th_Hub := upd_client c (cl_send_update (\<lambda>_. ch)) (th_Hub th)\<rparr>)
           | (_, False) \<Rightarrow> push_all m cs (th\<lparr>droppedEvents := droppedEvents th + 1\<rparr>))"

fun push_events :: "('d ui_event \<Rightarrow> string option) \<Rightarrow> 'd ui_event list \<Rightarrow> 'd ThrottledHub \<Rightarrow> 'd ThrottledHub go" where
  "push_events marshal [] th = Ret th"
| "push_events marshal (e # es) th =
     (case marshal e of
        None \<Rightarrow> push_events marshal es th
      | Some m \<Rightarrow> go_bind (push_all m (clients (th_Hub th)) th) (push_events marshal es))"

definition flushAggregatedEvents ::
    "('d ui_event \<Rightarrow> string option) \<Rightarrow> ('d ui_event list \<Rightarrow> 'd ui_event list) \<Rightarrow> time \<Rightarrow> 'd ThrottledHub \<Rightarrow> 'd ThrottledHub go" where
  "flushAggregatedEvents marshal shuffle now th =
     (if aggregateEvents th = [] then Ret th
      else go_bind (push_events marshal (shuffle (smartAggregate (aggregateEvents th))) (th\<lparr>aggregatedBatches := aggregatedBatches th + 1\<rparr>))
             (\<lambda>th1. Ret (th1\<lparr>aggregateEvents := [], lastBroadcast := now\<rparr>)))"

text \<open>The buffer is allocated with room for 1000 events and never grows beyond it.\<close>

definition BroadcastWithThrottle ::
    "('d ui_event \<Rightarrow> string option) \<Rightarrow> ('d ui_event list \<Rightarrow> 'd ui_event list) \<Rightarrow> time \<Rightarrow> 'd ui_event \<Rightarrow> 'd ThrottledHub
      \<Rightarrow> 'd ThrottledHub go" where
  "BroadcastWithThrottle marshal shuffle now event th =
     (let th1 = th\<lparr>totalEvents := totalEvents th + 1\<rparr>
      in if shouldImmediateBroadcast (getEventType event) then Ret (th1\<lparr>th_Hub := Broadcast event (th_Hub th1)\<rparr>)
         else (let th2 = th1\<lparr>aggregateEvents := aggregateEvents th1 @ [event]\<rparr>
               in if length (aggregateEvents th2) \<ge> 1000 then flushAggregatedEvents marshal shuffle now th2 else Ret th2))"

text \<open>A batch holds the newest event of every type and nothing else.\<close>

lemma smartAggregate_newest:
  "map_of (map (\<lambda>e. (getEventType e, e)) (smartAggregate events)) = (\<lambda>ty. find (\<lambda>e. getEventType e = ty) (rev events))
   \<and> distinct (map getEventType (smartAggregate events))"
proof -
  let ?m = "fold (\<lambda>e m. AList.update (getEventType e) e m)"
  have "map_of (?m events []) = (\<lambda>ty. find (\<lambda>e. getEventType e = ty) (rev events)) \<and> distinct (map fst (?m events []))
      \<and> (\<forall>(k, e) \<in> set (?m events []). k = getEventType e)"
  proof (induction events rule: rev_induct)
    case (snoc e es)
    then show ?case
      using set_AList_update [of "getEventType e" e "?m es []"] by (fastforce simp: update_conv' distinct_update fun_eq_iff)
  qed simp
  moreover from this have "map (\<lambda>e. (getEventType e, e)) (smartAggregate events) = ?m events []"
    by (auto simp: smartAggregate_def intro!: map_idI)
  ultimately show ?thesis by (metis (no_types, lifting) comp_def fst_conv list.map_comp map_eq_conv)
qed

text \<open>Collecting never panics beside the hub's own steps, and fewer than 1000 events are pending after a call.\<close>

lemma wired_push:
  assumes "wired h" and "c \<in> set (clients h)" and "chan_try_send m (cl_send (conns h ! c)) = (ch, ok)"
  shows "wired (upd_client c (cl_send_update (\<lambda>_. ch)) h)"
  using assms chan_try_send_wf [of "cl_send (conns h ! c)" m]
  by (auto simp: wired_def upd_client_def nth_list_update chan_try_send_def split: if_splits)

lemma push_all_wired:
  "wired (th_Hub th) \<Longrightarrow> set cs \<subseteq> set (clients (th_Hub th)) \<Longrightarrow> \<exists>th'. push_all m cs th = Ret th' \<and> wired (th_Hub th')"
proof (induction cs arbitrary: th)
  case (Cons c cs)
  have open': "\<not> send_closed (conns (th_Hub th) ! c)" using Cons.prems by (auto simp: wired_def)
  obtain ch ok where t: "chan_try_send m (cl_send (conns (th_Hub th) ! c)) = (ch, ok)" by fastforce
  have w: "wired (upd_client c (cl_send_update (\<lambda>_. ch)) (th_Hub th))" using Cons.prems t by (intro wired_push) auto
  show ?case
  proof (cases ok)
    case True
    with Cons.IH [of "th\<lparr>th_Hub := upd_client c (cl_send_update (\<lambda>_. ch)) (th_Hub th)\<rparr>"] Cons.prems(2) w open' t
    show ?thesis by (simp add: upd_client_def)
  next
    case False
    with Cons.IH [of "th\<lparr>droppedEvents := droppedEvents th + 1\<rparr>"] Cons.prems open' t show ?thesis by simp
  qed
qed simp

lemma push_events_wired: "wired (th_Hub th) \<Longrightarrow> \<exists>th'. push_events marshal es th = Ret th' \<and> wired (th_Hub th')"
proof (induction es arbitrary: th)
  case (Cons e es)
  show ?case
  proof (cases "marshal e")
    case (Some m)
    from push_all_wired [OF Cons.prems order_refl] obtain th'
      where "push_all m (clients (th_Hub th)) th = Ret th'" "wired (th_Hub th')" by blast
    with Some Cons.IH show ?thesis by simp
  qed (use Cons in simp)
qed simp

lemma throttle_bounded:
  assumes "wired (th_Hub th)" and "length (aggregateEvents th) < 1000"
  shows "\<exists>th'. BroadcastWithThrottle marshal shuffle now e th = Ret th' \<and> wired (th_Hub th') \<and> length (aggregateEvents th') < 1000"
proof -
  have "wired (Broadcast e (th_Hub th))" using assms(1) by (simp add: wired_def Broadcast_def)
  moreover have "\<exists>th'. flushAggregatedEvents marshal shuffle now q = Ret th' \<and> wired (th_Hub th') \<and> aggregateEvents th' = []"
    if "wired (th_Hub q)" for q
    using push_events_wired [of "q\<lparr>aggregatedBatches := aggregatedBatches q + 1\<rparr>" marshal] that
    by (fastforce simp: flushAggregatedEvents_def)
  from this [of "th\<lparr>totalEvents := totalEvents th + 1, aggregateEvents := aggregateEvents th @ [e]\<rparr>"] have
    "\<exists>th'. flushAggregatedEvents marshal shuffle now (th\<lparr>totalEvents := totalEvents th + 1, aggregateEvents := aggregateEvents th @ [e]\<rparr>)
      = Ret th' \<and> wired (th_Hub th') \<and> aggregateEvents th' = []" using assms(1) by simp
  ultimately show ?thesis using assms by (auto simp: BroadcastWithThrottle_def Let_def)
qed

end
