(* ===== verification/Emulator.thy ===== *)
theory Emulator
  imports Chain_Data Go_Utils
begin

section \<open>The traffic emulator (internal/emulator)\<close>

text \<open>
  The emulator deploys a token contract on the local chain and sends transfers to it. Its nonce
  manager keeps the next nonce of the account, so that transactions need no round trip for it.

  \<^item> Everything a node answers during one transaction is a record \<open>send_env\<close>: the calls of \<open>ethclient\<close>, the
    random source and the signer are not part of the repository.
  \<^item> The mutex of the nonce manager is left out, since every operation holds it throughout.
  \<^item> Addresses and call data are lists of bytes; the safety margin is kept as the \<open>uint64\<close> it is converted to.
  \<^item> A failed balance check before a transaction is only logged.
\<close>

type_synonym byte_list = "8 word list"

subsection \<open>The nonce manager (nonce\_manager.go)\<close>

record NonceManager =
  pendingNonce :: u64

definition NewNonceManager :: "go_error + u64 \<Rightarrow> go_error + NonceManager" where
  "NewNonceManager answer =
     (case answer of
        Inl e \<Rightarrow> Inl (Wrapped ''failed to get initial nonce'' e)
      | Inr n \<Rightarrow> Inr \<lparr>pendingNonce = n\<rparr>)"

definition GetNextNonce :: "go_error + u64 \<Rightarrow> NonceManager \<Rightarrow> u64 \<times> NonceManager" where
  "GetNextNonce answer nm =
     (let n = (if pendingNonce nm mod 50 = 0
               then (case answer of Inr c \<Rightarrow> if c > pendingNonce nm then c else pendingNonce nm | Inl _ \<Rightarrow> pendingNonce nm)
               else pendingNonce nm)
      in (n, \<lparr>pendingNonce = n + 1\<rparr>))"

definition RollbackNonce :: "u64 \<Rightarrow> NonceManager \<Rightarrow> NonceManager" where
  "RollbackNonce failedNonce nm = (if failedNonce < pendingNonce nm then \<lparr>pendingNonce = failedNonce\<rparr> else nm)"

definition ResyncNonce :: "go_error + u64 \<Rightarrow> NonceManager \<Rightarrow> NonceManager \<times> go_error option" where
  "ResyncNonce answer nm = (case answer of Inl e \<Rightarrow> (nm, Some e) | Inr n \<Rightarrow> (\<lparr>pendingNonce = n\<rparr>, None))"

subsection \<open>Transactions\<close>

record Transaction =
  tx_nonce :: u64
  tx_to :: "byte_list option"
  tx_gas :: u64
  tx_gas_price :: int
  tx_data :: byte_list

record EmulatorMetrics =
  m_Sent :: u64
  m_Confirmed :: u64
  m_Failed :: u64
  m_SelfHealed :: u64

record Emulator =
  emu_nm :: NonceManager
  emu_contract :: byte_list
  emu_Metrics :: EmulatorMetrics
  maxGasPrice :: int
  gasSafetyMargin :: u64
  txInterval :: duration

definition NewEmulator :: "go_error + NonceManager \<Rightarrow> (Emulator \<Rightarrow> Emulator) list \<Rightarrow> go_error + Emulator" where
  "NewEmulator nm opts =
     map_sum id (\<lambda>n. fold id opts
       \<lparr>emu_nm = n, emu_contract = replicate 20 0, emu_Metrics = \<lparr>m_Sent = 0, m_Confirmed = 0, m_Failed = 0, m_SelfHealed = 0\<rparr>,
        maxGasPrice = 500, gasSafetyMargin = 20, txInterval = 5 * second\<rparr>) nm"

definition WithTxInterval :: "duration \<Rightarrow> Emulator \<Rightarrow> Emulator" where
  "WithTxInterval d e = (if d > 0 then e\<lparr>txInterval := d\<rparr> else e)"

record send_env =
  se_balance :: "go_error + int"
  se_topup :: "go_error option"
  se_chain_nonce :: "go_error + u64"
  se_gas_price :: "go_error + int"
  se_random :: "go_error + nat"
  se_target :: "go_error + byte_list"
  se_estimate :: "go_error + u64"
  se_sign :: "go_error option"
  se_send :: "go_error option"
  se_resync :: "go_error + u64"

text \<open>Below 50 ether the account is topped up; the result says whether the node was asked to.\<close>

definition ensureBalance :: "send_env \<Rightarrow> bool \<times> go_error option" where
  "ensureBalance E =
     (case se_balance E of
        Inl e \<Rightarrow> (False, Some e)
      | Inr b \<Rightarrow>
          if b < 50 * 10 ^ 18 then (True, map_option (Wrapped ''auto_topup_failed'') (se_topup E)) else (False, None))"

definition cap_gas_price :: "int \<Rightarrow> int \<Rightarrow> int" where
  "cap_gas_price maxGwei p = (let maxPrice = maxGwei * 10 ^ 9 in if p > maxPrice then maxPrice else p)"

text \<open>The estimate with its margin, in \<open>uint64\<close> arithmetic, or the default when there is none.\<close>

definition gas_limit :: "u64 \<Rightarrow> u64 \<Rightarrow> go_error + u64 \<Rightarrow> u64" where
  "gas_limit margin dflt est = (case est of Inl _ \<Rightarrow> dflt | Inr g \<Rightarrow> g + g * margin div 100)"

text \<open>The bytes of a number without leading zeros, and padding to the left.\<close>

fun big_bytes :: "nat \<Rightarrow> byte_list" where
  "big_bytes n = (if n = 0 then [] else big_bytes (n div 256) @ [of_nat (n mod 256)])"

definition LeftPadBytes :: "byte_list \<Rightarrow> nat \<Rightarrow> byte_list" where
  "LeftPadBytes b l = replicate (l - length b) 0 @ b"

definition transfer_data :: "byte_list \<Rightarrow> nat \<Rightarrow> byte_list" where
  "transfer_data target amount = [0xa9, 0x05, 0x9c, 0xbb] @ LeftPadBytes target 32 @ LeftPadBytes (big_bytes amount) 32"

declare big_bytes.simps [simp del]

subsection \<open>Sending (emulator\_transfer.go)\<close>

definition bump :: "((u64 \<Rightarrow> u64) \<Rightarrow> EmulatorMetrics \<Rightarrow> EmulatorMetrics) \<Rightarrow> Emulator \<Rightarrow> Emulator" where
  "bump upd e = e\<lparr>emu_Metrics := upd (\<lambda>n. n + 1) (emu_Metrics e)\<rparr>"

definition nonce_error :: "go_error \<Rightarrow> bool" where
  "nonce_error err \<longleftrightarrow> contains (error_text err) ''nonce too low'' \<or> contains (error_text err) ''already known''"

text \<open>One transfer; the second result is the transaction the node has accepted.\<close>

definition sendTransfer :: "send_env \<Rightarrow> Emulator \<Rightarrow> Emulator \<times> Transaction option" where
  "sendTransfer E e =
     (let (nonce, nm1) = GetNextNonce (se_chain_nonce E) (emu_nm e);
          e1 = e\<lparr>emu_nm := nm1\<rparr>
      in case (se_gas_price E, se_random E, se_target E) of
           (Inr p, Inr r, Inr target) \<Rightarrow>
             (let tx = \<lparr>tx_nonce = nonce, tx_to = Some (emu_contract e), tx_gas = gas_limit (gasSafetyMargin e) 100000 (se_estimate E),
                        tx_gas_price = cap_gas_price (maxGasPrice e) p, tx_data = transfer_data target (r + 1)\<rparr>
              in case se_sign E of
                   Some _ \<Rightarrow> (bump m_Failed_update e1, None)
                 | None \<Rightarrow>
                     (case se_send E of
                        None \<Rightarrow> (bump m_Sent_update e1, Some tx)
                      | Some err \<Rightarrow>
                          (let e2 = bump m_Failed_update e1
                           in if nonce_error err
                              then ((bump m_SelfHealed_update e2)\<lparr>emu_nm := fst (ResyncNonce (se_resync E) nm1)\<rparr>, None)
                              else (e2\<lparr>emu_nm := RollbackNonce nonce nm1\<rparr>, None))))
         | _ \<Rightarrow> (e1, None))"

fun sendTransfers :: "send_env list \<Rightarrow> Emulator \<Rightarrow> Emulator \<times> Transaction list" where
  "sendTransfers [] e = (e, [])"
| "sendTransfers (E # Es) e =
     (let (e1, tx) = sendTransfer E e;
          (e2, txs) = sendTransfers Es e1
      in (e2, (case tx of None \<Rightarrow> [] | Some t \<Rightarrow> [t]) @ txs))"

text \<open>The polling of a receipt: the context fires, or a tick with the node's answer and whether the deadline has passed.\<close>

datatype 'r wait_tick = WaitCancelled go_error | WaitTick "go_error + 'r" bool

fun waitForReceipt :: "'r wait_tick list \<Rightarrow> (go_error + 'r) option" where
  "waitForReceipt [] = None"
| "waitForReceipt (WaitCancelled e # _) = Some (Inl e)"
| "waitForReceipt (WaitTick (Inr r) _ # _) = Some (Inr r)"
| "waitForReceipt (WaitTick (Inl _) late # ts) = (if late then Some (Inl (OtherError ''timeout'')) else waitForReceipt ts)"

text \<open>The goroutine started after a transfer counts the confirmation.\<close>

definition confirm :: "'r wait_tick list \<Rightarrow> Emulator \<Rightarrow> Emulator" where
  "confirm ts e = (case waitForReceipt ts of Some (Inr _) \<Rightarrow> bump m_Confirmed_update e | _ \<Rightarrow> e)"

subsection \<open>Deployment and the main loop (emulator\_main.go)\<close>

text \<open>\<open>bytecode\<close> is the constant of emulator\_core.go; the receipt carries the contract's address.\<close>

definition deployContract ::
    "byte_list \<Rightarrow> send_env \<Rightarrow> byte_list wait_tick list \<Rightarrow> Emulator \<Rightarrow> Emulator \<times> (go_error + byte_list) option \<times> Transaction option" where
  "deployContract bytecode E ts e =
     (let (nonce, nm1) = GetNextNonce (se_chain_nonce E) (emu_nm e);
          e1 = e\<lparr>emu_nm := nm1\<rparr>
      in case se_gas_price E of
           Inl err \<Rightarrow> (e1, Some (Inl err), None)
         | Inr p \<Rightarrow>
             (let tx = \<lparr>tx_nonce = nonce, tx_to = None, tx_gas = gas_limit (gasSafetyMargin e) 1500000 (se_estimate E),
                        tx_gas_price = cap_gas_price (maxGasPrice e) p, tx_data = bytecode\<rparr>
              in case se_sign E of
                   Some err \<Rightarrow> (e1, Some (Inl err), None)
                 | None \<Rightarrow>
                     (case se_send E of
                        Some err \<Rightarrow> (e1\<lparr>emu_nm := fst (ResyncNonce (se_resync E) nm1)\<rparr>, Some (Inl err), None)
                      | None \<Rightarrow> (e1, waitForReceipt ts, Some tx))))"

text \<open>\<open>announce\<close> is the error when the context fires before the contract's address is taken.\<close>

definition Emulator_Start ::
    "byte_list \<Rightarrow> send_env \<Rightarrow> byte_list wait_tick list \<Rightarrow> go_error option \<Rightarrow> send_env list \<Rightarrow> Emulator
      \<Rightarrow> Emulator \<times> Transaction list \<times> go_error option" where
  "Emulator_Start bytecode D ts announce Es e =
     (case deployContract bytecode D ts e of
        (e1, None, tx) \<Rightarrow> (e1, (case tx of None \<Rightarrow> [] | Some t \<Rightarrow> [t]), None)
      | (e1, Some (Inl err), tx) \<Rightarrow> (e1, (case tx of None \<Rightarrow> [] | Some t \<Rightarrow> [t]), Some err)
      | (e1, Some (Inr addr), tx) \<Rightarrow>
          (let e2 = e1\<lparr>emu_contract := addr\<rparr>
           in case announce of
                Some err \<Rightarrow> (e2, (case tx of None \<Rightarrow> [] | Some t \<Rightarrow> [t]), Some err)
              | None \<Rightarrow> (let (e3, txs) = sendTransfers Es e2 in (e3, (case tx of None \<Rightarrow> [] | Some t \<Rightarrow> [t]) @ txs, None))))"

subsection \<open>The call data\<close>

definition bytes_nat :: "byte_list \<Rightarrow> nat" where
  "bytes_nat bs = foldl (\<lambda>a b. a * 256 + unat b) 0 bs"

lemma bytes_nat_big_bytes: "bytes_nat (big_bytes n) = n"
proof (induction n rule: big_bytes.induct)
  case (1 n)
  have "unat (of_nat (n mod 256) :: 8 word) = n mod 256" by (simp add: unat_of_nat)
  with 1 show ?case by (simp add: big_bytes.simps [of n] bytes_nat_def)
qed

lemma bytes_nat_pad: "bytes_nat (LeftPadBytes b l) = bytes_nat b"
proof -
  have "foldl (\<lambda>a b. a * 256 + unat (b :: 8 word)) 0 (replicate k 0) = 0" for k by (induction k) simp_all
  then show ?thesis by (simp add: bytes_nat_def LeftPadBytes_def)
qed

lemma length_big_bytes: "n < 256 ^ k \<Longrightarrow> length (big_bytes n) \<le> k"
proof (induction k arbitrary: n)
  case (Suc k)
  then have "length (big_bytes (n div 256)) \<le> k" by (simp add: less_mult_imp_div_less mult.commute)
  then show ?case by (simp add: big_bytes.simps [of n])
qed (simp add: big_bytes.simps)

text \<open>The call data has the form of a token transfer: 68 bytes that decode to recipient and amount.\<close>

lemma transfer_data_decodes:
  assumes "length target = 20" and "amount < 256 ^ 32"
  shows "length (transfer_data target amount) = 68 \<and> drop 16 (take 36 (transfer_data target amount)) = target
    \<and> bytes_nat (drop 36 (transfer_data target amount)) = amount"
proof -
  have l: "length (LeftPadBytes (big_bytes amount) 32) = 32" "length (LeftPadBytes target 32) = 32"
    using length_big_bytes [OF assms(2)] assms(1) by (simp_all add: LeftPadBytes_def)
  have "drop 36 (transfer_data target amount) = LeftPadBytes (big_bytes amount) 32" using l by (simp add: transfer_data_def)
  moreover have "take 36 (transfer_data target amount) = [0xa9, 0x05, 0x9c, 0xbb] @ replicate 12 0 @ target"
    using l assms(1) by (simp add: transfer_data_def LeftPadBytes_def)
  ultimately show ?thesis using l by (simp add: transfer_data_def bytes_nat_pad bytes_nat_big_bytes)
qed

lemma receipt_wait_ends:
  "(\<exists>t \<in> set ts. case t of WaitCancelled _ \<Rightarrow> True | WaitTick _ late \<Rightarrow> late) \<Longrightarrow> waitForReceipt ts \<noteq> None"
  by (induction ts rule: waitForReceipt.induct) auto

subsection \<open>Nonces\<close>

text \<open>
  A node that sees only this account's sender: its pending nonce is \<open>n\<close> plus the number of
  transactions it has accepted since, and it answers everything up to the send itself.
\<close>

fun steady_node :: "u64 \<Rightarrow> send_env list \<Rightarrow> bool" where
  "steady_node n [] \<longleftrightarrow> True"
| "steady_node n (E # Es) \<longleftrightarrow>
     (case se_chain_nonce E of Inl _ \<Rightarrow> True | Inr c \<Rightarrow> c = n)
     \<and> \<not> isl (se_gas_price E) \<and> \<not> isl (se_random E) \<and> \<not> isl (se_target E) \<and> se_sign E = None
     \<and> (case se_send E of None \<Rightarrow> True | Some err \<Rightarrow> nonce_error err \<longrightarrow> se_resync E = Inr n)
     \<and> steady_node (if se_send E = None then n + 1 else n) Es"

lemma GetNextNonce_in_step:
  "(case a of Inl _ \<Rightarrow> True | Inr c \<Rightarrow> c \<le> pendingNonce nm) \<Longrightarrow> GetNextNonce a nm = (pendingNonce nm, \<lparr>pendingNonce = pendingNonce nm + 1\<rparr>)"
  by (auto simp: GetNextNonce_def Let_def split: sum.splits)

lemma u64_Suc: "unat (n :: u64) + 1 < 2 ^ 64 \<Longrightarrow> unat (n + 1) = unat n + 1"
  using unat_add_lem [of n 1] by simp

lemma u64_less_Suc: "unat (n :: u64) + 1 < 2 ^ 64 \<Longrightarrow> n < n + 1"
  using u64_Suc [of n] by (simp add: word_less_nat_alt)

lemma send_steady:
  assumes "steady_node n (E # Es)" and "pendingNonce (emu_nm e) = n" and "unat n + 1 < 2 ^ 64"
  obtains e' tx where "sendTransfer E e = (e', tx)" "(tx = None) = (se_send E \<noteq> None)" "\<forall>t. tx = Some t \<longrightarrow> tx_nonce t = n"
    "pendingNonce (emu_nm e') = (if se_send E = None then n + 1 else n)"
proof -
  have "n < n + 1" using assms(3) by (rule u64_less_Suc)
  then have rb: "RollbackNonce n \<lparr>pendingNonce = n + 1\<rparr> = \<lparr>pendingNonce = n\<rparr>" by (simp add: RollbackNonce_def)
  have "GetNextNonce (se_chain_nonce E) (emu_nm e) = (n, \<lparr>pendingNonce = n + 1\<rparr>)"
    using GetNextNonce_in_step [of "emu_nm e" "se_chain_nonce E"] assms(1,2) by (auto split: sum.splits)
  with assms(1) rb show ?thesis
    by (intro that [of "fst (sendTransfer E e)" "snd (sendTransfer E e)"])
      (auto simp: sendTransfer_def bump_def ResyncNonce_def Let_def split: sum.splits option.splits)
qed

lemma sends_steady:
  assumes "steady_node n Es" and "pendingNonce (emu_nm e) = n" and "unat n + length Es < 2 ^ 64" and "sendTransfers Es e = (e', txs)"
  shows "map tx_nonce txs = map (\<lambda>i. n + of_nat i) [0..<length txs] \<and> pendingNonce (emu_nm e') = n + of_nat (length txs)
    \<and> length txs = length (filter (\<lambda>E. se_send E = None) Es)"
  using assms
proof (induction Es arbitrary: n e txs)
  case (Cons E Es)
  have b: "unat n + 1 < 2 ^ 64" using Cons.prems(3) by simp
  from send_steady [OF Cons.prems(1,2) b] obtain e1 tx where e1: "sendTransfer E e = (e1, tx)"
    "(tx = None) = (se_send E \<noteq> None)" "\<forall>t. tx = Some t \<longrightarrow> tx_nonce t = n"
    "pendingNonce (emu_nm e1) = (if se_send E = None then n + 1 else n)" by blast
  obtain txs1 where txs1: "sendTransfers Es e1 = (e', txs1)" "txs = (case tx of None \<Rightarrow> [] | Some t \<Rightarrow> [t]) @ txs1"
    using Cons.prems(4) e1(1) by (auto split: prod.splits)
  have "unat (if se_send E = None then n + 1 else n) + length Es < 2 ^ 64"
    using Cons.prems(3) u64_Suc [OF b] by simp
  with Cons.IH [OF _ e1(4) _ txs1(1)] Cons.prems(1) have
    IH: "map tx_nonce txs1 = map (\<lambda>i. (if se_send E = None then n + 1 else n) + of_nat i) [0..<length txs1]"
      "pendingNonce (emu_nm e') = (if se_send E = None then n + 1 else n) + of_nat (length txs1)"
      "length txs1 = length (filter (\<lambda>E. se_send E = None) Es)" by simp_all
  show ?case
  proof (cases tx)
    case None
    with e1(2) IH txs1(2) show ?thesis by simp
  next
    case (Some t)
    have "map (\<lambda>i. n + of_nat i) [0..<Suc (length txs1)] = n # map (\<lambda>i. n + 1 + of_nat i) [0..<length txs1]"
      by (simp add: upt_conv_Cons map_Suc_upt [symmetric] algebra_simps del: upt_Suc)
    with Some e1(2,3) IH txs1(2) show ?thesis by (simp add: algebra_simps del: upt_Suc)
  qed
qed simp

text \<open>
  (C34) The emulator wastes no nonce: with a node that accepts only this account's transactions and
  answers everything but the sends themselves, whatever sends fail for whatever reason, the accepted
  transactions carry consecutive nonces from the first one on, none left out and none used twice, and
  the next nonce is the one the node expects.
\<close>

theorem accepted_nonces_consecutive:
  assumes "steady_node n Es" and "pendingNonce (emu_nm e) = n" and "unat n + length Es < 2 ^ 64"
  shows "\<exists>e' txs. sendTransfers Es e = (e', txs) \<and> length txs = length (filter (\<lambda>E. se_send E = None) Es)
    \<and> map tx_nonce txs = map (\<lambda>i. n + of_nat i) [0..<length txs] \<and> pendingNonce (emu_nm e') = n + of_nat (length txs)"
  using sends_steady [OF assms] by (metis prod.exhaust)

definition sample_send :: "u64 \<Rightarrow> go_error option \<Rightarrow> send_env" where
  "sample_send n r = \<lparr>se_balance = Inr 0, se_topup = None, se_chain_nonce = Inr n, se_gas_price = Inr 7, se_random = Inr 4,
     se_target = Inr (replicate 20 1), se_estimate = Inr 21000, se_sign = None, se_send = r, se_resync = Inr n\<rparr>"

definition sample_emulator :: "u64 \<Rightarrow> Emulator" where
  "sample_emulator n = \<lparr>emu_nm = \<lparr>pendingNonce = n\<rparr>, emu_contract = replicate 20 0,
     emu_Metrics = \<lparr>m_Sent = 0, m_Confirmed = 0, m_Failed = 0, m_SelfHealed = 0\<rparr>, maxGasPrice = 500, gasSafetyMargin = 20,
     txInterval = 5 * second\<rparr>"

theorem accepted_nonces_consecutive_witness:
  "\<exists>e' txs. sendTransfers [sample_send 50 None, sample_send 51 (Some (OtherError ''nonce too low'')), sample_send 51 (Some ContextCanceled),
      sample_send 51 None] (sample_emulator 50) = (e', txs)
     \<and> length txs = 2 \<and> map tx_nonce txs = map (\<lambda>i. 50 + of_nat i) [0..<length txs] \<and> pendingNonce (emu_nm e') = 50 + of_nat (length txs)"
proof -
  let ?Es = "[sample_send 50 None, sample_send 51 (Some (OtherError ''nonce too low'')), sample_send 51 (Some ContextCanceled),
    sample_send 51 None]"
  have "steady_node 50 ?Es" "pendingNonce (emu_nm (sample_emulator 50)) = 50" "unat (50 :: u64) + length ?Es < 2 ^ 64"
    "length (filter (\<lambda>E. se_send E = None) ?Es) = 2"
    by (simp_all add: sample_send_def sample_emulator_def)
  with accepted_nonces_consecutive [of 50 ?Es "sample_emulator 50"] show ?thesis by metis
qed

text \<open>
  A nonce taken before an early return is lost: when the gas price, the random source or the signer
  fails, \<open>sendTransfer\<close> returns without a rollback. From then on every accepted transaction carries a
  larger nonce than the one the node waits for, and the comparison with the chain repairs only the
  opposite drift.
\<close>

lemma lost_nonce_step:
  assumes "isl (se_gas_price E)"
    and "case se_chain_nonce E of Inl _ \<Rightarrow> True | Inr c \<Rightarrow> c \<le> pendingNonce (emu_nm e)"
  shows "\<exists>e'. sendTransfer E e = (e', None) \<and> pendingNonce (emu_nm e') = pendingNonce (emu_nm e) + 1"
  using assms by (auto simp: sendTransfer_def GetNextNonce_in_step isl_def Let_def split: sum.splits)

lemma lost_nonce_never_sent:
  assumes "n < pendingNonce (emu_nm e)" and "unat (pendingNonce (emu_nm e)) + length Es < 2 ^ 64"
    and "\<forall>E \<in> set Es. (case se_chain_nonce E of Inl _ \<Rightarrow> True | Inr c \<Rightarrow> c = n) \<and> se_send E = None"
    and "sendTransfers Es e = (e', txs)"
  shows "n < pendingNonce (emu_nm e') \<and> (\<forall>t \<in> set txs. n < tx_nonce t)"
  using assms
proof (induction Es arbitrary: e txs)
  case (Cons E Es)
  let ?p = "pendingNonce (emu_nm e)"
  obtain e1 tx where e1: "sendTransfer E e = (e1, tx)" by fastforce
  obtain txs1 where txs1: "sendTransfers Es e1 = (e', txs1)" "txs = (case tx of None \<Rightarrow> [] | Some t \<Rightarrow> [t]) @ txs1"
    using Cons.prems(4) e1 by (auto split: prod.splits)
  have g: "GetNextNonce (se_chain_nonce E) (emu_nm e) = (?p, \<lparr>pendingNonce = ?p + 1\<rparr>)"
    using Cons.prems(1,3) by (intro GetNextNonce_in_step) (auto split: sum.splits)
  have b: "unat ?p + 1 < 2 ^ 64" using Cons.prems(2) by simp
  have s: "pendingNonce (emu_nm e1) = ?p + 1" "\<forall>t. tx = Some t \<longrightarrow> tx_nonce t = ?p"
    using e1 g by (auto simp: sendTransfer_def bump_def Let_def Cons.prems(3) split: sum.splits option.splits)
  have "n < pendingNonce (emu_nm e1)" "unat (pendingNonce (emu_nm e1)) + length Es < 2 ^ 64"
    using s(1) u64_less_Suc [OF b] u64_Suc [OF b] Cons.prems(1,2) by simp_all
  with Cons.IH [OF _ _ _ txs1(1)] Cons.prems(1,3) txs1(2) s(2) show ?case by (cases tx) auto
qed simp

end
