(* ===== verification/Schema.thy ===== *)
theory Schema
  imports Async_Writer
begin

section \<open>The database schema (internal/database/schema.go)\<close>

text \<open>
  \<open>InitSchema\<close> creates the tables at every start. A schema is the tables with their columns and
  unique keys; a statement is accepted if its table has the columns it names and, for an \<open>ON CONFLICT\<close>
  clause, a unique key on exactly these columns. A statement the server rejects aborts its
  transaction. Types, defaults and the plain indices decide nothing here and are left out.
\<close>

record table =
  t_columns :: "string list"
  t_keys :: "string list list"

type_synonym schema = "(string \<times> table) list"

definition has_column :: "schema \<Rightarrow> string \<Rightarrow> string \<Rightarrow> bool" where
  "has_column sch t c = (case map_of sch t of None \<Rightarrow> False | Some tab \<Rightarrow> c \<in> set (t_columns tab))"

text \<open>\<open>CREATE TABLE IF NOT EXISTS\<close> and \<open>ALTER TABLE ... ADD COLUMN IF NOT EXISTS\<close>.\<close>

definition create_table :: "string \<times> table \<Rightarrow> schema \<Rightarrow> schema" where
  "create_table nt sch = (if map_of sch (fst nt) = None then sch @ [nt] else sch)"

definition add_column :: "string \<times> string \<Rightarrow> schema \<Rightarrow> schema" where
  "add_column tc sch =
     (case map_of sch (fst tc) of
        None \<Rightarrow> sch
      | Some tab \<Rightarrow> if snd tc \<in> set (t_columns tab) then sch
                    else AList.update (fst tc) (tab\<lparr>t_columns := t_columns tab @ [snd tc]\<rparr>) sch)"

definition core_tables :: "(string \<times> table) list" where
  "core_tables =
     [(''blocks'', \<lparr>t_columns = [''number'', ''hash'', ''parent_hash'', ''timestamp'', ''gas_limit'', ''gas_used'',
          ''base_fee_per_gas'', ''transaction_count'', ''processed_at''], t_keys = [[''number'']]\<rparr>),
      (''transfers'', \<lparr>t_columns = [''id'', ''block_number'', ''tx_hash'', ''log_index'', ''from_address'', ''to_address'',
          ''amount'', ''token_address'', ''symbol'', ''activity_type'', ''created_at''], t_keys = [[''id'']]\<rparr>),
      (''token_metadata'', \<lparr>t_columns = [''address'', ''symbol'', ''decimals'', ''name'', ''is_verified'', ''updated_at''],
          t_keys = [[''address'']]\<rparr>),
      (''sync_checkpoints'', \<lparr>t_columns = [''chain_id'', ''last_synced_block'', ''updated_at''], t_keys = [[''chain_id'']]\<rparr>),
      (''sync_status'', \<lparr>t_columns = [''chain_id'', ''last_processed_block'', ''last_processed_timestamp'', ''rpc_provider'',
          ''status'', ''error_message''], t_keys = [[''chain_id'']]\<rparr>),
      (''visitor_stats'', \<lparr>t_columns = [''id'', ''ip_address'', ''user_agent'', ''visit_timestamp'', ''metadata''],
          t_keys = [[''id'']]\<rparr>)]"

definition schema_patches :: "(string \<times> string) list" where
  "schema_patches = [(''sync_status'', ''last_processed_block''), (''sync_status'', ''last_processed_timestamp''),
     (''transfers'', ''activity_type'')]"

text \<open>A patch that fails is only logged; \<open>exec_err\<close> is the error of the statement that creates the tables.\<close>

definition InitSchema :: "go_error option \<Rightarrow> schema \<Rightarrow> schema \<times> go_error option" where
  "InitSchema exec_err sch =
     (case exec_err of
        Some e \<Rightarrow> (sch, Some (Wrapped ''failed to initialize database schema'' e))
      | None \<Rightarrow> (fold add_column schema_patches (fold create_table core_tables sch), None))"

subsection \<open>The statements of the writer's transaction\<close>

record stmt =
  s_table :: string
  s_columns :: "string list"
  s_conflict :: "string list"

definition accepts :: "schema \<Rightarrow> stmt \<Rightarrow> bool" where
  "accepts sch st =
     (case map_of sch (s_table st) of
        None \<Rightarrow> False
      | Some tab \<Rightarrow> set (s_columns st) \<subseteq> set (t_columns tab) \<and> (\<exists>k \<in> set (t_keys tab). set k = set (s_conflict st)))"

definition insert_blocks_stmt :: stmt where
  "insert_blocks_stmt =
     \<lparr>s_table = ''blocks'', s_columns = [''number'', ''hash'', ''parent_hash'', ''timestamp'', ''gas_limit'', ''gas_used'',
        ''base_fee_per_gas'', ''transaction_count''], s_conflict = [''number'']\<rparr>"

definition insert_transfers_stmt :: stmt where
  "insert_transfers_stmt =
     \<lparr>s_table = ''transfers'', s_columns = [''block_number'', ''tx_hash'', ''log_index'', ''from_address'', ''to_address'',
        ''amount'', ''token_address'', ''symbol''], s_conflict = [''block_number'', ''log_index'']\<rparr>"

definition checkpoint_stmt :: stmt where
  "checkpoint_stmt = \<lparr>s_table = ''sync_checkpoints'', s_columns = [''chain_id'', ''last_synced_block'', ''updated_at''],
     s_conflict = [''chain_id'']\<rparr>"

definition status_stmt :: stmt where
  "status_stmt = \<lparr>s_table = ''sync_status'', s_columns = [''chain_id'', ''last_synced_block'', ''latest_block'', ''sync_lag'',
     ''status'', ''last_processed_block'', ''last_processed_timestamp''], s_conflict = [''chain_id'']\<rparr>"

definition writer_stmts :: "PersistTask list \<Rightarrow> stmt list" where
  "writer_stmts batch =
     insert_blocks_stmt # (if concat (map task_Transfers batch) \<noteq> [] then [insert_transfers_stmt] else []) @ [checkpoint_stmt, status_stmt]"

text \<open>The server carries out a transaction only if it accepts all its statements.\<close>

definition serves :: "schema \<Rightarrow> (writer_event \<times> bool) list \<Rightarrow> bool" where
  "serves sch evs \<longleftrightarrow> (\<forall>(e, up) \<in> set evs. up \<longrightarrow> (\<exists>batch. list_all (accepts sch) (writer_stmts batch)))"

subsection \<open>What the start-up repairs\<close>

lemma map_of_create_table:
  "map_of (create_table nt sch) t = (case map_of sch t of Some tab \<Rightarrow> Some tab | None \<Rightarrow> if t = fst nt then Some (snd nt) else None)"
  by (cases nt) (auto simp: create_table_def map_add_def split: option.splits)

lemma has_column_create_table:
  "has_column (create_table nt sch) t c \<longleftrightarrow> has_column sch t c \<or> (map_of sch t = None \<and> t = fst nt \<and> c \<in> set (t_columns (snd nt)))"
  by (auto simp: has_column_def map_of_create_table split: option.splits)

lemma has_column_add_column:
  "has_column (add_column tc sch) t c \<longleftrightarrow> has_column sch t c \<or> (map_of sch t \<noteq> None \<and> tc = (t, c))"
  by (cases tc) (auto simp: has_column_def add_column_def update_conv' split: option.splits)

lemma fold_create_tables:
  "has_column (fold create_table nts sch) t c
    \<Longrightarrow> has_column sch t c \<or> (\<exists>nt \<in> set nts. t = fst nt \<and> c \<in> set (t_columns (snd nt)))"
  by (induction nts arbitrary: sch) (fastforce simp: has_column_create_table)+

lemma fold_add_columns: "has_column (fold add_column tcs sch) t c \<Longrightarrow> has_column sch t c \<or> (t, c) \<in> set tcs"
  by (induction tcs arbitrary: sch) (fastforce simp: has_column_add_column)+

lemma InitSchema_columns:
  assumes "has_column (fst (InitSchema err sch)) t c"
  shows "has_column sch t c \<or> (\<exists>nt \<in> set core_tables. t = fst nt \<and> c \<in> set (t_columns (snd nt))) \<or> (t, c) \<in> set schema_patches"
  using assms by (auto simp: InitSchema_def dest!: fold_add_columns fold_create_tables split: option.splits)

lemma InitSchema_sync_lag: "has_column (fst (InitSchema err sch)) ''sync_status'' ''sync_lag'' \<longleftrightarrow> has_column sch ''sync_status'' ''sync_lag''"
proof
  assume "has_column (fst (InitSchema err sch)) ''sync_status'' ''sync_lag''"
  from InitSchema_columns [OF this] show "has_column sch ''sync_status'' ''sync_lag''"
    by (auto simp: core_tables_def schema_patches_def)
next
  have c: "has_column sch t c \<Longrightarrow> has_column (fold create_table nts sch) t c" for sch t c nts
    by (induction nts arbitrary: sch) (simp_all add: has_column_create_table)
  have a: "has_column sch t c \<Longrightarrow> has_column (fold add_column tcs sch) t c" for sch t c tcs
    by (induction tcs arbitrary: sch) (simp_all add: has_column_add_column)
  assume "has_column sch ''sync_status'' ''sync_lag''"
  then show "has_column (fst (InitSchema err sch)) ''sync_status'' ''sync_lag''"
    by (simp add: InitSchema_def a c split: option.splits)
qed

lemma accepted_column: "accepts sch st \<Longrightarrow> c \<in> set (s_columns st) \<Longrightarrow> has_column sch (s_table st) c"
  by (auto simp: accepts_def has_column_def split: option.splits)

text \<open>On an empty database the tables get neither the columns of the status nor the key of the transfers.\<close>

lemma fresh_schema:
  "accepts (fst (InitSchema None [])) insert_blocks_stmt" "accepts (fst (InitSchema None [])) checkpoint_stmt"
  "\<not> accepts (fst (InitSchema None [])) insert_transfers_stmt" "\<not> accepts (fst (InitSchema None [])) status_stmt"
  by code_simp+

subsection \<open>A database without the status columns stores nothing\<close>

definition announced :: "AsyncWriter \<Rightarrow> (MsgType \<times> MsgData) list" where
  "announced w = filter (\<lambda>c. fst c = CmdCommitDisk) (w_cmds w)"

abbreviation stored :: "AsyncWriter \<Rightarrow> db \<times> PersistTask list \<times> (MsgType \<times> MsgData) list \<times> bool" where
  "stored w \<equiv> (w_db w, w_written w, announced w, w_ephemeralMode w)"

lemma down_flush: "\<not> w_ephemeralMode w \<Longrightarrow> flush False batch w = w"
  by (simp add: flush_def)

lemma down_step: "\<not> w_ephemeralMode w \<Longrightarrow> stored (writer_step e False w) = stored w"
  by (cases e) (simp_all add: on_task_def emergencyDrain_def announced_def down_flush Let_def split: list.splits)

lemma down_run: "\<forall>(e, up) \<in> set evs. \<not> up \<Longrightarrow> \<not> w_ephemeralMode w \<Longrightarrow> stored (writer_run evs w) = stored w"
proof (induction evs arbitrary: w)
  case (Cons ev evs)
  obtain e where ev: "ev = (e, False)" using Cons.prems(1) by (cases ev) auto
  have s: "stored (writer_step e False w) = stored w" using Cons.prems(2) by (rule down_step)
  then have "\<not> w_ephemeralMode (writer_step e False w)" using Cons.prems(2) by simp
  with Cons.IH [of "writer_step e False w"] Cons.prems(1) s ev show ?case by (cases "e = WDone") simp_all
qed simp

text \<open>
  (C40) A database that the program has set up itself stores nothing: \<open>InitSchema\<close> neither creates nor adds
  the status columns the writer fills, so unless they were there before, no transaction of the writer is accepted, and
  whatever tasks, ticks and drains follow, the tables, the written tasks and the announced
  heights stay as they are.
\<close>

theorem own_schema_stores_nothing:
  assumes "\<not> has_column sch ''sync_status'' ''sync_lag''" and "serves (fst (InitSchema err sch)) evs" and "\<not> w_ephemeralMode w"
  shows "w_db (writer_run evs w) = w_db w \<and> w_written (writer_run evs w) = w_written w \<and> announced (writer_run evs w) = announced w"
proof -
  have "\<not> accepts (fst (InitSchema err sch)) status_stmt"
  proof
    assume "accepts (fst (InitSchema err sch)) status_stmt"
    from accepted_column [OF this, of "''sync_lag''"] have "has_column (fst (InitSchema err sch)) ''sync_status'' ''sync_lag''"
      by (simp add: status_stmt_def)
    with assms(1) show False by (simp only: InitSchema_sync_lag)
  qed
  then have "\<not> list_all (accepts (fst (InitSchema err sch))) (writer_stmts batch)" for batch by (simp add: writer_stmts_def)
  with assms(2) have "\<forall>(e, up) \<in> set evs. \<not> up" by (simp add: serves_def)
  from down_run [OF this assms(3)] show ?thesis by simp
qed

theorem own_schema_stores_nothing_witness:
  "let w = (NewAsyncWriter empty_db False 31337 9)\<lparr>w_taskChan := \<lparr>items = [sample_task 5], capacity = 10\<rparr>\<rparr>
   in w_written (writer_run [(WTask, False), (WTick, False)] w) = [] \<and> announced (writer_run [(WTask, False), (WTick, False)] w) = []"
proof -
  let ?w = "(NewAsyncWriter empty_db False 31337 9)\<lparr>w_taskChan := \<lparr>items = [sample_task 5], capacity = 10\<rparr>\<rparr>"
  have "\<not> has_column [] ''sync_status'' ''sync_lag''" "serves (fst (InitSchema None [])) [(WTask, False), (WTick, False)]"
    "\<not> w_ephemeralMode ?w"
    by (simp_all add: has_column_def serves_def NewAsyncWriter_def)
  from own_schema_stores_nothing [OF this] show ?thesis by (simp add: announced_def NewAsyncWriter_def)
qed

end
