(* ===== verification/Sinks.thy ===== *)
theory Sinks
  imports Storage Hot_Buffer
begin

section \<open>Data sinks (io\_types.go, sink\_lz4.go, sink\_postgres.go, recorder.go, storage\_guard.go)\<close>

text \<open>
  A sink consumes transfers and blocks: the database, the in-memory pool, a compressed file, a plain recording, or several of
  them through \<open>MultiSink\<close>.

  \<^item> A file is the text written to it. What goes wrong is an argument: \<open>werr i\<close> is the error of the \<open>i\<close>-th write of a
    call, \<open>free\<close> the answer of the file system, \<open>marshal\<close> the JSON text of a value (\<open>None\<close> when encoding fails).
  \<^item> The mutexes of the sinks are left out, since every operation holds them throughout.
\<close>

abbreviation newline :: char where
  "newline \<equiv> CHR 0x0A"

subsection \<open>Free space (storage\_guard.go)\<close>

record Statfs =
  Bavail :: u64
  Bsize :: u64
  Blocks :: u64

text \<open>The percentage of free space; both products are taken modulo \<open>2^64\<close>.\<close>

definition CheckStorageSpace :: "go_error + Statfs \<Rightarrow> go_error + rat" where
  "CheckStorageSpace stat =
     (case stat of
        Inl e \<Rightarrow> Inl e
      | Inr st \<Rightarrow>
          (let free = Bavail st * Bsize st; total = Blocks st * Bsize st in
           if total = 0 then Inr 0 else Inr (of_int (uint free) / of_int (uint total) * 100)))"

subsection \<open>The compressed file (sink\_lz4.go)\<close>

record Lz4Sink =
  lz_text :: string
  lz_suspended :: bool

definition NewLz4Sink :: "go_error option \<Rightarrow> string \<Rightarrow> go_error + Lz4Sink" where
  "NewLz4Sink open_err content = (case open_err of Some e \<Rightarrow> Inl e | None \<Rightarrow> Inr \<lparr>lz_text = content, lz_suspended = False\<rparr>)"

definition checkQuota :: "go_error + rat \<Rightarrow> Lz4Sink \<Rightarrow> Lz4Sink \<times> bool" where
  "checkQuota free s =
     (if lz_suspended s then (s, False)
      else case free of
        Inl e \<Rightarrow> (s, True)
      | Inr f \<Rightarrow> if f < 10 then (s\<lparr>lz_suspended := True\<rparr>, False) else (s, True))"

text \<open>The loop of both write operations; \<open>i\<close> counts the writes of the call.\<close>

fun write_lines :: "('a \<Rightarrow> string option) \<Rightarrow> (nat \<Rightarrow> go_error option) \<Rightarrow> nat \<Rightarrow> 'a list \<Rightarrow> string \<Rightarrow> string \<times> go_error option" where
  "write_lines marshal werr i [] out = (out, None)"
| "write_lines marshal werr i (x # xs) out =
     (case marshal x of
        None \<Rightarrow> write_lines marshal werr i xs out
      | Some data \<Rightarrow>
          (case werr i of
             Some e \<Rightarrow> (out, Some e)
           | None \<Rightarrow>
               (case werr (i + 1) of
                  Some e \<Rightarrow> (out @ data, Some e)
                | None \<Rightarrow> write_lines marshal werr (i + 2) xs (out @ data @ [newline]))))"

definition Lz4_write :: "('a \<Rightarrow> string option) \<Rightarrow> go_error + rat \<Rightarrow> (nat \<Rightarrow> go_error option) \<Rightarrow> go_error option \<Rightarrow> 'a list \<Rightarrow> Lz4Sink \<Rightarrow> Lz4Sink \<times> go_error option" where
  "Lz4_write marshal free werr flush_err xs s =
     (case checkQuota free s of
        (s1, False) \<Rightarrow> (s1, None)
      | (s1, True) \<Rightarrow>
          (case write_lines marshal werr 0 xs (lz_text s1) of
             (out, Some e) \<Rightarrow> (s1\<lparr>lz_text := out\<rparr>, Some e)
           | (out, None) \<Rightarrow> (s1\<lparr>lz_text := out\<rparr>, flush_err)))"

definition Lz4Sink_WriteTransfers :: "(Transfer \<Rightarrow> string option) \<Rightarrow> go_error + rat \<Rightarrow> (nat \<Rightarrow> go_error option) \<Rightarrow> go_error option \<Rightarrow> Transfer list \<Rightarrow> Lz4Sink \<Rightarrow> Lz4Sink \<times> go_error option" where
  "Lz4Sink_WriteTransfers marshal free werr flush_err ts s = Lz4_write marshal free werr flush_err ts s"

definition Lz4Sink_WriteBlocks :: "(Block \<Rightarrow> string option) \<Rightarrow> go_error + rat \<Rightarrow> (nat \<Rightarrow> go_error option) \<Rightarrow> go_error option \<Rightarrow> Block list \<Rightarrow> Lz4Sink \<Rightarrow> Lz4Sink \<times> go_error option" where
  "Lz4Sink_WriteBlocks marshal free werr flush_err bs s = Lz4_write marshal free werr flush_err bs s"

subsection \<open>The recorder (recorder.go)\<close>

record DataRecorder =
  rec_text :: string
  rec_open :: bool

text \<open>A recorder opens its file for appending after it has made sure that the directory exists.\<close>

definition NewDataRecorder :: "go_error option \<Rightarrow> go_error option \<Rightarrow> string \<Rightarrow> go_error + DataRecorder" where
  "NewDataRecorder mkdir_err open_err content =
     (case mkdir_err of
        Some e \<Rightarrow> Inl (Wrapped ''failed_to_create_logs_dir'' e)
      | None \<Rightarrow> (case open_err of Some e \<Rightarrow> Inl e | None \<Rightarrow> Inr \<lparr>rec_text = content, rec_open = True\<rparr>))"

record 'd RecordEntry =
  re_ts :: int
  re_type :: string
  re_data :: 'd

text \<open>A failed write is logged, and the newline is written all the same.\<close>

definition Record_entry :: "('d RecordEntry \<Rightarrow> string option) \<Rightarrow> int \<Rightarrow> bool \<times> bool \<Rightarrow> string \<Rightarrow> 'd \<Rightarrow> DataRecorder option \<Rightarrow> DataRecorder option" where
  "Record_entry marshal now ok entryType d r =
     (case r of
        None \<Rightarrow> None
      | Some rec \<Rightarrow>
          if \<not> rec_open rec then r
          else case marshal \<lparr>re_ts = now, re_type = entryType, re_data = d\<rparr> of
            None \<Rightarrow> r
          | Some out \<Rightarrow> Some (rec\<lparr>rec_text := rec_text rec @ (if fst ok then out else []) @ (if snd ok then [newline] else [])\<rparr>))"

definition Recorder_write :: "('d RecordEntry \<Rightarrow> string option) \<Rightarrow> int \<Rightarrow> bool \<times> bool \<Rightarrow> string \<Rightarrow> 'd list \<Rightarrow> DataRecorder option \<Rightarrow> DataRecorder option \<times> go_error option" where
  "Recorder_write marshal now ok entryType xs r = (fold (Record_entry marshal now ok entryType) xs r, None)"

definition Recorder_WriteTransfers :: "(Transfer RecordEntry \<Rightarrow> string option) \<Rightarrow> int \<Rightarrow> bool \<times> bool \<Rightarrow> Transfer list \<Rightarrow> DataRecorder option \<Rightarrow> DataRecorder option \<times> go_error option" where
  "Recorder_WriteTransfers marshal now ok ts r = Recorder_write marshal now ok ''transfer'' ts r"

definition Recorder_WriteBlocks :: "(Block RecordEntry \<Rightarrow> string option) \<Rightarrow> int \<Rightarrow> bool \<times> bool \<Rightarrow> Block list \<Rightarrow> DataRecorder option \<Rightarrow> DataRecorder option \<times> go_error option" where
  "Recorder_WriteBlocks marshal now ok bs r = Recorder_write marshal now ok ''block'' bs r"

definition Recorder_Close :: "DataRecorder \<Rightarrow> DataRecorder" where
  "Recorder_Close r = r\<lparr>rec_open := False\<rparr>"

subsection \<open>Several sinks (io\_types.go)\<close>

datatype DataSink = PostgresSink db | MemorySink HotBuffer | FileSink Lz4Sink | RecorderSink "DataRecorder option"

text \<open>What the world answers during one write to one sink.\<close>

record sink_env =
  en_db_up :: bool
  en_conn :: "go_error option"
  en_is_pgx :: bool
  en_free :: "go_error + rat"
  en_werr :: "nat \<Rightarrow> go_error option"
  en_flush :: "go_error option"
  en_now :: int
  en_ok :: "bool \<times> bool"
  en_json_t :: "Transfer \<Rightarrow> string option"
  en_json_b :: "Block \<Rightarrow> string option"
  en_json_rt :: "Transfer RecordEntry \<Rightarrow> string option"
  en_json_rb :: "Block RecordEntry \<Rightarrow> string option"

fun sink_transfers :: "sink_env \<Rightarrow> Transfer list \<Rightarrow> DataSink \<Rightarrow> DataSink \<times> go_error option" where
  "sink_transfers E ts (PostgresSink d) = map_prod PostgresSink id (PostgresSink_WriteTransfers (en_db_up E) ts d)"
| "sink_transfers E ts (MemorySink h) = (MemorySink (WriteTransfers ts h), None)"
| "sink_transfers E ts (FileSink s) = map_prod FileSink id (Lz4Sink_WriteTransfers (en_json_t E) (en_free E) (en_werr E) (en_flush E) ts s)"
| "sink_transfers E ts (RecorderSink r) = map_prod RecorderSink id (Recorder_WriteTransfers (en_json_rt E) (en_now E) (en_ok E) ts r)"

fun sink_blocks :: "sink_env \<Rightarrow> Block list \<Rightarrow> DataSink \<Rightarrow> DataSink \<times> go_error option" where
  "sink_blocks E bs (PostgresSink d) = map_prod PostgresSink id (PostgresSink_WriteBlocks (en_conn E) (en_is_pgx E) bs d)"
| "sink_blocks E bs (MemorySink h) = (MemorySink (WriteBlocks bs h), None)"
| "sink_blocks E bs (FileSink s) = map_prod FileSink id (Lz4Sink_WriteBlocks (en_json_b E) (en_free E) (en_werr E) (en_flush E) bs s)"
| "sink_blocks E bs (RecorderSink r) = map_prod RecorderSink id (Recorder_WriteBlocks (en_json_rb E) (en_now E) (en_ok E) bs r)"

text \<open>An error of one sink is logged and the loop goes on with the next.\<close>

fun MultiSink_WriteTransfers :: "Transfer list \<Rightarrow> (sink_env \<times> DataSink) list \<Rightarrow> DataSink list \<times> go_error option" where
  "MultiSink_WriteTransfers ts [] = ([], None)"
| "MultiSink_WriteTransfers ts ((E, s) # rest) =
     (case sink_transfers E ts s of (s1, err) \<Rightarrow>
        (case MultiSink_WriteTransfers ts rest of (rest1, e) \<Rightarrow> (s1 # rest1, e)))"

fun MultiSink_WriteBlocks :: "Block list \<Rightarrow> (sink_env \<times> DataSink) list \<Rightarrow> DataSink list \<times> go_error option" where
  "MultiSink_WriteBlocks bs [] = ([], None)"
| "MultiSink_WriteBlocks bs ((E, s) # rest) =
     (case sink_blocks E bs s of (s1, err) \<Rightarrow>
        (case MultiSink_WriteBlocks bs rest of (rest1, e) \<Rightarrow> (s1 # rest1, e)))"

lemma multi_sink_isolates:
  "MultiSink_WriteTransfers ts ess = (map (\<lambda>(E, s). fst (sink_transfers E ts s)) ess, None)"
  "MultiSink_WriteBlocks bs ess = (map (\<lambda>(E, s). fst (sink_blocks E bs s)) ess, None)"
  by (induction ess) (auto split: prod.splits)

subsection \<open>Files are sequences of lines\<close>

text \<open>Reading a file line by line, as a scanner does.\<close>

fun split_lines :: "string \<Rightarrow> string \<Rightarrow> string list" where
  "split_lines cur [] = (if cur = [] then [] else [cur])"
| "split_lines cur (c # cs) = (if c = newline then cur # split_lines [] cs else split_lines (cur @ [c]) cs)"

definition file_lines :: "string \<Rightarrow> string list" where
  "file_lines out = split_lines [] out"

lemma split_lines_plain: "newline \<notin> set xs \<Longrightarrow> split_lines cur (xs @ newline # ys) = (cur @ xs) # split_lines [] ys"
  by (induction xs arbitrary: cur) auto

definition lines_text :: "string list \<Rightarrow> string" where
  "lines_text ls = concat (map (\<lambda>l. l @ [newline]) ls)"

lemma lines_text_simps [simp]:
  "lines_text [] = []" "lines_text (l # ls) = l @ newline # lines_text ls" "lines_text (as @ bs) = lines_text as @ lines_text bs"
  by (simp_all add: lines_text_def)

lemma file_lines_text: "\<forall>l \<in> set ls. newline \<notin> set l \<Longrightarrow> file_lines (lines_text ls) = ls"
  by (induction ls) (simp_all add: file_lines_def split_lines_plain)

lemma write_lines_ok:
  "\<forall>i. werr i = None \<Longrightarrow> write_lines marshal werr i xs out = (out @ lines_text (List.map_filter marshal xs), None)"
  by (induction xs arbitrary: i out) (auto split: option.splits)

lemma recorder_fold:
  assumes "rec_open r"
  shows "fold (Record_entry marshal now (True, True) ty) xs (Some r)
    = Some (r\<lparr>rec_text := rec_text r @ lines_text (List.map_filter (\<lambda>x. marshal \<lparr>re_ts = now, re_type = ty, re_data = x\<rparr>) xs)\<rparr>)"
  using assms
  by (induction xs arbitrary: r) (auto simp: Record_entry_def split: option.splits)

text \<open>
  What is recorded can be read back: while disk space is free and writes succeed, the compressed file and the recording
  grow by one line per value that could be encoded, in order, provided that an encoding has no line break.
\<close>

lemma recording_lines:
  assumes "\<forall>l \<in> set ls. newline \<notin> set l" and "\<And>x l. marshal x = Some l \<Longrightarrow> newline \<notin> set l"
  shows "lz_text s = lines_text ls \<Longrightarrow> \<not> lz_suspended s \<Longrightarrow> 10 \<le> f \<Longrightarrow>
      file_lines (lz_text (fst (Lz4_write marshal (Inr f) (\<lambda>_. None) None xs s))) = ls @ List.map_filter marshal xs"
    and "rec_text r = lines_text ls \<Longrightarrow> rec_open r \<Longrightarrow> marshal = (\<lambda>x. m \<lparr>re_ts = now, re_type = ty, re_data = x\<rparr>) \<Longrightarrow>
      file_lines (rec_text (the (fst (Recorder_write m now (True, True) ty xs (Some r))))) = ls @ List.map_filter marshal xs"
proof -
  have "\<forall>l \<in> set (ls @ List.map_filter marshal xs). newline \<notin> set l"
    using assms by (auto simp: List.map_filter_def)
  note lines = file_lines_text [OF this]
  show "file_lines (lz_text (fst (Lz4_write marshal (Inr f) (\<lambda>_. None) None xs s))) = ls @ List.map_filter marshal xs"
    if "lz_text s = lines_text ls" "\<not> lz_suspended s" "10 \<le> f"
    using that lines by (simp add: Lz4_write_def checkQuota_def write_lines_ok)
  show "file_lines (rec_text (the (fst (Recorder_write m now (True, True) ty xs (Some r))))) = ls @ List.map_filter marshal xs"
    if "rec_text r = lines_text ls" "rec_open r" "marshal = (\<lambda>x. m \<lparr>re_ts = now, re_type = ty, re_data = x\<rparr>)"
    using that lines by (simp add: Recorder_write_def recorder_fold)
qed

text \<open>Once suspended for lack of space, a compressed file never grows again, whatever space is freed.\<close>

lemma suspended_forever: "lz_suspended s \<Longrightarrow> Lz4_write marshal free werr flush_err xs s = (s, None)"
  by (simp add: Lz4_write_def checkQuota_def)

subsection \<open>The database sink is idempotent\<close>

lemma insert_transfer_present: "insert_transfer r d = Inr d' \<Longrightarrow> tr_key ` set (db_transfers d') = insert (tr_key r) (tr_key ` set (db_transfers d))"
  by (auto simp: insert_transfer_def split: if_splits)

lemma insert_rows_present:
  "insert_transfer_rows rs d = Inr d' \<Longrightarrow> tr_key ` set (db_transfers d') = tr_key ` set rs \<union> tr_key ` set (db_transfers d)"
  by (induction rs arbitrary: d) (auto dest!: insert_transfer_present split: sum.splits)

lemma insert_rows_again: "tr_key ` set rs \<subseteq> tr_key ` set (db_transfers d) \<Longrightarrow> insert_transfer_rows rs d = Inr d"
  by (induction rs) (auto simp: insert_transfer_def)

lemma postgres_sink_idempotent:
  assumes "PostgresSink_WriteTransfers True ts d = (d', None)"
  shows "PostgresSink_WriteTransfers True ts d' = (d', None)"
proof (cases "ts = []")
  case False
  then have "insert_transfer_rows (map typed_row ts) d = Inr d'"
    using assms by (auto simp: PostgresSink_WriteTransfers_def split: sum.splits)
  from insert_rows_present [OF this] have "insert_transfer_rows (map typed_row ts) d' = Inr d'"
    by (intro insert_rows_again) auto
  then show ?thesis by (simp add: PostgresSink_WriteTransfers_def)
qed (use assms in \<open>simp add: PostgresSink_WriteTransfers_def\<close>)

end
