(* ===== verification/Checkpoint_Service.thy ===== *)
theory Checkpoint_Service
  imports Orchestrator Storage
begin

section \<open>The checkpoint service (internal/engine/checkpoint\_service.go)\<close>

text \<open>
  The service is meant to dump the coordinator's state every \<open>interval\<close> blocks and to restore it at the next
  start. Serialisation, file writing and the search for files are stubs of the source, and are modelled as they are.

  \<^item> The directory is the list of its files; the file system's answers are arguments.
  \<^item> \<open>atomicSave\<close> runs in its own goroutine; it only changes \<open>latestCheckpoint\<close> and the directory, which
    no other operation of the run loop reads, so it is taken at once.
\<close>

record Checkpoint =
  cp_Height :: u64
  cp_Timestamp :: time
  cp_State :: CoordinatorState
  cp_Version :: string

record CheckpointService =
  cs_savePath :: string
  cs_interval :: u64
  cs_maxSnapshots :: int
  cs_latestCheckpoint :: "Checkpoint option"
  cs_lastSaveHeight :: u64
  cs_dir :: "(string \<times> Checkpoint) list"

definition NewCheckpointService :: "string \<Rightarrow> u64 \<Rightarrow> int \<Rightarrow> (string \<times> Checkpoint) list \<Rightarrow> CheckpointService" where
  "NewCheckpointService path ival maxS dir =
     \<lparr>cs_savePath = path, cs_interval = ival, cs_maxSnapshots = maxS, cs_latestCheckpoint = None, cs_lastSaveHeight = 0, cs_dir = dir\<rparr>"

subsection \<open>Saving\<close>

definition serializeCheckpoint :: "Checkpoint \<Rightarrow> go_error + 8 word list" where
  "serializeCheckpoint cp = Inl (OtherError ''serialization not implemented'')"

definition writeFile :: "string \<Rightarrow> Checkpoint \<Rightarrow> CheckpointService \<Rightarrow> CheckpointService \<times> go_error option" where
  "writeFile path cp s = (s, None)"

definition rename_file :: "string \<Rightarrow> string \<Rightarrow> CheckpointService \<Rightarrow> CheckpointService \<times> go_error option" where
  "rename_file old new s =
     (case map_of (cs_dir s) old of
        None \<Rightarrow> (s, Some (OtherError ''no such file or directory''))
      | Some cp \<Rightarrow> (s\<lparr>cs_dir := AList.update new cp (AList.delete old (cs_dir s))\<rparr>, None))"

definition cleanupOldSnapshots :: "CheckpointService \<Rightarrow> CheckpointService" where
  "cleanupOldSnapshots s = s"

definition checkpoint_file :: "string \<Rightarrow> u64 \<Rightarrow> CheckpointService \<Rightarrow> string" where
  "checkpoint_file prefix h s = cs_savePath s @ ''/'' @ prefix @ big_string (uint h)"

definition atomicSave :: "Checkpoint \<Rightarrow> CheckpointService \<Rightarrow> CheckpointService" where
  "atomicSave cp s =
     (case serializeCheckpoint cp of
        Inl e \<Rightarrow> s
      | Inr data \<Rightarrow>
          (let tempFile = checkpoint_file ''temp.ckp.'' (cp_Height cp) s in
           case writeFile tempFile cp s of
             (s1, Some e) \<Rightarrow> s1
           | (s1, None) \<Rightarrow>
               (case rename_file tempFile (checkpoint_file ''checkpoint.ckp.'' (cp_Height cp) s) s1 of
                  (s2, Some e) \<Rightarrow> s2\<lparr>cs_dir := AList.delete tempFile (cs_dir s2)\<rparr>
                | (s2, None) \<Rightarrow> cleanupOldSnapshots (s2\<lparr>cs_latestCheckpoint := Some cp\<rparr>))))"

text \<open>The snapshot is read twice: for the height by the caller and again here, from the coordinator \<open>o2\<close> of that moment.\<close>

definition CreateSnapshot :: "time \<Rightarrow> Orchestrator \<Rightarrow> u64 \<Rightarrow> CheckpointService \<Rightarrow> CheckpointService" where
  "CreateSnapshot now o2 currentHeight s =
     (let st = GetSnapshot o2 in
      if SyncedCursor st < currentHeight then s
      else (atomicSave \<lparr>cp_Height = SyncedCursor st, cp_Timestamp = now, cp_State = st, cp_Version = ''1.0''\<rparr> s)
             \<lparr>cs_lastSaveHeight := currentHeight\<rparr>)"

definition maybeCreateCheckpoint :: "time \<Rightarrow> Orchestrator \<Rightarrow> Orchestrator \<Rightarrow> CheckpointService \<Rightarrow> CheckpointService" where
  "maybeCreateCheckpoint now o1 o2 s =
     (let currentHeight = SyncedCursor (GetSnapshot o1) in
      if currentHeight < cs_lastSaveHeight s + cs_interval s then s else CreateSnapshot now o2 currentHeight s)"

text \<open>The run loop over the ticks of its timer.\<close>

fun checkpoint_run :: "(time \<times> Orchestrator \<times> Orchestrator) list \<Rightarrow> CheckpointService \<Rightarrow> CheckpointService" where
  "checkpoint_run [] s = s"
| "checkpoint_run ((now, o1, o2) # ticks) s = checkpoint_run ticks (maybeCreateCheckpoint now o1 o2 s)"

subsection \<open>Loading\<close>

definition findLatestValidCheckpoint :: "CheckpointService \<Rightarrow> go_error + Checkpoint" where
  "findLatestValidCheckpoint s = Inl (OtherError ''no checkpoint found'')"

definition verifyChecksum :: "Checkpoint \<Rightarrow> go_error option" where
  "verifyChecksum cp = None"

text \<open>\<open>SELECT MAX(number)\<close> of an empty table is NULL, which cannot be read into a string.\<close>

definition verifyDatabaseConsistency :: "db \<Rightarrow> Checkpoint \<Rightarrow> go_error option" where
  "verifyDatabaseConsistency d cp =
     (if db_blocks d = [] then Some (OtherError ''converting NULL to string is unsupported'')
      else if cp_Height cp > word_of_int (GetMaxStoredBlock d)
      then Some (OtherError ''checkpoint height exceeds database max block'') else None)"

definition LoadLatestCheckpoint :: "db \<Rightarrow> CheckpointService \<Rightarrow> Orchestrator \<Rightarrow> CheckpointService \<times> Orchestrator \<times> go_error option" where
  "LoadLatestCheckpoint d s o' =
     (case findLatestValidCheckpoint s of
        Inl e \<Rightarrow> (s, o', Some e)
      | Inr cp \<Rightarrow>
          (case verifyChecksum cp of
             Some e \<Rightarrow> (s, o', Some (Wrapped ''checksum verification failed'' e))
           | None \<Rightarrow>
               (case verifyDatabaseConsistency d cp of
                  Some e \<Rightarrow> (s, o', Some (Wrapped ''database consistency check failed'' e))
                | None \<Rightarrow> (s\<lparr>cs_latestCheckpoint := Some cp, cs_lastSaveHeight := cp_Height cp\<rparr>, RestoreState (cp_State cp) o', None))))"

text \<open>\<open>Start\<close> with the ticks that follow; an error of the load is only logged.\<close>

definition CheckpointService_Start :: "go_error option \<Rightarrow> db \<Rightarrow> (time \<times> Orchestrator \<times> Orchestrator) list \<Rightarrow> CheckpointService \<Rightarrow> Orchestrator
    \<Rightarrow> CheckpointService \<times> Orchestrator" where
  "CheckpointService_Start mkdir_err d ticks s o' =
     (case mkdir_err of
        Some e \<Rightarrow> (s, o')
      | None \<Rightarrow> (case LoadLatestCheckpoint d s o' of (s1, o1, err) \<Rightarrow> (checkpoint_run ticks s1, o1)))"

definition EnableNVMeOptimization :: "CheckpointService \<Rightarrow> CheckpointService" where
  "EnableNVMeOptimization s = s\<lparr>cs_interval := 10000, cs_maxSnapshots := 10\<rparr>"

definition checkpoint_metrics :: "CheckpointService \<Rightarrow> u64 \<times> u64" where
  "checkpoint_metrics s = ((case cs_latestCheckpoint s of None \<Rightarrow> 0 | Some cp \<Rightarrow> cp_Height cp), cs_lastSaveHeight s)"

subsection \<open>Nothing is ever saved\<close>

lemma atomicSave_nothing [simp]: "atomicSave cp s = s"
  by (simp add: atomicSave_def serializeCheckpoint_def)

lemma checkpoint_run_nothing:
  "cs_dir (checkpoint_run ticks s) = cs_dir s \<and> cs_latestCheckpoint (checkpoint_run ticks s) = cs_latestCheckpoint s
    \<and> cs_interval (checkpoint_run ticks s) = cs_interval s"
  by (induction ticks s rule: checkpoint_run.induct) (simp_all add: maybeCreateCheckpoint_def CreateSnapshot_def Let_def)

text \<open>
  The service never writes a file, never holds and never restores a checkpoint, whatever is in its directory; the
  \<open>latest_height\<close> of its metrics stays 0 while \<open>last_save_height\<close> reports a height as saved.
\<close>

lemma checkpoints_never_saved:
  "\<exists>s'. CheckpointService_Start mkdir_err d ticks (NewCheckpointService path ival maxS dir) o' = (s', o')
    \<and> cs_dir s' = dir \<and> cs_latestCheckpoint s' = None \<and> fst (checkpoint_metrics s') = 0"
  using checkpoint_run_nothing [of ticks "NewCheckpointService path ival maxS dir"]
  by (simp add: CheckpointService_Start_def LoadLatestCheckpoint_def findLatestValidCheckpoint_def checkpoint_metrics_def
      NewCheckpointService_def split: option.splits)

lemma tick_reports_saved:
  assumes "o1 = o2" and "cs_lastSaveHeight s + cs_interval s \<le> SyncedCursor (GetSnapshot o1)"
  shows "snd (checkpoint_metrics (maybeCreateCheckpoint now o1 o2 s)) = SyncedCursor (GetSnapshot o1)"
  using assms by (simp add: maybeCreateCheckpoint_def CreateSnapshot_def checkpoint_metrics_def Let_def)
    (simp add: leD)

text \<open>Two attempts are at least an interval apart, as long as the sum does not wrap around.\<close>

lemma attempts_spaced:
  assumes "uint (cs_lastSaveHeight s) + uint (cs_interval s) < 2 ^ 64"
    and "cs_lastSaveHeight (maybeCreateCheckpoint now o1 o2 s) \<noteq> cs_lastSaveHeight s"
  shows "uint (cs_lastSaveHeight s) + uint (cs_interval s) \<le> uint (cs_lastSaveHeight (maybeCreateCheckpoint now o1 o2 s))"
proof -
  have "uint (cs_lastSaveHeight s + cs_interval s) = uint (cs_lastSaveHeight s) + uint (cs_interval s)"
    using assms(1) by (simp add: uint_plus_if')
  then show ?thesis
    using assms(2) by (auto simp: maybeCreateCheckpoint_def CreateSnapshot_def Let_def word_less_def split: if_splits)
qed

end
