(* ===== verification/Wss_Listener.thy ===== *)
theory Wss_Listener
  imports Prelude
begin

section \<open>The listener for new heads (internal/engine/wss\_listener.go)\<close>

text \<open>
  The listener subscribes to new heads over a WebSocket and passes their numbers on; after a failure it waits with an
  exponential back-off and subscribes again on the same client.

  \<^item> The goroutine of \<open>listenNewHeads\<close> is a step function over what it meets: a subscription attempt at the head of
    the outer loop, then what its inner \<open>select\<close> receives. \<open>phase\<close> is the place in the code.
  \<^item> The waits of the two back-offs end by the timer or by the context. The send on the bounded channel
    blocks: a header arrives while there is room, or the stop channel ends the wait.
  \<^item> \<open>jitter\<close> is the random number of \<open>mrand.Float64\<close>; floating-point values are exact rationals.
\<close>

datatype phase = Subscribing | Listening | Ended

datatype waited = Elapsed | Cancelled

record WSSListener =
  newBlocks :: "int chan"
  connected :: bool
  reconnectCount :: nat
  maxReconnects :: int
  baseBackoff :: duration
  maxBackoff :: duration
  phase :: phase

definition NewWSSListener :: "go_error option \<Rightarrow> string \<Rightarrow> go_error + WSSListener" where
  "NewWSSListener dial_err wssURL =
     (if wssURL = [] then Inl (OtherError ''WSS URL is required'')
      else case dial_err of
        Some e \<Rightarrow> Inl (Wrapped ''failed to connect to WSS'' e)
      | None \<Rightarrow> Inr \<lparr>newBlocks = chan_make 10, connected = True, reconnectCount = 0, maxReconnects = 0,
                      baseBackoff = second, maxBackoff = 60 * second, phase = Subscribing\<rparr>)"

definition calculateBackoff :: "rat \<Rightarrow> WSSListener \<Rightarrow> duration" where
  "calculateBackoff jitter w =
     (let e = of_int (baseBackoff w) * 2 ^ reconnectCount w;
          e1 = (if e > of_int (maxBackoff w) then of_int (maxBackoff w) else e)
      in \<lfloor>e1 * (1 + (jitter * (1 / 2) - 1 / 4))\<rfloor>)"

definition handleReconnect :: "waited \<Rightarrow> WSSListener \<Rightarrow> WSSListener" where
  "handleReconnect wt w = (case wt of Cancelled \<Rightarrow> w | Elapsed \<Rightarrow> w\<lparr>reconnectCount := reconnectCount w + 1\<rparr>)"

definition setConnected :: "bool \<Rightarrow> WSSListener \<Rightarrow> WSSListener" where
  "setConnected b w = w\<lparr>connected := b\<rparr>"

text \<open>One round of the outer loop: \<open>sub_ok\<close> says whether the subscription succeeds.\<close>

definition subscribe_round :: "bool \<Rightarrow> waited \<Rightarrow> WSSListener \<Rightarrow> WSSListener" where
  "subscribe_round sub_ok wt w =
     (if maxReconnects w > 0 \<and> int (reconnectCount w) \<ge> maxReconnects w then (setConnected False w)\<lparr>phase := Ended\<rparr>
      else if \<not> sub_ok then handleReconnect wt w
      else (setConnected True w)\<lparr>reconnectCount := 0, phase := Listening\<rparr>)"

datatype wss_event =
    Attempt bool waited
  | InnerDone
  | Header "int option"
  | HeaderStopped
  | SubError waited
  | Consume

fun listen_step :: "wss_event \<Rightarrow> WSSListener \<Rightarrow> WSSListener option" where
  "listen_step (Attempt ok wt) w = (if phase w = Subscribing then Some (subscribe_round ok wt w) else None)"
| "listen_step InnerDone w = (if phase w = Listening then Some (w\<lparr>phase := Ended\<rparr>) else None)"
| "listen_step (Header h) w =
     (if phase w \<noteq> Listening then None
      else case h of
        None \<Rightarrow> Some w
      | Some n \<Rightarrow> (case chan_try_send n (newBlocks w) of (c, True) \<Rightarrow> Some (w\<lparr>newBlocks := c\<rparr>) | (c, False) \<Rightarrow> None))"
| "listen_step HeaderStopped w = (if phase w = Listening then Some (w\<lparr>phase := Ended\<rparr>) else None)"
| "listen_step (SubError wt) w =
     (if phase w \<noteq> Listening then None
      else case wt of
        Cancelled \<Rightarrow> Some ((setConnected False w)\<lparr>phase := Ended\<rparr>)
      | Elapsed \<Rightarrow> Some ((setConnected False w)\<lparr>reconnectCount := reconnectCount w + 1, phase := Subscribing\<rparr>))"
| "listen_step Consume w =
     (case items (newBlocks w) of [] \<Rightarrow> None | n # ns \<Rightarrow> Some (w\<lparr>newBlocks := (newBlocks w)\<lparr>items := ns\<rparr>\<rparr>))"

text \<open>A run with the numbers its consumer has received.\<close>

fun listen_run :: "wss_event list \<Rightarrow> WSSListener \<times> int list \<Rightarrow> (WSSListener \<times> int list) option" where
  "listen_run [] x = Some x"
| "listen_run (e # es) (w, got) =
     (case listen_step e w of
        None \<Rightarrow> None
      | Some w' \<Rightarrow> listen_run es (w', if e = Consume then got @ [hd (items (newBlocks w))] else got))"

subsection \<open>Back-off\<close>

text \<open>The wait is within a quarter of the capped exponential, so never more than 75 seconds by default.\<close>

lemma backoff_bounds:
  assumes "0 \<le> jitter" "jitter < 1" "0 \<le> baseBackoff w" "0 \<le> maxBackoff w"
  shows "0 \<le> calculateBackoff jitter w \<and> calculateBackoff jitter w \<le> maxBackoff w * 5 div 4"
proof -
  define e where "e = (of_int (baseBackoff w) * 2 ^ reconnectCount w :: rat)"
  define e1 where "e1 = (if e > of_int (maxBackoff w) then of_int (maxBackoff w) else e)"
  have b: "calculateBackoff jitter w = \<lfloor>e1 * (1 + (jitter * (1 / 2) - 1 / 4))\<rfloor>"
    by (simp add: calculateBackoff_def e_def e1_def Let_def)
  have e1: "0 \<le> e1" "e1 \<le> of_int (maxBackoff w)" using assms(3,4) by (simp_all add: e_def e1_def)
  have f: "0 \<le> 1 + (jitter * (1 / 2) - 1 / 4)" "1 + (jitter * (1 / 2) - 1 / 4) \<le> 5 / 4" using assms(1,2) by simp_all
  have "e1 * (1 + (jitter * (1 / 2) - 1 / 4)) \<le> of_int (maxBackoff w) * (5 / 4)"
    using e1 f by (intro mult_mono) simp_all
  then have "\<lfloor>e1 * (1 + (jitter * (1 / 2) - 1 / 4))\<rfloor> \<le> \<lfloor>(of_int (maxBackoff w * 5) / of_int 4 :: rat)\<rfloor>"
    by (intro floor_mono) simp
  also have "\<dots> = maxBackoff w * 5 div 4" by (rule floor_divide_of_int_eq)
  finally show ?thesis using e1 f unfolding b by (simp add: mult_nonneg_nonneg)
qed

subsection \<open>Heads arrive in order\<close>

fun head_numbers :: "wss_event list \<Rightarrow> int list" where
  "head_numbers [] = []"
| "head_numbers (Header (Some n) # es) = n # head_numbers es"
| "head_numbers (e # es) = head_numbers es"

text \<open>
  Through every reconnection the consumer gets the numbers of the heads in the order they arrived, none lost
  and none twice; at most ten wait.
\<close>

lemma heads_in_order:
  assumes "listen_run es (w, got) = Some (w', got')" and "chan_len (newBlocks w) \<le> capacity (newBlocks w)"
  shows "got' @ items (newBlocks w') = got @ items (newBlocks w) @ head_numbers es \<and> chan_len (newBlocks w') \<le> capacity (newBlocks w)"
  using assms
proof (induction es arbitrary: w got)
  case (Cons e es)
  obtain w1 where w1: "listen_step e w = Some w1"
    and run: "listen_run es (w1, if e = Consume then got @ [hd (items (newBlocks w))] else got) = Some (w', got')"
    using Cons.prems(1) by (auto split: option.splits)
  have "(if e = Consume then got @ [hd (items (newBlocks w))] else got) @ items (newBlocks w1)
      = got @ items (newBlocks w) @ head_numbers [e]
    \<and> chan_len (newBlocks w1) \<le> capacity (newBlocks w) \<and> capacity (newBlocks w1) = capacity (newBlocks w)"
    using w1 Cons.prems(2)
    by (cases e) (auto simp: subscribe_round_def handleReconnect_def setConnected_def chan_try_send_def chan_len_def
        split: if_splits option.splits waited.splits list.splits)
  moreover have "head_numbers (e # es) = head_numbers [e] @ head_numbers es"
  proof (cases e)
    case (Header h)
    then show ?thesis by (cases h) simp_all
  qed simp_all
  ultimately show ?case using Cons.IH [OF run] by auto
qed simp

subsection \<open>Giving up and being stopped\<close>

lemma subscribe_round_fails:
  assumes "phase w = Subscribing" "maxReconnects w \<le> 0"
  shows "phase (subscribe_round False wt w) = Subscribing \<and> maxReconnects (subscribe_round False wt w) = maxReconnects w"
  using assms by (auto simp: subscribe_round_def handleReconnect_def split: waited.splits)

text \<open>
  The stop channel and the context are only looked at while a subscription exists: once the client is closed, or the
  context has ended, during a reconnection, every attempt fails, and with the default of unlimited attempts the
  goroutine never ends.
\<close>

lemma reconnecting_listener_never_ends:
  assumes "phase w = Subscribing" "maxReconnects w \<le> 0" "listen_run es (w, got) = Some (w', got')"
    and "\<forall>e \<in> set es. \<forall>wt. e \<noteq> Attempt True wt"
  shows "phase w' = Subscribing"
  using assms
proof (induction es arbitrary: w got)
  case (Cons e es)
  obtain w1 got1 where w1: "listen_step e w = Some w1" "listen_run es (w1, got1) = Some (w', got')"
    using Cons.prems(3) by (auto split: option.splits)
  have "phase w1 = Subscribing \<and> maxReconnects w1 = maxReconnects w"
  proof (cases e)
    case (Attempt ok wt)
    then have "\<not> ok" using Cons.prems(4) by auto
    with Attempt w1(1) Cons.prems(1,2) subscribe_round_fails [of w wt] show ?thesis by auto
  qed (use w1(1) Cons.prems(1) in \<open>auto split: list.splits\<close>)
  with Cons.IH [of w1 got1] Cons.prems(2,4) w1(2) show ?case by auto
qed simp

text \<open>With a limit, that many failed attempts in a row are made, and the next round gives up.\<close>

lemma listener_gives_up:
  assumes "phase w = Subscribing" "0 < maxReconnects w" "maxReconnects w = int (reconnectCount w) + int k"
  shows "\<exists>w'. listen_run (replicate k (Attempt False Elapsed) @ [Attempt ok wt]) (w, got) = Some (w', got) \<and> phase w' = Ended \<and> \<not> connected w'"
  using assms
proof (induction k arbitrary: w)
  case 0
  then show ?case by (simp add: subscribe_round_def setConnected_def)
next
  case (Suc k)
  then have "subscribe_round False Elapsed w = w\<lparr>reconnectCount := reconnectCount w + 1\<rparr>"
    by (simp add: subscribe_round_def handleReconnect_def)
  with Suc.IH [of "w\<lparr>reconnectCount := reconnectCount w + 1\<rparr>"] Suc.prems show ?case by simp
qed

end
