(* ===== verification/Indexer_Config.thy ===== *)
theory Indexer_Config
  imports Limiter
begin

section \<open>The live configuration (internal/engine/indexer\_config.go)\<close>

text \<open>
  Parameters that can be changed while the program runs. \<open>Update\<close> validates a new configuration, replaces the old one and calls
  the registered listeners; \<open>cm_calls\<close> records these calls. The environment is a function from variable names to values,
  empty when unset; fractions and rates, \<open>float64\<close> in the code, are exact rationals.
\<close>

record IndexerConfig =
  SyncMode :: string
  RPCQuotaThreshold :: rat
  RPCBalancedThreshold :: rat
  RPCWindowLimit :: int
  RPCWindowDuration :: duration
  MaxRPS :: rat
  IdleTimeout :: duration
  AnomalySensitivity :: rat
  AutoWakeupEvent :: string
  FetcherConcurrency :: int
  BatchSize :: int
  CheckpointBatch :: int
  DemoMode :: bool
  AlwaysActive :: bool

definition DefaultConfig :: IndexerConfig where
  "DefaultConfig =
     \<lparr>SyncMode = ''balanced'', RPCQuotaThreshold = 80 / 100, RPCBalancedThreshold = 50 / 100, RPCWindowLimit = 300,
      RPCWindowDuration = 60 * second, MaxRPS = 15, IdleTimeout = 300 * second, AnomalySensitivity = 1,
      AutoWakeupEvent = ''new_block'', FetcherConcurrency = 4, BatchSize = 50, CheckpointBatch = 100,
      DemoMode = False, AlwaysActive = False\<rparr>"

definition LocalLabConfig :: IndexerConfig where
  "LocalLabConfig =
     DefaultConfig\<lparr>SyncMode := ''aggressive'', RPCWindowLimit := 100000, MaxRPS := 500, IdleTimeout := 1800 * second,
       FetcherConcurrency := 16, BatchSize := 200, CheckpointBatch := 500, AlwaysActive := True\<rparr>"

definition validateConfig :: "IndexerConfig \<Rightarrow> go_error option" where
  "validateConfig cfg =
     (if RPCQuotaThreshold cfg \<le> 0 \<or> RPCQuotaThreshold cfg > 1 then Some (OtherError ''rpc_quota_threshold must be in (0, 1]'')
      else if RPCBalancedThreshold cfg \<le> 0 \<or> RPCBalancedThreshold cfg \<ge> RPCQuotaThreshold cfg
      then Some (OtherError ''rpc_balanced_threshold must be in (0, rpc_quota_threshold)'')
      else if MaxRPS cfg \<le> 0 then Some (OtherError ''max_rps must be > 0'')
      else if RPCWindowLimit cfg \<le> 0 then Some (OtherError ''rpc_window_limit must be > 0'')
      else if FetcherConcurrency cfg \<le> 0 then Some (OtherError ''fetcher_concurrency must be > 0'')
      else if BatchSize cfg \<le> 0 \<or> BatchSize cfg > 2000 then Some (OtherError ''batch_size must be in [1, 2000]'')
      else if SyncMode cfg \<notin> {''aggressive'', ''balanced'', ''eco''} then Some (OtherError ''unknown sync_mode'')
      else None)"

record ConfigManager =
  cm_current :: IndexerConfig
  cm_listeners :: nat
  cm_calls :: "(nat \<times> IndexerConfig) list"

definition NewConfigManager :: "IndexerConfig \<Rightarrow> ConfigManager" where
  "NewConfigManager initial = \<lparr>cm_current = initial, cm_listeners = 0, cm_calls = []\<rparr>"

definition is_local_env :: "(string \<Rightarrow> string) \<Rightarrow> bool" where
  "is_local_env env =
     list_ex (\<lambda>v. env v \<noteq> [] \<and> list_ex (contains (env v)) [''localhost'', ''127.0.0.1'', ''anvil'']) [''RPC_URLS'', ''RPC_URL'', ''DATABASE_URL'']"

definition NewConfigManagerFromEnv :: "(string \<Rightarrow> string) \<Rightarrow> ConfigManager" where
  "NewConfigManagerFromEnv env =
     (let cfg = (if is_local_env env then LocalLabConfig else DefaultConfig);
          cfg1 = (if env ''SYNC_MODE'' \<noteq> [] then cfg\<lparr>SyncMode := env ''SYNC_MODE''\<rparr> else cfg);
          cfg2 = (if env ''ALWAYS_ACTIVE'' = ''true'' then cfg1\<lparr>AlwaysActive := True\<rparr> else cfg1);
          cfg3 = (if env ''DEMO_MODE'' = ''true'' then cfg2\<lparr>DemoMode := True\<rparr> else cfg2)
      in NewConfigManager cfg3)"

definition Config_Get :: "ConfigManager \<Rightarrow> IndexerConfig" where
  "Config_Get cm = cm_current cm"

definition Config_Update :: "IndexerConfig \<Rightarrow> ConfigManager \<Rightarrow> ConfigManager \<times> go_error option" where
  "Config_Update nxt cm =
     (case validateConfig nxt of
        Some e \<Rightarrow> (cm, Some e)
      | None \<Rightarrow> (cm\<lparr>cm_current := nxt, cm_calls := cm_calls cm @ map (\<lambda>i. (i, nxt)) [0..<cm_listeners cm]\<rparr>, None))"

definition OnChange :: "ConfigManager \<Rightarrow> ConfigManager" where
  "OnChange cm = cm\<lparr>cm_listeners := cm_listeners cm + 1\<rparr>"

definition BuildSlidingWindowLimiter :: "ConfigManager \<Rightarrow> SlidingWindowLimiter go" where
  "BuildSlidingWindowLimiter cm =
     (let cfg = Config_Get cm in
      go_bind (NewSlidingWindowLimiter (RPCWindowLimit cfg) (RPCWindowDuration cfg))
        (\<lambda>swl. Ret (SetThresholds (RPCBalancedThreshold cfg) (RPCQuotaThreshold cfg) swl)))"

text \<open>The conversion of the product to \<open>int64\<close> truncates.\<close>

definition AnomalyGapThreshold :: "ConfigManager \<Rightarrow> int" where
  "AnomalyGapThreshold cm =
     (let x = 1000 * AnomalySensitivity (Config_Get cm) in if x < 0 then \<lceil>x\<rceil> else \<lfloor>x\<rfloor>)"

subsection \<open>What a live configuration guarantees\<close>

datatype config_call = CallUpdate IndexerConfig | CallOnChange

fun config_run :: "config_call list \<Rightarrow> ConfigManager \<Rightarrow> ConfigManager" where
  "config_run [] cm = cm"
| "config_run (CallUpdate c # cs) cm = config_run cs (fst (Config_Update c cm))"
| "config_run (CallOnChange # cs) cm = config_run cs (OnChange cm)"

text \<open>The part of the validation the limiter relies on; an environment variable may break the rest.\<close>

definition usable :: "IndexerConfig \<Rightarrow> bool" where
  "usable cfg \<longleftrightarrow> 0 < RPCBalancedThreshold cfg \<and> RPCBalancedThreshold cfg < RPCQuotaThreshold cfg \<and> RPCQuotaThreshold cfg \<le> 1
     \<and> 0 < MaxRPS cfg \<and> 0 < RPCWindowLimit cfg"

lemma valid_usable: "validateConfig cfg = None \<Longrightarrow> usable cfg"
  by (auto simp: validateConfig_def usable_def split: if_splits)

lemma presets_valid: "validateConfig DefaultConfig = None" "validateConfig LocalLabConfig = None"
  by (simp_all add: validateConfig_def DefaultConfig_def LocalLabConfig_def)

lemma env_usable: "usable (cm_current (NewConfigManagerFromEnv env))"
  using presets_valid [THEN valid_usable]
  by (simp add: NewConfigManagerFromEnv_def NewConfigManager_def usable_def Let_def)

lemma config_run_usable: "usable (cm_current cm) \<Longrightarrow> usable (cm_current (config_run cs cm))"
  by (induction cs cm rule: config_run.induct)
    (auto simp: Config_Update_def OnChange_def valid_usable split: option.splits)

lemma Allow_thresholds: "balancedThreshold (fst (Allow t s)) = balancedThreshold s \<and> ecoThreshold (fst (Allow t s)) = ecoThreshold s"
  by (auto simp: Allow_def evict_def record_request_def Let_def split: prod.splits)

lemma admit_run_thresholds:
  "balancedThreshold (fst (admit_run Allow ts s)) = balancedThreshold s \<and> ecoThreshold (fst (admit_run Allow ts s)) = ecoThreshold s"
proof (induction ts arbitrary: s)
  case (Cons t ts)
  obtain s1 ok where a: "Allow t s = (s1, ok)" by fastforce
  with Cons [of s1] Allow_thresholds [of t s] show ?case by (cases "admit_run Allow ts s1") simp
qed simp

lemma usage_thresholds: "balancedThreshold (fst (UsageFraction now s)) = balancedThreshold s \<and> ecoThreshold (fst (UsageFraction now s)) = ecoThreshold s"
  by (simp add: UsageFraction_def evict_def Let_def split: prod.splits)

lemma rps_bounds:
  assumes "balancedThreshold s < ecoThreshold s" "0 < m"
  shows "m / 10 \<le> snd (RecommendedRPS now m s) \<and> snd (RecommendedRPS now m s) \<le> m"
proof -
  obtain s1 fr where u: "UsageFraction now s = (s1, fr)" by fastforce
  let ?b = "balancedThreshold s" and ?e = "ecoThreshold s"
  have th: "balancedThreshold s1 = ?b" "ecoThreshold s1 = ?e" using usage_thresholds [of now s] u by simp_all
  have "1 / 10 \<le> 1 - (fr - ?b) / (?e - ?b) * (90 / 100) \<and> 1 - (fr - ?b) / (?e - ?b) * (90 / 100) \<le> 1" if "?b \<le> fr" "fr < ?e"
  proof -
    have "0 \<le> (fr - ?b) / (?e - ?b)" "(fr - ?b) / (?e - ?b) \<le> 1" using that assms(1) by (simp_all add: divide_le_eq)
    moreover have "1 / 10 \<le> 1 - x * (90 / 100) \<and> 1 - x * (90 / 100) \<le> 1" if "0 \<le> x" "x \<le> 1" for x :: rat
      using that by simp
    ultimately show ?thesis by blast
  qed
  then have "m * (1 / 10) \<le> m * (1 - (fr - ?b) / (?e - ?b) * (90 / 100)) \<and> m * (1 - (fr - ?b) / (?e - ?b) * (90 / 100)) \<le> m * 1"
    if "?b \<le> fr" "fr < ?e" using that assms(2) by (intro conjI mult_left_mono) simp_all
  with assms(2) show ?thesis by (auto simp: RecommendedRPS_def u th not_le)
qed


text \<open>An update is all or nothing: an invalid configuration changes nothing and reaches no listener.\<close>

lemma update_atomic:
  "Config_Update c cm = (cm', err) \<Longrightarrow>
     (if err = None then cm_current cm' = c \<and> validateConfig c = None \<and> map fst (drop (length (cm_calls cm)) (cm_calls cm')) = [0..<cm_listeners cm]
      else cm' = cm)"
  by (auto simp: Config_Update_def comp_def split: option.splits)

text \<open>
  The mode from the environment is not validated, so a manager can start with a mode that its own \<open>Update\<close> refuses, and
  neither the window's length nor the sensitivity are validated at all.
\<close>

lemma env_mode_unchecked: "env ''SYNC_MODE'' = ''turbo'' \<Longrightarrow> validateConfig (cm_current (NewConfigManagerFromEnv env)) \<noteq> None"
  by (auto simp: NewConfigManagerFromEnv_def NewConfigManager_def validateConfig_def Let_def)

end
