(* ===== verification/Http_Api.thy ===== *)
theory Http_Api
  imports Orchestrator Storage Hot_Buffer Activity "HOL-Library.Multiset"
begin

section \<open>The HTTP interface (cmd/indexer/api\_*.go, ui\_projection.go, orchestrator\_api.go, telemetry.go)\<close>

text \<open>
  The handlers turn the coordinator's snapshot, the tables and the pool of recent transfers into answers.

  \<^item> An answer is an error with its status code or the value that is encoded as JSON. Column values appear as their
    text; the serial \<open>id\<close> and \<open>processed_at\<close> are not kept in the tables' model.
  \<^item> A query that fails is an argument. \<open>tps\<close> and \<open>bps\<close> are the readings of the two rate windows (theory \<open>Heights\<close>).
\<close>

datatype 'a http = HttpError int string | HttpOk 'a

subsection \<open>The projection for the dashboard (ui\_projection.go)\<close>

record UIStatusDTO =
  ui_State :: string
  ui_LatestBlock :: string
  ui_LatestIndexed :: string
  ui_TotalBlocks :: int
  ui_TotalTransfers :: int
  ui_MemorySync :: string
  ui_SyncLag :: int
  ui_FetchLag :: int
  ui_SyncProgressPercent :: rat
  ui_FetchProgress :: rat
  ui_TPS :: rat
  ui_BPS :: rat
  ui_Health :: bool
  ui_JobsDepth :: int
  ui_JobsCapacity :: int
  ui_ResultsDepth :: int
  ui_ResultsCapacity :: int
  ui_SafetyBuffer :: u64

definition ui_latest :: "CoordinatorState \<Rightarrow> u64" where
  "ui_latest snap =
     (if LatestHeight snap = 0 then (if FetchedHeight snap > 0 then FetchedHeight snap else SyncedCursor snap) else LatestHeight snap)"

definition ui_state :: "CoordinatorState \<Rightarrow> GlobalState \<Rightarrow> int \<Rightarrow> rat \<Rightarrow> string" where
  "ui_state snap gs syncLag bps =
     (if resultsDepth gs > tdiv (wrap_i32 (pipelineDepth gs * 80)) 100 then ''pressure_limit''
      else if syncLag > 1000 \<and> bps < 1 then ''stalled''
      else SystemState_String (SystemState snap))"

definition percent_of :: "u64 \<Rightarrow> u64 \<Rightarrow> rat" where
  "percent_of a b = (if b > 0 then of_int (uint a) / of_int (uint b) * 100 else 0)"

text \<open>\<open>counted\<close> is the number of stored transfers, \<open>None\<close> without a database or when the query fails.\<close>

definition GetUIStatus :: "rat \<Rightarrow> rat \<Rightarrow> int option \<Rightarrow> GlobalState \<Rightarrow> Orchestrator \<Rightarrow> UIStatusDTO" where
  "GetUIStatus tps bps counted gs o' =
     (let snap = GetSnapshot o'; latest = ui_latest snap;
          allN0 = (case counted of None \<Rightarrow> 0 | Some n \<Rightarrow> n);
          allN = (if allN0 = 0 \<and> TransferCount snap > 0 then wrap_i64 (uint (TransferCount snap)) else allN0);
          lag0 = SafeInt64Diff latest (SyncedCursor snap); syncLag = (if lag0 < 0 then 0 else lag0);
          st = ui_state snap gs syncLag bps; (maxJobs, maxResults, _) = GetCapacity gs
      in \<lparr>ui_State = st, ui_LatestBlock = big_string (uint latest), ui_LatestIndexed = big_string (uint (SyncedCursor snap)),
          ui_TotalBlocks = wrap_i64 (uint (SyncedCursor snap)), ui_TotalTransfers = allN,
          ui_MemorySync = big_string (uint (FetchedHeight snap)), ui_SyncLag = syncLag,
          ui_FetchLag = SafeInt64Diff latest (FetchedHeight snap), ui_SyncProgressPercent = percent_of (SyncedCursor snap) latest,
          ui_FetchProgress = percent_of (FetchedHeight snap) latest, ui_TPS = tps, ui_BPS = bps, ui_Health = (st \<noteq> ''stalled''),
          ui_JobsDepth = jobsQueueDepth gs, ui_JobsCapacity = maxJobs, ui_ResultsDepth = resultsDepth gs,
          ui_ResultsCapacity = maxResults, ui_SafetyBuffer = SafetyBuffer snap\<rparr>)"

text \<open>The diagnostic pulse: the node's height (0 when it cannot be read), whether it differs from the projection, and the distance to the fetched height.\<close>

definition LogPulse :: "go_error + int \<Rightarrow> rat \<Rightarrow> rat \<Rightarrow> GlobalState \<Rightarrow> Orchestrator \<Rightarrow> u64 \<times> bool \<times> int" where
  "LogPulse tip tps bps gs o' =
     (let status = GetUIStatus tps bps None gs o';
          rpcActual = (case tip of Inl _ \<Rightarrow> 0 | Inr n \<Rightarrow> (word_of_int n :: u64));
          diff = (case (SetString10 (ui_LatestBlock status), SetString10 (ui_MemorySync status)) of
                    (Some l, Some m) \<Rightarrow> wrap_i64 (wrap_i64 l - wrap_i64 m) | _ \<Rightarrow> 0)
      in (rpcActual, big_string (uint rpcActual) \<noteq> ui_LatestBlock status, diff))"

subsection \<open>The status map (GetStatus of orchestrator\_api.go)\<close>

record status_map =
  gm_state :: string
  gm_latest_block :: string
  gm_latest_indexed :: string
  gm_fetch_progress :: rat
  gm_sync_lag :: int
  gm_is_healthy :: bool
  gm_rpc_nodes :: "nat \<times> nat"
  gm_jobs_capacity :: nat
  gm_results_capacity :: nat

definition Orchestrator_GetStatus :: "nat \<Rightarrow> nat \<Rightarrow> Orchestrator \<Rightarrow> status_map" where
  "Orchestrator_GetStatus healthy allN o' =
     (let snap = GetSnapshot o'; lag0 = SafeInt64Diff (LatestHeight snap) (SyncedCursor snap);
          progress = percent_of (FetchedHeight snap) (LatestHeight snap)
      in \<lparr>gm_state = SystemState_String (SystemState snap), gm_latest_block = big_string (uint (LatestHeight snap)),
          gm_latest_indexed = big_string (uint (SyncedCursor snap)), gm_fetch_progress = (if progress > 100 then 100 else progress),
          gm_sync_lag = (if lag0 < 0 then 0 else lag0), gm_is_healthy = (healthy > 0), gm_rpc_nodes = (healthy, allN),
          gm_jobs_capacity = (case fetcher o' of None \<Rightarrow> 0 | Some (jobs, _) \<Rightarrow> capacity jobs),
          gm_results_capacity = (case fetcher o' of None \<Rightarrow> 0 | Some (_, r) \<Rightarrow> r)\<rparr>)"

subsection \<open>Lists of blocks and transfers (api\_handlers.go)\<close>

record api_transfer =
  at_block :: string
  at_tx_hash :: string
  at_log_index :: int
  at_from :: string
  at_to :: string
  at_amount :: string
  at_token :: string
  at_symbol :: string
  at_type :: string

text \<open>\<open>ORDER BY number DESC LIMIT n\<close> and \<open>ORDER BY block_number DESC, log_index DESC LIMIT n\<close>.\<close>

definition latest_blocks :: "nat \<Rightarrow> db \<Rightarrow> BlockRow list" where
  "latest_blocks n d = take n (sort_key (\<lambda>r. - br_number r) (db_blocks d))"

definition newer :: "TransferRow \<Rightarrow> TransferRow \<Rightarrow> bool" where
  "newer a b \<longleftrightarrow> tr_block_number a > tr_block_number b \<or> (tr_block_number a = tr_block_number b \<and> tr_log_index a \<ge> tr_log_index b)"

fun insert_newest :: "TransferRow \<Rightarrow> TransferRow list \<Rightarrow> TransferRow list" where
  "insert_newest r [] = [r]"
| "insert_newest r (x # xs) = (if newer r x then r # x # xs else x # insert_newest r xs)"

definition latest_transfers :: "nat \<Rightarrow> db \<Rightarrow> TransferRow list" where
  "latest_transfers n d = take n (foldr insert_newest (db_transfers d) [])"

definition row_transfer :: "TransferRow \<Rightarrow> api_transfer" where
  "row_transfer r =
     \<lparr>at_block = big_string (tr_block_number r), at_tx_hash = tr_tx_hash r, at_log_index = tr_log_index r, at_from = tr_from r,
      at_to = tr_to r, at_amount = tr_amount r, at_token = tr_token r, at_symbol = tr_symbol r, at_type = tr_activity_type r\<rparr>"

definition hot_transfer :: "Transfer \<Rightarrow> api_transfer" where
  "hot_transfer t =
     \<lparr>at_block = big_string (BlockNumber t), at_tx_hash = TxHash t, at_log_index = wrap_i64 (uint (LogIndex t)), at_from = From t,
      at_to = To t, at_amount = Uint256_String (Some (Amount t)), at_token = TokenAddress t, at_symbol = Symbol t, at_type = Type t\<rparr>"

definition handleGetBlocks :: "go_error option \<Rightarrow> db \<Rightarrow> (string \<times> string \<times> string \<times> string) list http" where
  "handleGetBlocks err d =
     (case err of
        Some e \<Rightarrow> HttpError 500 ''Failed to retrieve blocks''
      | None \<Rightarrow> HttpOk (map (\<lambda>r. (big_string (br_number r), br_hash r, br_parent_hash r, big_string (br_timestamp r))) (latest_blocks 10 d)))"

definition handleGetTransfers :: "go_error option \<Rightarrow> db \<Rightarrow> api_transfer list http" where
  "handleGetTransfers err d =
     (case err of
        Some e \<Rightarrow> HttpError 500 ''Failed to retrieve transfers''
      | None \<Rightarrow> HttpOk (map row_transfer (latest_transfers 10 d)))"

definition handleGetTransfersFromHotBuffer :: "HotBuffer \<Rightarrow> api_transfer list http go" where
  "handleGetTransfersFromHotBuffer hot = go_bind (GetLatest 10 hot) (\<lambda>ts. Ret (HttpOk (map hot_transfer ts)))"

text \<open>The routes of api\_server.go: before the dependencies are injected the answer is 503.\<close>

definition route_blocks :: "go_error option \<Rightarrow> db option \<Rightarrow> (string \<times> string \<times> string \<times> string) list http" where
  "route_blocks err d = (case d of None \<Rightarrow> HttpError 503 ''System Initializing...'' | Some db \<Rightarrow> handleGetBlocks err db)"

definition route_transfers :: "go_error option \<Rightarrow> db option \<Rightarrow> HotBuffer option \<Rightarrow> api_transfer list http go" where
  "route_transfers err d hot =
     (case d of
        None \<Rightarrow> Ret (HttpError 503 ''System Initializing...'')
      | Some db \<Rightarrow>
          (case hot of
             Some h \<Rightarrow> if GetCount h > 0 then handleGetTransfersFromHotBuffer h else Ret (handleGetTransfers err db)
           | None \<Rightarrow> Ret (handleGetTransfers err db)))"

definition handleInitialStatus :: "Orchestrator option \<Rightarrow> string \<times> string" where
  "handleInitialStatus orch =
     (case orch of
        None \<Rightarrow> (''initializing'', ''Database or RPC not ready yet'')
      | Some o' \<Rightarrow> (SystemState_String (SystemState (GetSnapshot o')), ''System initializing''))"

text \<open>Reading the status counts as a visit: the lazy manager is triggered first.\<close>

definition handleGetStatus :: "time \<Rightarrow> rat \<Rightarrow> rat \<Rightarrow> int option \<Rightarrow> GlobalState \<Rightarrow> Orchestrator \<Rightarrow> LazyManager option
    \<Rightarrow> LazyManager option \<times> lazy_effect list \<times> UIStatusDTO" where
  "handleGetStatus now tps bps counted gs o' lazy =
     (case lazy of
        None \<Rightarrow> (None, [], GetUIStatus tps bps counted gs o')
      | Some lm \<Rightarrow> (case Trigger now lm of (lm1, effs) \<Rightarrow> (Some lm1, effs, GetUIStatus tps bps counted gs o')))"

record debug_snapshot =
  ds_mode :: string
  ds_reality_gap :: u64
  ds_latest_rpc :: u64
  ds_is_synced :: bool
  ds_blocks :: "BlockRow list"
  ds_transfers :: "TransferRow list"

text \<open>The gaps are differences of \<open>uint64\<close> values; a query that fails leaves its list empty.\<close>

definition handleGetDebugSnapshot :: "go_error + int option \<Rightarrow> bool \<Rightarrow> bool \<Rightarrow> db \<Rightarrow> Orchestrator \<Rightarrow> debug_snapshot" where
  "handleGetDebugSnapshot rpc blocks_ok transfers_ok d o' =
     (let snap = GetSnapshot o'; latest = (case rpc of Inr (Some n) \<Rightarrow> (word_of_int n :: u64) | _ \<Rightarrow> 0)
      in \<lparr>ds_mode = (if IsEcoMode snap then ''ECO_SLEEP'' else ''ACTIVE''), ds_reality_gap = LatestHeight snap - SyncedCursor snap,
          ds_latest_rpc = latest, ds_is_synced = (latest - SyncedCursor snap < 10),
          ds_blocks = (if blocks_ok then latest_blocks 5 d else []), ds_transfers = (if transfers_ok then latest_transfers 5 d else [])\<rparr>)"

definition getLatestIndexedBlock :: "go_error option \<Rightarrow> db \<Rightarrow> string" where
  "getLatestIndexedBlock err d = (if err \<noteq> None then ''0'' else big_string (GetMaxStoredBlock d))"

definition getCount :: "go_error + int \<Rightarrow> int" where
  "getCount answer = (case answer of Inl _ \<Rightarrow> 0 | Inr n \<Rightarrow> n)"

definition parseBlockNumber :: "string \<Rightarrow> int" where
  "parseBlockNumber s =
     (if s = [] \<or> s = ''0'' then 0 else case SetString10 s of None \<Rightarrow> 0 | Some n \<Rightarrow> wrap_i64 n)"

text \<open>The latency in seconds; \<open>age\<close> is the time since the block was processed, if its row is found.\<close>

definition calculateLatency :: "rat option \<Rightarrow> int \<Rightarrow> int \<Rightarrow> rat" where
  "calculateLatency age latestChain latestIndexed =
     (if latestChain \<le> 0 \<or> latestIndexed \<le> 0 then 0
      else let syncLag = wrap_i64 (latestChain - latestIndexed) in
        if syncLag > 100 then of_int syncLag * 12
        else case age of Some a \<Rightarrow> a | None \<Rightarrow> of_int syncLag * 12)"

subsection \<open>The lists show the newest rows\<close>

lemma newer_total: "newer a b \<or> newer b a"
  by (auto simp: newer_def)

lemma newer_trans: "newer a b \<Longrightarrow> newer b c \<Longrightarrow> newer a c"
  by (auto simp: newer_def)

lemma mset_insert_newest [simp]: "mset (insert_newest r xs) = add_mset r (mset xs)"
  by (induction xs) auto

lemma sorted_insert_newest: "sorted_wrt newer xs \<Longrightarrow> sorted_wrt newer (insert_newest r xs)"
proof (induction xs)
  case (Cons x xs)
  have "set (insert_newest r xs) = insert r (set xs)"
    by (metis mset_insert_newest set_mset_add_mset_insert set_mset_mset)
  then show ?case using Cons newer_total [of r x] newer_trans [of r x] by auto
qed simp

lemma newest_first:
  "sorted_wrt newer (foldr insert_newest rs []) \<and> mset (foldr insert_newest rs []) = mset rs"
  by (induction rs) (auto intro: sorted_insert_newest)

text \<open>
  The list of transfers has the requested length as long as there are so many, shows stored rows only, in falling order of block and
  log index, and every row it leaves out is older than all it shows.
\<close>

lemma latest_transfers_newest:
  "length (latest_transfers n d) = min n (length (db_transfers d)) \<and> sorted_wrt newer (latest_transfers n d)
    \<and> mset (latest_transfers n d) \<subseteq># mset (db_transfers d)
    \<and> (\<forall>a \<in> set (latest_transfers n d). \<forall>b \<in># mset (db_transfers d) - mset (latest_transfers n d). newer a b)"
proof -
  let ?l = "foldr insert_newest (db_transfers d) []"
  have s: "sorted_wrt newer ?l" and m: "mset ?l = mset (db_transfers d)" using newest_first by blast+
  have split: "mset (db_transfers d) = mset (take n ?l) + mset (drop n ?l)"
    unfolding m [symmetric] by (metis append_take_drop_id mset_append)
  have "length ?l = length (db_transfers d)" using m by (metis size_mset)
  moreover have "sorted_wrt newer (take n ?l @ drop n ?l)" using s by simp
  then have "sorted_wrt newer (take n ?l)" "\<forall>a \<in> set (take n ?l). \<forall>b \<in> set (drop n ?l). newer a b"
    unfolding sorted_wrt_append by blast+
  ultimately show ?thesis unfolding latest_transfers_def split by simp
qed

lemma latest_blocks_newest:
  "length (latest_blocks n d) = min n (length (db_blocks d)) \<and> sorted_wrt (\<lambda>a b. br_number a \<ge> br_number b) (latest_blocks n d)
    \<and> (\<forall>a \<in> set (latest_blocks n d). \<forall>b \<in># mset (db_blocks d) - mset (latest_blocks n d). br_number a \<ge> br_number b)"
proof -
  let ?l = "sort_key (\<lambda>r. - br_number r) (db_blocks d)"
  have s: "sorted_wrt (\<lambda>a b. br_number a \<ge> br_number b) ?l"
    using sorted_sort_key [of "\<lambda>r. - br_number r" "db_blocks d"] by (simp add: sorted_wrt_map)
  have split: "mset (db_blocks d) = mset (take n ?l) + mset (drop n ?l)"
    by (metis append_take_drop_id mset_append mset_sort)
  have "sorted_wrt (\<lambda>a b. br_number a \<ge> br_number b) (take n ?l @ drop n ?l)" using s by simp
  then have "sorted_wrt (\<lambda>a b. br_number a \<ge> br_number b) (take n ?l)" "\<forall>a \<in> set (take n ?l). \<forall>b \<in> set (drop n ?l). br_number a \<ge> br_number b"
    unfolding sorted_wrt_append by blast+
  then show ?thesis unfolding latest_blocks_def split by simp
qed

subsection \<open>Readings that go wrong\<close>

text \<open>When the cursor is ahead of the head, the debugging gap wraps around to a huge number.\<close>

lemma debug_gap_wraps:
  assumes "LatestHeight (GetSnapshot o') < SyncedCursor (GetSnapshot o')"
  shows "uint (ds_reality_gap (handleGetDebugSnapshot rpc b t d o')) =
    2 ^ 64 - (uint (SyncedCursor (GetSnapshot o')) - uint (LatestHeight (GetSnapshot o')))"
  using assms by (simp add: handleGetDebugSnapshot_def Let_def uint_sub_if' word_less_def)

text \<open>The dashboard's progress is not capped, unlike that of the status map.\<close>

lemma ui_progress_uncapped:
  assumes "0 < LatestHeight (GetSnapshot o')" "LatestHeight (GetSnapshot o') < FetchedHeight (GetSnapshot o')"
  shows "ui_FetchProgress (GetUIStatus tps bps counted gs o') > 100 \<and> gm_fetch_progress (Orchestrator_GetStatus h n o') = 100"
proof -
  define a b where "a = (of_int (uint (FetchedHeight (GetSnapshot o'))) :: rat)" and "b = (of_int (uint (LatestHeight (GetSnapshot o'))) :: rat)"
  have "0 < b" "b < a" using assms unfolding a_def b_def word_less_def by (simp_all only: of_int_less_iff of_int_0_less_iff unsigned_0)
  then have "a / b * 100 > 100" by (simp add: field_simps)
  then have "percent_of (FetchedHeight (GetSnapshot o')) (LatestHeight (GetSnapshot o')) > 100"
    using assms(1) unfolding percent_of_def a_def b_def by presburger
  moreover have "ui_latest (GetSnapshot o') = LatestHeight (GetSnapshot o')" using assms(1) by (auto simp: ui_latest_def)
  ultimately show ?thesis by (simp add: GetUIStatus_def Orchestrator_GetStatus_def Let_def GetCapacity_def)
qed

text \<open>Any result in the pipeline makes the dashboard report pressure, since the backlog is compared with itself.\<close>

lemma ui_pressure_by_any_result:
  assumes "0 < resultsDepth gs" "resultsDepth gs = pipelineDepth gs" "pipelineDepth gs < 20000000"
  shows "ui_State (GetUIStatus tps bps counted gs o') = ''pressure_limit''"
proof -
  have "tdiv (wrap_i32 (pipelineDepth gs * 80)) 100 < resultsDepth gs" using assms by (simp add: wrap_i32_id tdiv_nonneg)
  then show ?thesis by (simp add: GetUIStatus_def ui_state_def Let_def GetCapacity_def)
qed

end
