(* ===== verification/Visitors.thy ===== *)
theory Visitors
  imports Go_Utils "HOL-Library.Multiset"
begin

section \<open>Visitor statistics (cmd/indexer/api\_middleware.go)\<close>

text \<open>
  The middleware counts requests by address, takes an address that dominates the traffic for the administrator's and
  does not log it, and queues the visits of browsers for the database.

  \<^item> The map of counts is an association list; Go iterates a map in no fixed order, so the list stands for any order.
  \<^item> Only the standard-library functions the middleware calls are defined here: \<open>net.SplitHostPort\<close> and \<open>strings.TrimSpace\<close>.
\<close>

subsection \<open>The traffic analyser\<close>

record TrafficAnalyzer =
  ta_counts :: "(string \<times> nat) list"
  ta_threshold :: rat
  ta_total :: nat

definition NewTrafficAnalyzer :: "rat \<Rightarrow> TrafficAnalyzer" where
  "NewTrafficAnalyzer threshold = \<lparr>ta_counts = [], ta_threshold = threshold, ta_total = 0\<rparr>"

definition Analyzer_Record :: "string \<Rightarrow> TrafficAnalyzer \<Rightarrow> TrafficAnalyzer" where
  "Analyzer_Record ip ta =
     (let n = (case map_of (ta_counts ta) ip of None \<Rightarrow> 0 | Some c \<Rightarrow> c);
          ta1 = ta\<lparr>ta_counts := AList.update ip (n + 1) (ta_counts ta), ta_total := ta_total ta + 1\<rparr>
      in if ta_total ta1 > 2000 then ta1\<lparr>ta_counts := [], ta_total := 0\<rparr> else ta1)"

definition GetAdminIP :: "TrafficAnalyzer \<Rightarrow> string" where
  "GetAdminIP ta =
     (if ta_total ta < 100 then []
      else case find (\<lambda>(ip, c). of_nat c / of_nat (ta_total ta) > ta_threshold ta) (ta_counts ta) of
        None \<Rightarrow> [] | Some (ip, c) \<Rightarrow> ip)"

definition globalAnalyzer :: TrafficAnalyzer where
  "globalAnalyzer = NewTrafficAnalyzer (9 / 10)"

subsection \<open>The address of a request\<close>

definition index_of :: "char \<Rightarrow> string \<Rightarrow> nat option" where
  "index_of c s = (let i = length (takeWhile (\<lambda>x. x \<noteq> c) s) in if i < length s then Some i else None)"

definition last_index_of :: "char \<Rightarrow> string \<Rightarrow> nat option" where
  "last_index_of c s = map_option (\<lambda>i. length s - 1 - i) (index_of c (rev s))"

text \<open>The host of \<open>host:port\<close>; \<open>None\<close> for the errors, the missing port among them.\<close>

definition SplitHostPort :: "string \<Rightarrow> string option" where
  "SplitHostPort s =
     (case last_index_of (CHR '':'') s of
        None \<Rightarrow> None
      | Some i \<Rightarrow>
          if take 1 s = ''[''
          then (case index_of (CHR '']'') s of
                  None \<Rightarrow> None
                | Some e \<Rightarrow> if e + 1 \<noteq> i then None
                    else if CHR ''['' \<in> set (drop 1 s) \<or> CHR '']'' \<in> set (drop (e + 1) s) then None
                    else Some (take (e - 1) (drop 1 s)))
          else if CHR '':'' \<in> set (take i s) \<or> CHR ''['' \<in> set s \<or> CHR '']'' \<in> set s then None
          else Some (take i s))"

definition is_space :: "char \<Rightarrow> bool" where
  "is_space c \<longleftrightarrow> of_char c \<in> {9, 10, 11, 12, 13, 32 :: nat}"

definition TrimSpace :: "string \<Rightarrow> string" where
  "TrimSpace s = rev (dropWhile is_space (rev (dropWhile is_space s)))"

definition client_ip :: "string \<Rightarrow> string \<Rightarrow> string" where
  "client_ip forwarded remote =
     (let ip = (if forwarded = [] then remote else forwarded) in
      case SplitHostPort ip of
        Some host \<Rightarrow> host
      | None \<Rightarrow>
          (let ip1 = TrimSpace ip in
           case index_of (CHR '','') ip1 of None \<Rightarrow> ip1 | Some i \<Rightarrow> TrimSpace (take i ip1)))"

subsection \<open>The middleware\<close>

definition is_bot :: "string \<Rightarrow> bool" where
  "is_bot ua = list_ex (contains (ToLower ua)) [''bot'', ''crawler'', ''spider'', ''curl'', ''wget'', ''python'', ''postman'']"

record request =
  rq_forwarded :: string
  rq_remote :: string
  rq_ua :: string
  rq_get :: bool
  rq_path :: string

record visitorLogTask =
  vt_ip :: string
  vt_ua :: string
  vt_path :: string

text \<open>Every request is passed on; the result says what becomes of analyser and queue.\<close>

definition VisitorStatsMiddleware :: "bool \<Rightarrow> request \<Rightarrow> TrafficAnalyzer \<times> visitorLogTask chan \<Rightarrow> TrafficAnalyzer \<times> visitorLogTask chan" where
  "VisitorStatsMiddleware has_db r st =
     (let ip = client_ip (rq_forwarded r) (rq_remote r); ta = Analyzer_Record ip (fst st) in
      if ip = GetAdminIP ta \<or> ip = ''127.0.0.1'' then (ta, snd st)
      else if contains (rq_ua r) ''Mozilla'' \<and> \<not> is_bot (rq_ua r) \<and> rq_get r \<and> has_db
      then (ta, fst (chan_try_send \<lparr>vt_ip = ip, vt_ua = rq_ua r, vt_path = rq_path r\<rparr> (snd st)))
      else (ta, snd st))"

text \<open>A visit is inserted with up to three attempts; \<open>oks\<close> says which succeed.\<close>

fun visitor_attempts :: "nat \<Rightarrow> bool list \<Rightarrow> visitorLogTask \<Rightarrow> visitorLogTask list \<Rightarrow> visitorLogTask list" where
  "visitor_attempts 0 oks t rows = rows"
| "visitor_attempts (Suc k) [] t rows = rows"
| "visitor_attempts (Suc k) (ok # oks) t rows = (if ok then rows @ [t] else visitor_attempts k oks t rows)"

definition logVisitor :: "bool \<Rightarrow> bool list \<Rightarrow> visitorLogTask \<Rightarrow> visitorLogTask list \<Rightarrow> visitorLogTask list" where
  "logVisitor json_ok oks t rows = (if json_ok then visitor_attempts 3 oks t rows else rows)"

subsection \<open>There is at most one administrator\<close>

definition analyzer_ok :: "TrafficAnalyzer \<Rightarrow> bool" where
  "analyzer_ok ta \<longleftrightarrow> distinct (map fst (ta_counts ta)) \<and> sum_list (map snd (ta_counts ta)) = ta_total ta \<and> ta_total ta \<le> 2000"

lemma sum_update:
  "distinct (map fst xs) \<Longrightarrow>
     sum_list (map snd (AList.update k ((case map_of xs k of None \<Rightarrow> 0 | Some c \<Rightarrow> c) + 1) xs)) = sum_list (map snd xs) + (1 :: nat)"
proof (induction xs)
  case (Cons x xs)
  then show ?case by (cases x) auto
qed simp

lemma Record_ok: "analyzer_ok ta \<Longrightarrow> analyzer_ok (Analyzer_Record ip ta)"
  using sum_update [of "ta_counts ta" ip]
  by (auto simp: analyzer_ok_def Analyzer_Record_def Let_def distinct_update)

lemma records_ok: "analyzer_ok ta \<Longrightarrow> analyzer_ok (fold Analyzer_Record ips ta)"
  by (induction ips arbitrary: ta) (auto intro: Record_ok)

lemma threshold_records [simp]: "ta_threshold (fold Analyzer_Record ips ta) = ta_threshold ta"
  by (induction ips arbitrary: ta) (auto simp: Analyzer_Record_def Let_def)

text \<open>Two addresses cannot both have more than half of the requests.\<close>

lemma two_counts: "distinct (map fst xs) \<Longrightarrow> (a, c) \<in> set xs \<Longrightarrow> (b, e) \<in> set xs \<Longrightarrow> a \<noteq> b \<Longrightarrow> c + e \<le> (sum_list (map snd xs) :: nat)"
proof (induction xs)
  case (Cons x xs)
  have "v \<le> sum_list (map snd xs)" if "(k, v) \<in> set xs" for k v
    using member_le_sum_list [of v "map snd xs"] that by force
  with Cons show ?case by (cases x) fastforce
qed simp

lemma dominant_unique:
  assumes "analyzer_ok ta" "1 / 2 \<le> ta_threshold ta" "0 < ta_total ta"
    and "(a, c) \<in> set (ta_counts ta)" "of_nat c / of_nat (ta_total ta) > ta_threshold ta"
    and "(b, e) \<in> set (ta_counts ta)" "of_nat e / of_nat (ta_total ta) > ta_threshold ta"
  shows "a = b"
proof (rule ccontr)
  assume "a \<noteq> b"
  then have le: "c + e \<le> ta_total ta" using two_counts [OF _ assms(4,6)] assms(1) by (simp add: analyzer_ok_def)
  let ?t = "of_nat (ta_total ta) :: rat"
  have pos: "0 < ?t" using assms(3) by simp
  have "1 / 2 < of_nat c / ?t" "1 / 2 < of_nat e / ?t" using assms(2,5,7) by linarith+
  then have "?t / 2 < of_nat c" "?t / 2 < of_nat e" using pos by (simp_all add: pos_less_divide_eq)
  then have "?t < of_nat (c + e)" by (simp add: field_simps)
  with le show False by (simp only: of_nat_less_iff)
qed

abbreviation dominates :: "TrafficAnalyzer \<Rightarrow> string \<times> nat \<Rightarrow> bool" where
  "dominates ta \<equiv> \<lambda>(ip, c). of_nat c / of_nat (ta_total ta) > ta_threshold ta"

lemma find_unique:
  assumes "set ys = set xs" and "\<And>x y. x \<in> set xs \<Longrightarrow> P x \<Longrightarrow> y \<in> set xs \<Longrightarrow> P y \<Longrightarrow> f x = f y"
  shows "map_option f (find P ys) = map_option f (find P xs)"
proof (cases "find P xs")
  case None
  then have "find P ys = None" unfolding find_None_iff using assms(1) by simp
  with None show ?thesis by simp
next
  case (Some x)
  then have x: "x \<in> set xs" "P x" by (auto simp: find_Some_iff)
  then obtain y where y: "find P ys = Some y" using assms(1) by (metis find_None_iff not_Some_eq)
  then have "y \<in> set xs" "P y" using assms(1) by (auto simp: find_Some_iff)
  with assms(2) [OF x] y Some show ?thesis by simp
qed

lemma admin_any_order:
  assumes "analyzer_ok ta" "1 / 2 \<le> ta_threshold ta" "set counts = set (ta_counts ta)"
  shows "GetAdminIP (ta\<lparr>ta_counts := counts\<rparr>) = GetAdminIP ta"
proof (cases "ta_total ta < 100")
  case False
  then have "0 < ta_total ta" by simp
  note u = dominant_unique [OF assms(1,2) this]
  have "map_option fst (find (dominates ta) counts) = map_option fst (find (dominates ta) (ta_counts ta))"
    using assms(3) by (rule find_unique) (auto dest: u)
  with False show ?thesis by (auto simp: GetAdminIP_def split: option.splits)
qed (simp add: GetAdminIP_def)

lemma admin_dominates:
  assumes "analyzer_ok ta" "ta_threshold ta = 9 / 10" "GetAdminIP ta \<noteq> []"
  shows "100 \<le> ta_total ta \<and> (\<exists>c. map_of (ta_counts ta) (GetAdminIP ta) = Some c \<and> 9 * ta_total ta < 10 * c)"
proof -
  obtain ip c where c: "find (dominates ta) (ta_counts ta) = Some (ip, c)" "\<not> ta_total ta < 100" "GetAdminIP ta = ip"
    using assms(3) by (auto simp: GetAdminIP_def split: if_splits option.splits)
  from c(1) have "(ip, c) \<in> set (ta_counts ta) \<and> dominates ta (ip, c)" unfolding find_Some_iff by (metis nth_mem)
  then have m: "(ip, c) \<in> set (ta_counts ta)" "of_nat c / of_nat (ta_total ta) > (9 / 10 :: rat)"
    using assms(2) by simp_all
  have "(9 / 10 :: rat) * of_nat (ta_total ta) < of_nat c" using m(2) c(2) by (simp add: pos_less_divide_eq)
  then have "of_nat (9 * ta_total ta) < (of_nat (10 * c) :: rat)" by simp
  then have "9 * ta_total ta < 10 * c" by (simp only: of_nat_less_iff)
  with m(1) c assms(1) show ?thesis by (auto simp: analyzer_ok_def)
qed

text \<open>
  The guess of the administrator does not depend on the order in which Go walks its map: after any
  requests, every arrangement of the counters gives the same address, and an address that is given has more than nine
  tenths of at least a hundred requests.
\<close>

lemma admin_ip_order_independent:
  assumes "ta = fold Analyzer_Record ips globalAnalyzer" and "mset counts = mset (ta_counts ta)"
  shows "GetAdminIP (ta\<lparr>ta_counts := counts\<rparr>) = GetAdminIP ta
    \<and> (GetAdminIP ta \<noteq> [] \<longrightarrow> 100 \<le> ta_total ta \<and> (\<exists>c. map_of (ta_counts ta) (GetAdminIP ta) = Some c \<and> 9 * ta_total ta < 10 * c))"
proof -
  have ok: "analyzer_ok ta" unfolding assms(1) by (rule records_ok) (simp add: globalAnalyzer_def NewTrafficAnalyzer_def analyzer_ok_def)
  have th: "ta_threshold ta = 9 / 10" unfolding assms(1) by (simp add: globalAnalyzer_def NewTrafficAnalyzer_def)
  have "set counts = set (ta_counts ta)" using assms(2) by (metis set_mset_mset)
  with admin_any_order [OF ok] admin_dominates [OF ok th] th show ?thesis by simp
qed

end
