(* ===== verification/Health_Admin.thy ===== *)
theory Health_Admin
  imports Sequencer Activity Models
begin

section \<open>Health checks and administration (health\_*.go, admin\_server.go)\<close>

text \<open>
  The health endpoints combine four checks; the administration interface drives the state manager.

  \<^item> The answers of the database's ping and of the RPC pool are arguments: \<open>healthy\<close> and \<open>allNodes\<close> its node counts, \<open>header\<close>
    the number of the newest header. Latencies and time stamps are left out.
  \<^item> A response is its status code with the decoded content.
\<close>

subsection \<open>The checks (health\_checks.go)\<close>

record Check =
  ck_Status :: string
  ck_Message :: string

definition healthyStatus :: string where
  "healthyStatus = ''healthy''"

definition checkDatabase :: "go_error option \<Rightarrow> (go_error \<Rightarrow> string) \<Rightarrow> Check" where
  "checkDatabase ping text =
     (case ping of
        Some e \<Rightarrow> \<lparr>ck_Status = ''unhealthy'', ck_Message = text e\<rparr>
      | None \<Rightarrow> \<lparr>ck_Status = healthyStatus, ck_Message = []\<rparr>)"

definition node_text :: "nat \<Rightarrow> nat \<Rightarrow> string" where
  "node_text healthy allNodes = ''rpc_nodes: '' @ big_string (int healthy) @ ''/'' @ big_string (int allNodes) @ '' healthy''"

definition checkRPC :: "nat \<Rightarrow> nat \<Rightarrow> go_error + int \<Rightarrow> (go_error \<Rightarrow> string) \<Rightarrow> Check" where
  "checkRPC healthy allNodes header text =
     (case header of
        Inl e \<Rightarrow> \<lparr>ck_Status = ''unhealthy'', ck_Message = node_text healthy allNodes @ '', error: '' @ text e\<rparr>
      | Inr n \<Rightarrow> \<lparr>ck_Status = (if healthy < allNodes then ''degraded'' else healthyStatus),
                  ck_Message = node_text healthy allNodes @ '', latest_block: '' @ big_string n\<rparr>)"

definition checkSequencer :: "'p Sequencer option \<Rightarrow> Check" where
  "checkSequencer sq =
     (case sq of
        None \<Rightarrow> \<lparr>ck_Status = ''unhealthy'', ck_Message = ''sequencer not initialized''\<rparr>
      | Some s \<Rightarrow>
          if GetBufferSize s > 500
          then \<lparr>ck_Status = ''degraded'', ck_Message = ''buffer_size: '' @ big_string (int (GetBufferSize s)) @ '' (high)''\<rparr>
          else \<lparr>ck_Status = healthyStatus, ck_Message = ''expected_block: '' @ big_string (GetExpectedBlock s) @ '', buffer_size: ''
                  @ big_string (int (GetBufferSize s))\<rparr>)"

definition checkFetcher :: "Fetcher option \<Rightarrow> Check" where
  "checkFetcher f =
     (case f of
        None \<Rightarrow> \<lparr>ck_Status = ''unhealthy'', ck_Message = ''fetcher not initialized''\<rparr>
      | Some fe \<Rightarrow>
          if f_paused fe then \<lparr>ck_Status = ''degraded'', ck_Message = ''fetcher paused (likely reorg handling)''\<rparr>
          else \<lparr>ck_Status = healthyStatus, ck_Message = ''fetcher running''\<rparr>)"

subsection \<open>The endpoints (health\_core.go, health\_handlers.go)\<close>

record health_env =
  he_ping :: "go_error option"
  he_healthy :: nat
  he_all :: nat
  he_header :: "go_error + int"
  he_text :: "go_error \<Rightarrow> string"

definition health_checks :: "health_env \<Rightarrow> 'p Sequencer option \<Rightarrow> Fetcher option \<Rightarrow> (string \<times> Check) list" where
  "health_checks E sq f =
     [(''database'', checkDatabase (he_ping E) (he_text E)), (''rpc'', checkRPC (he_healthy E) (he_all E) (he_header E) (he_text E)),
      (''sequencer'', checkSequencer sq), (''fetcher'', checkFetcher f)]"

definition Healthz :: "health_env \<Rightarrow> 'p Sequencer option \<Rightarrow> Fetcher option \<Rightarrow> int \<times> string \<times> (string \<times> Check) list" where
  "Healthz E sq f =
     (let cs = health_checks E sq f in
      if list_all (\<lambda>(n, c). ck_Status c = healthyStatus) cs then (200, healthyStatus, cs) else (503, ''unhealthy'', cs))"

definition Ready :: "health_env \<Rightarrow> int \<times> string" where
  "Ready E =
     (if ck_Status (checkDatabase (he_ping E) (he_text E)) = healthyStatus
         \<and> ck_Status (checkRPC (he_healthy E) (he_all E) (he_header E) (he_text E)) = healthyStatus
      then (200, ''ready'') else (503, ''not_ready''))"

definition Live :: "int \<times> string" where
  "Live = (200, ''alive'')"

record health_status =
  hh_is_healthy :: bool
  hh_latest :: string
  hh_indexed :: string
  hh_sync_lag :: int
  hh_drift :: int
  hh_time_travel :: bool
  hh_buffer :: nat

definition Health_Status :: "nat \<Rightarrow> HeightOracle \<Rightarrow> 'p Sequencer option \<Rightarrow> health_status" where
  "Health_Status healthy oracle sq =
     (let snap = HeightOracle_Snapshot oracle in
      \<lparr>hh_is_healthy = (healthy > 0), hh_latest = (if hs_ChainHead snap > 0 then big_string (hs_ChainHead snap) else ''0''),
       hh_indexed = big_string (hs_IndexedHead snap), hh_sync_lag = hs_SyncLag snap, hh_drift = hs_DriftBlocks snap,
       hh_time_travel = hs_IsTimeTravel snap, hh_buffer = (case sq of None \<Rightarrow> 0 | Some s \<Rightarrow> GetBufferSize s)\<rparr>)"

text \<open>Exactly when the service is reported healthy.\<close>

lemma healthz_ok_iff:
  "fst (Healthz E sq f) = 200 \<longleftrightarrow>
     he_ping E = None \<and> \<not> isl (he_header E) \<and> he_all E \<le> he_healthy E
     \<and> (\<exists>s. sq = Some s \<and> GetBufferSize s \<le> 500) \<and> (\<exists>fe. f = Some fe \<and> \<not> f_paused fe)"
  by (auto simp: Healthz_def health_checks_def checkDatabase_def checkRPC_def checkSequencer_def checkFetcher_def healthyStatus_def Let_def
      split: option.splits sum.splits if_splits)

text \<open>
  One failed node among many takes the service out of rotation although requests fail over, and so does the fetcher's pause
  in the economy mode: degraded counts as unhealthy.
\<close>

lemma degraded_is_unavailable:
  "he_healthy E < he_all E \<Longrightarrow> fst (Ready E) = 503" "f_paused fe \<Longrightarrow> fst (Healthz E sq (Some fe)) = 503"
  by (auto simp: Ready_def Healthz_def health_checks_def checkRPC_def checkFetcher_def healthyStatus_def Let_def split: sum.splits)

subsection \<open>The administration interface (admin\_server.go)\<close>

datatype http_method = GET | POST | OtherMethod

definition Admin_StartDemo :: "time \<Rightarrow> http_method \<Rightarrow> 'i StateManager \<Rightarrow> 'i StateManager \<times> int \<times> string" where
  "Admin_StartDemo now m sm =
     (if m \<noteq> POST then (sm, 405, ''Method not allowed'')
      else let sm1 = StartDemo now (RecordAccess now sm) in (sm1, 200, IndexerState_String (currentState sm1)))"

definition Admin_Stop :: "http_method \<Rightarrow> 'i StateManager \<Rightarrow> 'i StateManager \<times> int \<times> string" where
  "Admin_Stop m sm =
     (if m \<noteq> POST then (sm, 405, ''Method not allowed'')
      else let sm1 = transitionTo StateIdle sm in (sm1, 200, IndexerState_String (currentState sm1)))"

fun getRPCQuotaUsage :: "IndexerState \<Rightarrow> string" where
  "getRPCQuotaUsage StateActive = ''HIGH (eth_getLogs intensive)''"
| "getRPCQuotaUsage StateIdle = ''NONE (no RPC calls)''"
| "getRPCQuotaUsage StateWatching = ''MINIMAL (WSS subscription only)''"

fun getEstimatedDailyCost :: "IndexerState \<Rightarrow> string" where
  "getEstimatedDailyCost StateActive = ''~2.4M credits/day (80% of free tier)''"
| "getEstimatedDailyCost StateIdle = ''~0 credits/day (0% of free tier)''"
| "getEstimatedDailyCost StateWatching = ''~0.1M credits/day (3% of free tier)''"

definition Admin_GetStatus :: "time \<Rightarrow> http_method \<Rightarrow> 'i StateManager \<Rightarrow> 'i StateManager \<times> int \<times> string list" where
  "Admin_GetStatus now m sm =
     (if m \<noteq> GET then (sm, 405, [''Method not allowed''])
      else let sm1 = RecordAccess now sm; st = currentState sm1 in
        (sm1, 200, [IndexerState_String st, getRPCQuotaUsage st, getEstimatedDailyCost st]))"

definition Admin_GetConfig :: "time \<Rightarrow> http_method \<Rightarrow> 'i StateManager \<Rightarrow> 'i StateManager \<times> int \<times> duration list" where
  "Admin_GetConfig now m sm =
     (if m \<noteq> GET then (sm, 405, [])
      else let sm1 = RecordAccess now sm in (sm1, 200, [demoDuration sm1, idleTimeout sm1, checkInterval sm1]))"

text \<open>The middleware counts every request as an access before its handler runs.\<close>

definition Admin_Middleware :: "time \<Rightarrow> ('i StateManager \<Rightarrow> 'i StateManager \<times> 'r) \<Rightarrow> 'i StateManager \<Rightarrow> 'i StateManager \<times> 'r" where
  "Admin_Middleware now handler sm = handler (RecordAccess now sm)"

lemma transition_processed:
  assumes "items (stateCh sm) = []" "0 < capacity (stateCh sm)"
  shows "currentState (process_state S (transitionTo st sm)) = st \<and> items (stateCh (process_state S (transitionTo st sm))) = []
    \<and> capacity (stateCh (process_state S (transitionTo st sm))) = capacity (stateCh sm)"
  using assms by (auto simp: transitionTo_def chan_try_send_def chan_len_def process_state_def executeTransition_def Let_def)

text \<open>
  A stopped indexer does not stay stopped under observation: the next request for its status counts as an access and starts it
  again, and the answer to the stop request still names the state before it.
\<close>

lemma status_request_restarts:
  assumes "items (stateCh sm) = []" "0 < capacity (stateCh sm)" "currentState sm = StateActive"
  shows "snd (snd (Admin_Stop POST sm)) = ''active''"
    and "currentState (process_state S (fst (Admin_Stop POST sm))) = StateIdle"
    and "currentState (process_state S (fst (Admin_GetStatus now GET (process_state S (fst (Admin_Stop POST sm)))))) = StateActive"
proof -
  let ?idle = "process_state S (transitionTo StateIdle sm)"
  have idle: "currentState ?idle = StateIdle" "items (stateCh ?idle) = []" "0 < capacity (stateCh ?idle)"
    using transition_processed [OF assms(1,2)] assms(2) by simp_all
  show "snd (snd (Admin_Stop POST sm)) = ''active''" using assms(3) by (simp add: Admin_Stop_def Let_def transitionTo_def)
  show "currentState (process_state S (fst (Admin_Stop POST sm))) = StateIdle" using idle(1) by (simp add: Admin_Stop_def Let_def)
  have "fst (Admin_GetStatus now GET ?idle) = transitionTo StateActive (?idle\<lparr>lastAccess := now\<rparr>)"
    using idle(1) by (simp add: Admin_GetStatus_def RecordAccess_def Let_def)
  with transition_processed [of "?idle\<lparr>lastAccess := now\<rparr>" S StateActive] idle(2,3)
  show "currentState (process_state S (fst (Admin_GetStatus now GET (process_state S (fst (Admin_Stop POST sm)))))) = StateActive"
    by (simp add: Admin_Stop_def Let_def)
qed

end
