(* ===== verification/Columns.thy ===== *)
theory Columns
  imports Models "HOL-Library.Log_Nat"
begin

section \<open>Reading columns back (Scan of internal/models/types.go)\<close>

text \<open>
  \<open>Scan\<close> turns what the database driver delivers into a number. A NUMERIC column arrives as text, as bytes or as a
  string, plain, hexadecimal or in scientific notation; the last goes through \<open>big.ParseFloat\<close>
  with its default precision of 64 bits, rounding to nearest even, and \<open>Float.Int\<close>.

  \<^item> \<open>ParseFloat\<close> is given by its documentation: the value of the text, rounded once. Exponents are those of a
    NUMERIC, far within the range of a \<open>big.Float\<close>.
  \<^item> \<open>from_big\<close> and \<open>from_decimal\<close> are the conversions of the package \<open>holiman/uint256\<close>.
\<close>

datatype driver_value = Null | Bytes string | Text string | Int64 int | GoInt int | OtherValue

subsection \<open>Numbers in base 16\<close>

definition hex_digit :: "char \<Rightarrow> nat option" where
  "hex_digit c =
     (let n = of_char c :: nat in
      if 48 \<le> n \<and> n \<le> 57 then Some (n - 48)
      else if 97 \<le> n \<and> n \<le> 102 then Some (n - 87)
      else if 65 \<le> n \<and> n \<le> 70 then Some (n - 55)
      else None)"

fun parse_hex :: "nat \<Rightarrow> string \<Rightarrow> nat option" where
  "parse_hex acc [] = Some acc"
| "parse_hex acc (c # cs) = (case hex_digit c of None \<Rightarrow> None | Some d \<Rightarrow> parse_hex (16 * acc + d) cs)"

definition split_sign :: "string \<Rightarrow> bool \<times> string" where
  "split_sign s =
     (case s of [] \<Rightarrow> (False, [])
      | c # cs \<Rightarrow> if c = CHR ''-'' then (True, cs) else if c = CHR ''+'' then (False, cs) else (False, s))"

definition SetString16 :: "string \<Rightarrow> int option" where
  "SetString16 s =
     (case split_sign s of (neg, ds) \<Rightarrow>
        if ds = [] then None else map_option (\<lambda>n. if neg then - int n else int n) (parse_hex 0 ds))"

subsection \<open>Scientific notation\<close>

definition is_exp_char :: "char \<Rightarrow> bool" where
  "is_exp_char c \<longleftrightarrow> c = CHR ''e'' \<or> c = CHR ''E''"

text \<open>The digits of a mantissa: their number as one integer, and how many stand after the point.\<close>

definition parse_mantissa :: "string \<Rightarrow> (nat \<times> nat) option" where
  "parse_mantissa s =
     (let whole = takeWhile (\<lambda>c. c \<noteq> CHR ''.'') s; frac = drop 1 (dropWhile (\<lambda>c. c \<noteq> CHR ''.'') s) in
      if whole @ frac = [] then None else map_option (\<lambda>n. (n, length frac)) (parse_digits 0 (whole @ frac)))"

definition parse_exponent :: "string \<Rightarrow> int option" where
  "parse_exponent s =
     (case s of
        [] \<Rightarrow> Some 0
      | _ # s1 \<Rightarrow> (case split_sign s1 of (neg, ds) \<Rightarrow> map_option (\<lambda>n. if neg then - int n else int n) (parse_nat ds)))"

text \<open>The sign and the value as a fraction.\<close>

definition parse_float :: "string \<Rightarrow> (bool \<times> nat \<times> nat) option" where
  "parse_float s =
     (case split_sign s of (neg, s1) \<Rightarrow>
        (case parse_mantissa (takeWhile (\<lambda>c. \<not> is_exp_char c) s1) of
           None \<Rightarrow> None
         | Some (m, k) \<Rightarrow>
             (case parse_exponent (dropWhile (\<lambda>c. \<not> is_exp_char c) s1) of
                None \<Rightarrow> None
              | Some e \<Rightarrow> (let x = e - int k in
                  Some (neg, if 0 \<le> x then (m * 10 ^ nat x, 1) else (m, 10 ^ nat (- x)))))))"

definition round_even :: "nat \<Rightarrow> nat \<Rightarrow> nat" where
  "round_even a b = (let q = a div b; r = a mod b in if 2 * r < b \<or> (2 * r = b \<and> even q) then q else q + 1)"

text \<open>
  The fraction \<open>n / d\<close> rounded to 64 significant bits, as an integer if it is one
  (\<open>f.Int\<close> is exact).
\<close>

definition float_int :: "nat \<Rightarrow> nat \<Rightarrow> nat option" where
  "float_int n d =
     (let L = floorlog 2 (n div d) in
      if 64 \<le> L then Some (round_even n (d * 2 ^ (L - 64)) * 2 ^ (L - 64))
      else if n = 0 then Some 0
      else if 2 * n < d then None
      else (let m = round_even (n * 2 ^ (64 - L)) d in
            if m mod 2 ^ (64 - L) = 0 then Some (m div 2 ^ (64 - L)) else None))"

definition scan_scientific :: "string \<Rightarrow> go_error + int" where
  "scan_scientific s =
     (case parse_float s of
        None \<Rightarrow> Inl (OtherError ''failed to parse numeric'')
      | Some (neg, n, d) \<Rightarrow>
          (case float_int n d of
             None \<Rightarrow> Inl (OtherError ''numeric is not an integer'')
           | Some m \<Rightarrow> Inr (if neg then - int m else int m)))"

subsection \<open>BigInt\<close>

definition is_hex :: "string \<Rightarrow> bool" where
  "is_hex s = (case s of a # b # _ \<Rightarrow> a = CHR ''0'' \<and> (b = CHR ''x'' \<or> b = CHR ''X'') | _ \<Rightarrow> False)"

text \<open>The branches for bytes and for strings are the same code.\<close>

definition scan_text :: "string \<Rightarrow> go_error + int" where
  "scan_text s =
     (if is_hex s
      then (case SetString16 (drop 2 s) of None \<Rightarrow> Inl (OtherError ''failed to convert hex to BigInt'') | Some n \<Rightarrow> Inr n)
      else if \<exists>c \<in> set s. is_exp_char c then scan_scientific s
      else (case SetString10 s of None \<Rightarrow> Inl (OtherError ''failed to convert to BigInt'') | Some n \<Rightarrow> Inr n))"

definition BigInt_Scan :: "driver_value \<Rightarrow> BigInt \<Rightarrow> BigInt \<times> go_error option" where
  "BigInt_Scan v b =
     (case v of
        Null \<Rightarrow> (Some 0, None)
      | Bytes s \<Rightarrow> (case scan_text s of Inl e \<Rightarrow> (b, Some e) | Inr n \<Rightarrow> (Some n, None))
      | Text s \<Rightarrow> (case scan_text s of Inl e \<Rightarrow> (b, Some e) | Inr n \<Rightarrow> (Some n, None))
      | Int64 n \<Rightarrow> (Some n, None)
      | GoInt n \<Rightarrow> (Some n, None)
      | OtherValue \<Rightarrow> (b, Some (OtherError ''unsupported type for BigInt'')))"

subsection \<open>Uint256\<close>

definition NewUint256FromString :: "(string \<Rightarrow> go_error + u256) \<Rightarrow> string \<Rightarrow> u256 option \<times> bool" where
  "NewUint256FromString from_decimal s = (case from_decimal s of Inl e \<Rightarrow> (None, False) | Inr u \<Rightarrow> (Some u, True))"

definition Uint256_Value :: "u256 option \<Rightarrow> string" where
  "Uint256_Value u = (case u of None \<Rightarrow> ''0'' | Some w \<Rightarrow> dec_nat (unat w))"

definition Uint256_scan_text :: "(int \<Rightarrow> u256 \<times> bool) \<Rightarrow> (string \<Rightarrow> go_error + u256) \<Rightarrow> string \<Rightarrow> u256 option \<Rightarrow> u256 option \<times> go_error option" where
  "Uint256_scan_text from_big from_decimal s u =
     (if \<exists>c \<in> set s. is_exp_char c
      then (case scan_scientific s of
              Inl e \<Rightarrow> (u, Some e)
            | Inr n \<Rightarrow> (let (w, overflow) = from_big n in
                (Some w, if overflow then Some (OtherError ''value overflows uint256'') else None)))
      else (case from_decimal s of
              Inl e \<Rightarrow> (None, Some (Wrapped ''failed to convert to Uint256'' e))
            | Inr w \<Rightarrow> (Some w, None)))"

definition Uint256_Scan :: "(int \<Rightarrow> u256 \<times> bool) \<Rightarrow> (string \<Rightarrow> go_error + u256) \<Rightarrow> driver_value \<Rightarrow> u256 option \<Rightarrow> u256 option \<times> go_error option" where
  "Uint256_Scan from_big from_decimal v u =
     (case v of
        Null \<Rightarrow> (Some 0, None)
      | Bytes s \<Rightarrow> Uint256_scan_text from_big from_decimal s u
      | Text s \<Rightarrow> Uint256_scan_text from_big from_decimal s u
      | _ \<Rightarrow> (u, Some (OtherError ''unsupported type for Uint256'')))"

subsection \<open>Round trips\<close>

lemma set_dec_nat: "c \<in> set (dec_nat n) \<Longrightarrow> \<exists>d < 10. c = digit_char d"
proof (induction n rule: dec_nat.induct)
  case (1 n)
  have "\<exists>d < 10. digit_char (n mod 10) = digit_char d" by (rule exI [of _ "n mod 10"]) simp
  with 1 show ?case by (cases "n < 10") (auto simp: dec_nat.simps [of n])
qed

lemma digit_char_plain: "d < 10 \<Longrightarrow> \<not> is_exp_char (digit_char d) \<and> digit_char d \<notin> {CHR ''x'', CHR ''X'', CHR ''.'', CHR ''-'', CHR ''+''}"
  using of_char_digit_char [of d] by (auto simp: is_exp_char_def)

lemma dec_nat_plain:
  "c \<in> set (dec_nat n) \<Longrightarrow> \<not> is_exp_char c \<and> c \<noteq> CHR ''.'' \<and> c \<noteq> CHR ''-'' \<and> c \<noteq> CHR ''+'' \<and> c \<noteq> CHR ''x'' \<and> c \<noteq> CHR ''X''"
  using set_dec_nat [of c n] digit_char_plain by auto

lemma big_string_plain: "c \<in> set (big_string n) \<Longrightarrow> \<not> is_exp_char c \<and> c \<noteq> CHR ''x'' \<and> c \<noteq> CHR ''X''"
proof -
  assume "c \<in> set (big_string n)"
  then consider "c = CHR ''-''" | m where "c \<in> set (dec_nat m)" by (auto simp: big_string_def split: if_splits)
  then show ?thesis
  proof cases
    case 1
    then show ?thesis by (simp add: is_exp_char_def)
  next
    case 2
    then show ?thesis using dec_nat_plain by metis
  qed
qed

lemma plain_not_hex: "\<forall>c \<in> set s. c \<noteq> CHR ''x'' \<and> c \<noteq> CHR ''X'' \<Longrightarrow> \<not> is_hex s"
  by (auto simp: is_hex_def split: list.splits)

lemma scan_big_string [simp]: "scan_text (big_string n) = Inr n"
proof -
  have "\<not> is_hex (big_string n)" "\<not> (\<exists>c \<in> set (big_string n). is_exp_char c)"
    using big_string_plain plain_not_hex by blast+
  then show ?thesis by (simp add: scan_text_def)
qed

text \<open>
  (C23) A number of any sign and size survives its NUMERIC column: \<open>Scan\<close> reads the text that \<open>Value\<close> has
  written back as the same number, whether the driver delivers bytes or a string, a nil number
  comes back as zero, and different numbers have different texts.
\<close>

theorem numeric_column_round_trip:
  "BigInt_Scan (Bytes (BigInt_Value b)) c = (Some (case b of None \<Rightarrow> 0 | Some n \<Rightarrow> n), None)
    \<and> BigInt_Scan (Text (BigInt_Value b)) c = (Some (case b of None \<Rightarrow> 0 | Some n \<Rightarrow> n), None)
    \<and> NewBigIntFromString (BigInt_Value (Some m)) = (Some m, True)
    \<and> (BigInt_Value (Some m) = BigInt_Value (Some n) \<longleftrightarrow> m = n)"
proof -
  have zero: "scan_text ''0'' = Inr 0" by code_simp
  show ?thesis
    by (simp add: BigInt_Scan_def BigInt_Value_def NewBigIntFromString_def big_string_inj zero split: option.splits)
qed

text \<open>An amount comes back too, given that the package reads the decimal text of a 256-bit number.\<close>

lemma uint256_column_round_trip:
  assumes "\<And>w. from_decimal (dec_nat (unat w)) = Inr w"
  shows "Uint256_Scan from_big from_decimal (Text (Uint256_Value (Some w))) u = (Some w, None)"
proof -
  have "\<not> (\<exists>c \<in> set (dec_nat (unat w)). is_exp_char c)" using dec_nat_plain by blast
  then show ?thesis by (simp add: Uint256_Scan_def Uint256_Value_def Uint256_scan_text_def assms)
qed

subsection \<open>Scientific notation is exact for 64 significant bits\<close>

definition sig_shift :: "nat \<Rightarrow> nat" where
  "sig_shift n = floorlog 2 n - 64"

lemma round_even_1 [simp]: "round_even n (Suc 0) = n"
  by (simp add: round_even_def)

lemma round_even_exact:
  assumes "0 < b"
  shows "round_even n b * b = n \<longleftrightarrow> b dvd n"
proof
  assume "round_even n b * b = n"
  then show "b dvd n" by (metis dvd_triv_right)
next
  assume "b dvd n"
  with assms show "round_even n b * b = n" by (simp add: round_even_def)
qed

lemma float_int_whole: "float_int n 1 = Some (round_even n (2 ^ sig_shift n) * 2 ^ sig_shift n)"
  by (auto simp: float_int_def sig_shift_def Let_def)

lemma takeWhile_plain: "\<forall>c \<in> set xs. P c \<Longrightarrow> \<not> P y \<Longrightarrow> takeWhile P (xs @ y # ys) = xs \<and> dropWhile P (xs @ y # ys) = y # ys"
  by (simp add: takeWhile_append2 dropWhile_append2)

lemma split_sign_dec_nat: "split_sign (dec_nat n @ s) = (False, dec_nat n @ s)"
proof -
  obtain c cs where d: "dec_nat n = c # cs" by (cases "dec_nat n") auto
  then have "c \<noteq> CHR ''-'' \<and> c \<noteq> CHR ''+''" using dec_nat_plain [of c n] by simp
  then show ?thesis by (simp add: split_sign_def d)
qed

lemma parse_mantissa_dec_nat: "parse_mantissa (dec_nat n) = Some (n, 0)"
proof -
  have "\<forall>c \<in> set (dec_nat n). c \<noteq> CHR ''.''" using dec_nat_plain by blast
  then have w: "takeWhile (\<lambda>c. c \<noteq> CHR ''.'') (dec_nat n) = dec_nat n" "dropWhile (\<lambda>c. c \<noteq> CHR ''.'') (dec_nat n) = []"
    by (simp_all only: takeWhile_eq_all_conv dropWhile_eq_Nil_conv)
  show ?thesis unfolding parse_mantissa_def Let_def w by (simp add: parse_digits_dec_nat)
qed

lemma parse_float_scientific: "parse_float (dec_nat n @ CHR ''e'' # dec_nat k) = Some (False, n * 10 ^ k, 1)"
proof -
  have s: "takeWhile (\<lambda>c. \<not> is_exp_char c) (dec_nat n @ CHR ''e'' # dec_nat k) = dec_nat n"
    "dropWhile (\<lambda>c. \<not> is_exp_char c) (dec_nat n @ CHR ''e'' # dec_nat k) = CHR ''e'' # dec_nat k"
    using takeWhile_plain [of "dec_nat n" "\<lambda>c. \<not> is_exp_char c" "CHR ''e''" "dec_nat k"] dec_nat_plain
    by (auto simp: is_exp_char_def)
  have "parse_exponent (CHR ''e'' # dec_nat k) = Some (int k)"
    using split_sign_dec_nat [of k "[]"] by (simp add: parse_exponent_def parse_nat_def parse_digits_dec_nat)
  then show ?thesis by (simp add: parse_float_def split_sign_dec_nat s parse_mantissa_dec_nat)
qed

lemma scan_scientific_text:
  "scan_text (dec_nat n @ CHR ''e'' # dec_nat k)
     = Inr (int (round_even (n * 10 ^ k) (2 ^ sig_shift (n * 10 ^ k)) * 2 ^ sig_shift (n * 10 ^ k)))"
proof -
  have "\<not> is_hex (dec_nat n @ CHR ''e'' # dec_nat k)"
    by (rule plain_not_hex) (auto dest: dec_nat_plain)
  moreover have "\<exists>c \<in> set (dec_nat n @ CHR ''e'' # dec_nat k). is_exp_char c" by (simp add: is_exp_char_def)
  ultimately show ?thesis
    using float_int_whole [of "n * 10 ^ k"] by (simp add: scan_text_def scan_scientific_def parse_float_scientific)
qed

text \<open>
  A number in scientific notation is always accepted, but read exactly only if it has at most 64 significant
  bits: for \<open>n\<close> times ten to the \<open>k\<close> the value of the column is the number itself if and only if the
  bits beyond the 64 leading ones are all zero. Otherwise another number comes back without an
  error, although the branch exists so that no precision is lost.
\<close>

lemma scientific_column_exact_iff:
  "\<exists>m. BigInt_Scan (Text (dec_nat n @ CHR ''e'' # dec_nat k)) b = (Some m, None)
     \<and> (m = int (n * 10 ^ k) \<longleftrightarrow> 2 ^ (floorlog 2 (n * 10 ^ k) - 64) dvd n * 10 ^ k)"
  using round_even_exact [of "2 ^ sig_shift (n * 10 ^ k)" "n * 10 ^ k"]
  unfolding BigInt_Scan_def by (simp add: scan_scientific_text sig_shift_def flip: of_nat_mult of_nat_power)

end
