(* ===== verification/Simulators.thy ===== *)
theory Simulators
  imports Emulator Columns
begin

section \<open>Generators of traffic (pro\_simulator.go, simulator\_factory.go, defi\_simulator\_*.go)\<close>

text \<open>
  On the local chain the program can produce traffic itself: \<open>ProSimulator\<close> sends real transactions from the accounts of
  the development node, \<open>SyntheticTransferInjector\<close> and \<open>DeFiSimulator\<close> make up transfers and put them into a channel.

  \<^item> Random numbers are a list of draws that is used up; a failed draw counts as 0, as in \<open>secureIntn\<close>. Floating-point
    amounts are exact rationals.
  \<^item> The node's answers are arguments. The mutex of an account is held for the whole action, so that
    the actions of one account follow one another.
\<close>

fun intn :: "nat \<Rightarrow> nat list \<Rightarrow> nat \<times> nat list" where
  "intn n rs = (if n = 0 then (0, rs) else case rs of [] \<Rightarrow> (0, []) | r # rs' \<Rightarrow> (r mod n, rs'))"

declare intn.simps [simp del]

lemma intn_less: "0 < n \<Longrightarrow> fst (intn n rs) < n"
  by (auto simp: intn.simps split: list.splits)

text \<open>\<open>s[secureIntn(len(s))]\<close>; an empty slice is an index out of range.\<close>

definition pick :: "'a list \<Rightarrow> nat list \<Rightarrow> ('a \<times> nat list) go" where
  "pick xs rs = (case intn (length xs) rs of (i, rs1) \<Rightarrow> if i < length xs then Ret (xs ! i, rs1) else Panic)"

lemma pick_Ret: "xs \<noteq> [] \<Longrightarrow> \<exists>x rs1. pick xs rs = Ret (x, rs1) \<and> x \<in> set xs"
  using intn_less [of "length xs" rs] by (auto simp: pick_def split: prod.splits)

text \<open>\<open>common.HexToAddress\<close> on valid hexadecimal text: the last 20 bytes.\<close>

definition hex_value :: "char \<Rightarrow> nat" where
  "hex_value c = (case hex_digit c of None \<Rightarrow> 0 | Some d \<Rightarrow> d)"

fun hex_pairs :: "string \<Rightarrow> byte_list" where
  "hex_pairs (a # b # cs) = of_nat (16 * hex_value a + hex_value b) # hex_pairs cs"
| "hex_pairs _ = []"

definition HexToAddress :: "string \<Rightarrow> byte_list" where
  "HexToAddress s =
     (let h = (if is_hex s then drop 2 s else s); b = hex_pairs (if odd (length h) then CHR ''0'' # h else h)
      in LeftPadBytes (drop (length b - 20) b) 20)"

subsection \<open>Transactions of the development accounts (pro\_simulator.go)\<close>

record simAccount =
  sa_addr :: byte_list
  sa_nonce :: u64

record TokenInfo =
  tok_Address :: byte_list
  tok_Symbol :: string
  tok_Decimals :: nat

record ProSimulator =
  pro_enabled :: bool
  pro_tps :: int
  pro_tokens :: "TokenInfo list"
  pro_accounts :: "simAccount list"
  pro_client :: bool

definition token :: "string \<Rightarrow> string \<Rightarrow> nat \<Rightarrow> TokenInfo" where
  "token a s d = \<lparr>tok_Address = HexToAddress a, tok_Symbol = s, tok_Decimals = d\<rparr>"

definition NewProSimulator :: "bool \<Rightarrow> bool \<Rightarrow> int \<Rightarrow> ProSimulator" where
  "NewProSimulator dialled enabled tps =
     \<lparr>pro_enabled = enabled, pro_tps = tps,
      pro_tokens = [token ''0xA0b86991c6218b36c1d19D4a2e9Eb0cE3606eB48'' ''USDC'' 6, token ''0xdAC17F958D2ee523a2206206994597C13D831ec7'' ''USDT'' 6,
        token ''0x2260FAC5E5542a773Aa44fBCfeDf7C193bc2C599'' ''WBTC'' 8, token ''0xC02aaA39b223FE8D0A0e5C4F27eAD9083C756Cc2'' ''WETH'' 18],
      pro_accounts = map (\<lambda>a. \<lparr>sa_addr = HexToAddress a, sa_nonce = 0\<rparr>)
        [''0xf39Fd6e51aad88F6F4ce6aB8827279cffFb92266'', ''0x70997970C51812dc3A010C7d01b50e0d17dc79ee'',
         ''0x3C44CdDdB6a900fa2b585dd299e03d12FA4293BC''],
      pro_client = dialled\<rparr>"

text \<open>
  \<open>Start\<close> reads the nonces and then starts the ticker. A rate of zero divides by zero, a
  negative one makes \<open>NewTicker\<close> panic. \<open>None\<close> says that nothing was started.
\<close>

definition Pro_Start :: "(go_error + u64) list \<Rightarrow> ProSimulator \<Rightarrow> ProSimulator option go" where
  "Pro_Start nonces s =
     (if \<not> pro_enabled s \<or> \<not> pro_client s then Ret None
      else if pro_tps s \<le> 0 then Panic
      else Ret (Some (s\<lparr>pro_accounts :=
        map2 (\<lambda>acc r. case r of Inl _ \<Rightarrow> acc | Inr n \<Rightarrow> acc\<lparr>sa_nonce := n\<rparr>) (pro_accounts s) nonces\<rparr>)))"

record pro_tx = Transaction +
  tx_value :: int

text \<open>\<open>formatAmount\<close>; its products are exact for the amounts below 500 and the decimals of the tokens.\<close>

definition formatAmount :: "nat \<Rightarrow> nat \<Rightarrow> nat" where
  "formatAmount amount decimals = amount * 10 ^ decimals"

definition call_tx :: "u64 \<Rightarrow> byte_list option \<Rightarrow> int \<Rightarrow> u64 \<Rightarrow> byte_list \<Rightarrow> pro_tx" where
  "call_tx nonce to value gas data =
     \<lparr>tx_nonce = nonce, tx_to = to, tx_gas = gas, tx_gas_price = 1000000000, tx_data = data, tx_value = value\<rparr>"

definition sendETH :: "ProSimulator \<Rightarrow> u64 \<Rightarrow> nat list \<Rightarrow> (pro_tx \<times> nat list) go" where
  "sendETH s nonce rs =
     go_bind (pick (pro_accounts s) rs) (\<lambda>(to, rs1).
       case intn 10 rs1 of (r, rs2) \<Rightarrow> Ret (call_tx nonce (Some (sa_addr to)) (int (1 + r) * 10 ^ 15) 21000 [], rs2))"

definition transferERC20 :: "ProSimulator \<Rightarrow> u64 \<Rightarrow> nat list \<Rightarrow> (pro_tx \<times> nat list) go" where
  "transferERC20 s nonce rs =
     go_bind (pick (pro_tokens s) rs) (\<lambda>(tok, rs1).
       go_bind (pick (pro_accounts s) rs1) (\<lambda>(to, rs2).
         case intn 490 rs2 of (r, rs3) \<Rightarrow>
           Ret (call_tx nonce (Some (tok_Address tok)) 0 100000
                  (transfer_data (sa_addr to) (formatAmount (10 + r) (tok_Decimals tok))), rs3)))"

definition approve_data :: "byte_list \<Rightarrow> byte_list" where
  "approve_data spender = [0x09, 0x5e, 0xa7, 0xb3] @ LeftPadBytes spender 32 @ replicate 32 0xff"

definition approve :: "ProSimulator \<Rightarrow> u64 \<Rightarrow> nat list \<Rightarrow> (pro_tx \<times> nat list) go" where
  "approve s nonce rs =
     go_bind (pick (pro_tokens s) rs) (\<lambda>(tok, rs1).
       go_bind (pick (pro_accounts s) rs1) (\<lambda>(spender, rs2).
         Ret (call_tx nonce (Some (tok_Address tok)) 0 100000 (approve_data (sa_addr spender)), rs2)))"

definition deployDummy :: "u64 \<Rightarrow> pro_tx" where
  "deployDummy nonce =
     call_tx nonce None 0 500000 (hex_pairs ''6080604052348015600f57600080fd5b50603e80601d6000396000f3fe6080604052600080fd'')"

text \<open>What happens to the signed transaction, and the node's answer when the nonce is read again.\<close>

record pro_env =
  pe_send :: "go_error option"
  pe_nonce :: "go_error + u64"

definition chaos_tx :: "ProSimulator \<Rightarrow> u64 \<Rightarrow> nat list \<Rightarrow> (pro_tx \<times> nat list) go" where
  "chaos_tx s nonce rs =
     (case intn 100 rs of (action, rs1) \<Rightarrow>
        if action < 15 then Ret (deployDummy nonce, rs1)
        else if action < 40 then sendETH s nonce rs1
        else if action < 60 then approve s nonce rs1
        else transferERC20 s nonce rs1)"

text \<open>One action; the second result is the transaction the node has accepted.\<close>

definition executeChaosAction :: "ProSimulator \<Rightarrow> pro_env \<Rightarrow> nat list \<Rightarrow> simAccount \<Rightarrow> (simAccount \<times> pro_tx option) go" where
  "executeChaosAction s E rs acc =
     go_bind (chaos_tx s (sa_nonce acc) rs) (\<lambda>(tx, rs1).
       case pe_send E of
         None \<Rightarrow> Ret (acc\<lparr>sa_nonce := sa_nonce acc + 1\<rparr>, Some tx)
       | Some err \<Rightarrow>
           if contains (error_text err) ''nonce too low''
           then Ret ((case pe_nonce E of Inl _ \<Rightarrow> acc | Inr n \<Rightarrow> acc\<lparr>sa_nonce := n\<rparr>), None)
           else Ret (acc, None))"

fun chaos_run :: "ProSimulator \<Rightarrow> (pro_env \<times> nat list) list \<Rightarrow> simAccount \<Rightarrow> (simAccount \<times> pro_tx list) go" where
  "chaos_run s [] acc = Ret (acc, [])"
| "chaos_run s ((E, rs) # Es) acc =
     go_bind (executeChaosAction s E rs acc) (\<lambda>(acc1, tx).
       go_bind (chaos_run s Es acc1) (\<lambda>(acc2, txs). Ret (acc2, (case tx of None \<Rightarrow> [] | Some t \<Rightarrow> [t]) @ txs)))"

subsection \<open>Made-up transfers\<close>

record SynthesizedTransfer =
  sy_TxHash :: byte_list
  sy_BlockNumber :: u64
  sy_TokenAddress :: byte_list
  sy_From :: byte_list
  sy_To :: byte_list
  sy_Amount :: nat

definition BytesToHash :: "byte_list \<Rightarrow> byte_list" where
  "BytesToHash b = LeftPadBytes (drop (length b - 32) b) 32"

subsubsection \<open>The injector (simulator\_factory.go)\<close>

definition mockTokens :: "byte_list list" where
  "mockTokens = map HexToAddress [''0xA0b86991c6218b36c1d19D4a2e9Eb0cE3606eB48'', ''0xdAC17F958D2ee523a2206206994597C13D831ec7'',
     ''0x2260FAC5E5542a773Aa44fBCfeDf7C193bc2C599'']"

definition mockWallets :: "byte_list list" where
  "mockWallets = map HexToAddress [''0x70997970C51812dc3A010C7d01b50e0d17dc79ee'', ''0x3C44CdDdB6a900fa2b585dd299e03d12FA4293BC'',
     ''0x90F79bf6EB2c4f870365E785982E1f101E93b906'', ''0x15d34AAf54267DB7D7c367839AAf71A00a2C6A65'']"

text \<open>
  The recipient is drawn until it differs from the sender. The loop has no other exit: as long as the draws
  repeat the sender it goes on, and the result is \<open>None\<close> when they are used up.
\<close>

fun draw_other :: "byte_list \<Rightarrow> byte_list \<Rightarrow> nat list \<Rightarrow> (byte_list \<times> nat list) option" where
  "draw_other from to rs =
     (if to \<noteq> from then Some (to, rs)
      else case rs of [] \<Rightarrow> None | r # rs1 \<Rightarrow> draw_other from (mockWallets ! (r mod length mockWallets)) rs1)"

declare draw_other.simps [simp del]

definition generateMockTransfer :: "go_error + u64 \<Rightarrow> int \<Rightarrow> nat list \<Rightarrow> SynthesizedTransfer option option" where
  "generateMockTransfer header seqNum rs =
     (case intn (length mockTokens) rs of (t, rs1) \<Rightarrow>
      case intn (length mockWallets) rs1 of (f, rs2) \<Rightarrow>
      case intn (length mockWallets) rs2 of (g, rs3) \<Rightarrow>
        (case draw_other (mockWallets ! f) (mockWallets ! g) rs3 of
           None \<Rightarrow> None
         | Some (to, rs4) \<Rightarrow>
             (case intn 1000 rs4 of (r, rs5) \<Rightarrow>
                Some (case header of
                  Inl e \<Rightarrow> None
                | Inr n \<Rightarrow> Some \<lparr>sy_TxHash = BytesToHash [0, word_of_int seqNum], sy_BlockNumber = n, sy_TokenAddress = mockTokens ! t,
                    sy_From = mockWallets ! f, sy_To = to, sy_Amount = (r + 1) * 1000000000\<rparr>))))"

subsubsection \<open>The DeFi generator (defi\_simulator\_*.go)\<close>

definition defi_tokens :: "TokenInfo list" where
  "defi_tokens = [token ''0xA0b86991c6218b36c1d19D4a2e9Eb0cE3606eB48'' ''USDC'' 6, token ''0xdAC17F958D2ee523a2206206994597C13D831ec7'' ''USDT'' 6,
     token ''0x2260FAC5E5542a773Aa44fBCfeDf7C193bc2C599'' ''WBTC'' 8, token ''0xC02aaA39b223FE8D0A0e5C4F27eAD9083C756Cc2'' ''WETH'' 18,
     token ''0x6B175474E89094C44Da98b954EedeAC495271d0F'' ''DAI'' 18]"

definition arbitrageBots :: "byte_list list" where
  "arbitrageBots = map HexToAddress [''0x742d35Cc6634C0532925a3b844Bc9e7595f0bEb0'', ''0x5615dEb798BB3E4dFa01397d0Db2C6b0404A38D7'',
     ''0x3f5CE5FBFe3E9af3971dD833D26bA9b5C936f0bE'']"

definition user_addresses :: "byte_list list" where
  "user_addresses = map HexToAddress [''0xf39Fd6e51aad88F6F4ce6aB8827279cffFb92266'', ''0x70997970C51812dc3A010C7d01b50e0d17dc79C8'',
     ''0x3C44CdDdB6a900fa2b585dd299e03d12FA4293BC'', ''0x90F79bf6EB2c4f870365E785982E1f101E93b906'',
     ''0x15d34AAf54267DB7D7c367839AAf71A00a2C6A65'']"

definition uniswapV3Router :: byte_list where
  "uniswapV3Router = HexToAddress ''0xE592427A0AEce92De3Edee1F18E0157C05861564''"

definition balancerVault :: byte_list where
  "balancerVault = HexToAddress ''0xBA12222222228d8Ba445958a75a0704d566BF2C8''"

definition aaveV3Pool :: byte_list where
  "aaveV3Pool = HexToAddress ''0x87870Bca3F3fD6335C3F4ce8392D69350B4fA4E2''"

text \<open>\<open>ev\<close> and \<open>f\<close> are the exponential and the uniform random number.\<close>

definition generatePowerLawAmount :: "rat \<Rightarrow> rat \<Rightarrow> nat \<Rightarrow> nat" where
  "generatePowerLawAmount ev f decimals =
     (let magnitude = (if ev < 7 / 10 then 1 + f * 99 else if ev < 95 / 100 then 100 + f * 9900 else 10000 + f * 990000)
      in nat \<lfloor>(of_int \<lfloor>magnitude\<rfloor> * 10 ^ 18 / 10 ^ decimals :: rat)\<rfloor>)"

text \<open>\<open>generateLargeAmount\<close>, \<open>generateMegaAmount\<close> and \<open>generateMediumAmount\<close> differ in their base.\<close>

definition scaled_amount :: "rat \<Rightarrow> rat \<Rightarrow> rat \<Rightarrow> nat \<Rightarrow> nat" where
  "scaled_amount low width f decimals = nat \<lfloor>(low + f * width) * 10 ^ decimals\<rfloor>"

definition generateLargeAmount :: "rat \<Rightarrow> nat \<Rightarrow> nat" where
  "generateLargeAmount = scaled_amount 10000 90000"

definition generateMegaAmount :: "rat \<Rightarrow> nat \<Rightarrow> nat" where
  "generateMegaAmount = scaled_amount 100000 900000"

definition generateMediumAmount :: "rat \<Rightarrow> nat \<Rightarrow> nat" where
  "generateMediumAmount = scaled_amount 1000 9000"

definition generateTxHash :: "u64 \<Rightarrow> int \<Rightarrow> string \<Rightarrow> byte_list" where
  "generateTxHash bn seqNum ty =
     BytesToHash ([ucast (drop_bit 24 bn), ucast (drop_bit 16 bn), ucast (drop_bit 8 bn), ucast bn, word_of_int seqNum, of_nat (length ty)]
       @ replicate 26 0)"

definition synth :: "u64 \<Rightarrow> int \<Rightarrow> string \<Rightarrow> TokenInfo \<Rightarrow> byte_list \<Rightarrow> byte_list \<Rightarrow> nat \<Rightarrow> SynthesizedTransfer" where
  "synth bn seqNum ty tok from to amount =
     \<lparr>sy_TxHash = generateTxHash bn seqNum ty, sy_BlockNumber = bn, sy_TokenAddress = tok_Address tok, sy_From = from, sy_To = to, sy_Amount = amount\<rparr>"

definition generateSwapTransfer :: "rat \<Rightarrow> rat \<Rightarrow> u64 \<Rightarrow> int \<Rightarrow> nat list \<Rightarrow> SynthesizedTransfer go" where
  "generateSwapTransfer ev f bn seqNum rs =
     go_bind (pick defi_tokens rs) (\<lambda>(tok, rs1). go_bind (pick user_addresses rs1) (\<lambda>(from, rs2).
       Ret (synth bn seqNum ''SWAP'' tok from uniswapV3Router (generatePowerLawAmount ev f (tok_Decimals tok)))))"

definition generateArbitrageTransfer :: "rat \<Rightarrow> u64 \<Rightarrow> int \<Rightarrow> nat list \<Rightarrow> SynthesizedTransfer go" where
  "generateArbitrageTransfer f bn seqNum rs =
     go_bind (pick arbitrageBots rs) (\<lambda>(bot, rs1). go_bind (pick defi_tokens rs1) (\<lambda>(tok, rs2).
       Ret (synth bn seqNum ''ARBITRAGE'' tok bot uniswapV3Router (generateLargeAmount f (tok_Decimals tok)))))"

definition generateFlashloanTransfer :: "rat \<Rightarrow> u64 \<Rightarrow> int \<Rightarrow> nat list \<Rightarrow> SynthesizedTransfer go" where
  "generateFlashloanTransfer f bn seqNum rs =
     go_bind (pick defi_tokens rs) (\<lambda>(tok, rs1).
       Ret (synth bn seqNum ''FLASHLOAN'' tok aaveV3Pool balancerVault (generateMegaAmount f (tok_Decimals tok))))"

definition generateMEVTransfer :: "rat \<Rightarrow> u64 \<Rightarrow> int \<Rightarrow> nat list \<Rightarrow> SynthesizedTransfer go" where
  "generateMEVTransfer f bn seqNum rs =
     go_bind (pick arbitrageBots rs) (\<lambda>(bot, rs1).
       Ret (synth bn seqNum ''MEV'' (defi_tokens ! 3) bot uniswapV3Router (generateMediumAmount f (tok_Decimals (defi_tokens ! 3)))))"

definition generateDeFiTransfer :: "go_error + u64 \<Rightarrow> rat \<Rightarrow> rat \<Rightarrow> int \<Rightarrow> nat list \<Rightarrow> SynthesizedTransfer option go" where
  "generateDeFiTransfer header ev f seqNum rs =
     (case header of
        Inl e \<Rightarrow> Ret None
      | Inr bn \<Rightarrow>
          (case intn 100 rs of (txType, rs1) \<Rightarrow>
             go_bind (if txType < 60 then generateSwapTransfer ev f bn seqNum rs1
                      else if txType < 80 then generateArbitrageTransfer f bn seqNum rs1
                      else if txType < 90 then generateFlashloanTransfer f bn seqNum rs1
                      else generateMEVTransfer f bn seqNum rs1) (\<lambda>t. Ret (Some t))))"

text \<open>The sequence numbers of a tick of \<open>Start\<close> with the default batch size of 5.\<close>

definition tick_seqs :: "nat \<Rightarrow> nat \<Rightarrow> int list" where
  "tick_seqs batchSize batchCount = map (\<lambda>i. int (batchCount * 10 + i)) [0..<batchSize]"

subsection \<open>Nonces of the development accounts\<close>

lemma chaos_tx_Ret:
  assumes "pro_accounts s \<noteq> []" "pro_tokens s \<noteq> []"
  shows "\<exists>tx rs1. chaos_tx s n rs = Ret (tx, rs1) \<and> tx_nonce tx = n"
proof -
  have "\<exists>tx rs1. sendETH s n rs = Ret (tx, rs1) \<and> tx_nonce tx = n" for rs
  proof -
    obtain a rs1 where "pick (pro_accounts s) rs = Ret (a, rs1)" using pick_Ret [OF assms(1)] by blast
    then show ?thesis by (cases "intn 10 rs1") (simp add: sendETH_def call_tx_def)
  qed
  moreover have "\<exists>tx rs1. approve s n rs = Ret (tx, rs1) \<and> tx_nonce tx = n" for rs
  proof -
    obtain t rs1 where "pick (pro_tokens s) rs = Ret (t, rs1)" using pick_Ret [OF assms(2)] by blast
    moreover obtain a rs2 where "pick (pro_accounts s) rs1 = Ret (a, rs2)" using pick_Ret [OF assms(1)] by blast
    ultimately show ?thesis by (simp add: approve_def call_tx_def)
  qed
  moreover have "\<exists>tx rs1. transferERC20 s n rs = Ret (tx, rs1) \<and> tx_nonce tx = n" for rs
  proof -
    obtain t rs1 where "pick (pro_tokens s) rs = Ret (t, rs1)" using pick_Ret [OF assms(2)] by blast
    moreover obtain a rs2 where "pick (pro_accounts s) rs1 = Ret (a, rs2)" using pick_Ret [OF assms(1)] by blast
    ultimately show ?thesis by (cases "intn 490 rs2") (simp add: transferERC20_def call_tx_def)
  qed
  moreover have "tx_nonce (deployDummy n) = n" by (simp add: deployDummy_def call_tx_def)
  ultimately show ?thesis by (auto simp: chaos_tx_def split: prod.splits)
qed

text \<open>
  An account wastes no nonce: whatever actions are drawn and whichever of them fail, the accepted
  transactions carry consecutive nonces from the first one on, as long as the node finds no nonce too low.
\<close>

lemma chaos_nonces_consecutive:
  assumes "pro_accounts s \<noteq> []" "pro_tokens s \<noteq> []"
    and "\<forall>(E, rs) \<in> set Es. \<forall>err. pe_send E = Some err \<longrightarrow> \<not> contains (error_text err) ''nonce too low''"
  shows "\<exists>acc' txs. chaos_run s Es acc = Ret (acc', txs) \<and> length txs = length (filter (\<lambda>(E, rs). pe_send E = None) Es)
    \<and> map tx_nonce txs = map (\<lambda>i. sa_nonce acc + of_nat i) [0..<length txs] \<and> sa_nonce acc' = sa_nonce acc + of_nat (length txs)"
  using assms(3)
proof (induction Es arbitrary: acc)
  case (Cons e Es)
  obtain E rs where e: "e = (E, rs)" by fastforce
  obtain tx rs1 where tx: "chaos_tx s (sa_nonce acc) rs = Ret (tx, rs1)" "tx_nonce tx = sa_nonce acc"
    using chaos_tx_Ret [OF assms(1,2)] by blast
  have rest: "\<forall>(E, rs) \<in> set Es. \<forall>err. pe_send E = Some err \<longrightarrow> \<not> contains (error_text err) ''nonce too low''"
    using Cons.prems by simp
  show ?case
  proof (cases "pe_send E")
    case None
    let ?acc = "acc\<lparr>sa_nonce := sa_nonce acc + 1\<rparr>"
    obtain acc' txs where run: "chaos_run s Es ?acc = Ret (acc', txs)" "length txs = length (filter (\<lambda>(E, rs). pe_send E = None) Es)"
      "map tx_nonce txs = map (\<lambda>i. sa_nonce ?acc + of_nat i) [0..<length txs]" "sa_nonce acc' = sa_nonce ?acc + of_nat (length txs)"
      using Cons.IH [OF rest, of ?acc] by blast
    have "executeChaosAction s E rs acc = Ret (?acc, Some tx)" using tx None by (simp add: executeChaosAction_def)
    moreover have "map (\<lambda>i. sa_nonce acc + of_nat i) [0..<Suc (length txs)] = sa_nonce acc # map (\<lambda>i. sa_nonce ?acc + of_nat i) [0..<length txs]"
      by (simp add: upt_conv_Cons map_Suc_upt [symmetric] comp_def ac_simps del: upt_Suc)
    ultimately show ?thesis using run tx(2) None by (simp add: e ac_simps del: upt_Suc)
  next
    case (Some err)
    then have "\<not> contains (error_text err) ''nonce too low''" using Cons.prems e by simp
    with tx Some have "executeChaosAction s E rs acc = Ret (acc, None)" by (simp add: executeChaosAction_def)
    with Cons.IH [OF rest, of acc] Some show ?thesis by (auto simp: e)
  qed
qed simp

subsection \<open>Made-up transfers\<close>

lemma draw_other_differs: "draw_other from to rs = Some (t, rs1) \<Longrightarrow> t \<noteq> from"
proof (induction "from" to rs rule: draw_other.induct)
  case (1 "from" to rs)
  then show ?case by (auto simp: draw_other.simps [of "from" to rs] split: if_splits list.splits)
qed

lemma mock_transfer_differs: "generateMockTransfer header seqNum rs = Some (Some t) \<Longrightarrow> sy_From t \<noteq> sy_To t"
  by (auto simp: generateMockTransfer_def dest!: draw_other_differs split: prod.splits option.splits sum.splits)

text \<open>The sequence numbers of the ticks never repeat, since a batch has at most ten transfers.\<close>

lemma tick_seqs_distinct: "k \<le> 10 \<Longrightarrow> distinct (concat (map (tick_seqs k) [0..<n]))"
proof (induction n)
  case (Suc n)
  have "x < int (n * 10)" if "x \<in> set (tick_seqs k m)" "m < n" for x m
    using that Suc.prems by (auto simp: tick_seqs_def)
  moreover have "int (n * 10) \<le> x" if "x \<in> set (tick_seqs k n)" for x using that by (auto simp: tick_seqs_def)
  moreover have "distinct (tick_seqs k n)" by (simp add: tick_seqs_def distinct_map inj_on_def)
  ultimately show ?case using Suc by fastforce
qed simp

text \<open>But their hashes do: only eight bits of the number and the length of the kind's name enter.\<close>

lemma synthetic_hashes_collide:
  "generateTxHash bn (seqNum + 256) ty = generateTxHash bn seqNum ty"
  "generateTxHash bn seqNum ''ARBITRAGE'' = generateTxHash bn seqNum ''FLASHLOAN''"
proof -
  have "(word_of_int (seqNum + 256) :: 8 word) = word_of_int seqNum" by (simp add: word_of_int_eq_iff)
  then show "generateTxHash bn (seqNum + 256) ty = generateTxHash bn seqNum ty" unfolding generateTxHash_def by (rule arg_cong)
qed (simp add: generateTxHash_def)

text \<open>
  The amounts of the swaps are scaled the wrong way round: divided by the token's unit instead of multiplied. A token with 18
  decimals moves less than a billionth of a unit, one with 6 decimals at least a million units.
\<close>

lemma power_law_scaled_wrongly:
  assumes "0 \<le> f" "f < 1"
  shows "generatePowerLawAmount ev f 18 \<le> 10 ^ 6" "10 ^ 12 \<le> generatePowerLawAmount ev f 6"
proof -
  define m where "m = (if ev < 7 / 10 then 1 + f * 99 else if ev < 95 / 100 then 100 + f * 9900 else 10000 + f * 990000)"
  have m: "1 \<le> m" "m \<le> 1000000" using assms by (auto simp: m_def)
  from floor_mono [OF m(1)] floor_mono [OF m(2)] have fl: "1 \<le> \<lfloor>m\<rfloor>" "\<lfloor>m\<rfloor> \<le> 1000000" by simp_all
  have g: "generatePowerLawAmount ev f d = nat \<lfloor>(of_int \<lfloor>m\<rfloor> * 10 ^ 18 / 10 ^ d :: rat)\<rfloor>" for d
    by (simp add: generatePowerLawAmount_def m_def Let_def)
  show "generatePowerLawAmount ev f 18 \<le> 10 ^ 6" unfolding g using fl(2) by (simp del: floor_le_numeral)
  have "(of_int \<lfloor>m\<rfloor> * 10 ^ 18 / 10 ^ 6 :: rat) = of_int (\<lfloor>m\<rfloor> * 10 ^ 12)" by simp
  then have "generatePowerLawAmount ev f 6 = nat (\<lfloor>m\<rfloor> * 10 ^ 12)" unfolding g by (simp only: floor_of_int)
  moreover have "nat (1 * 10 ^ 12) \<le> nat (\<lfloor>m\<rfloor> * 10 ^ 12)" using fl(1) by (intro nat_mono mult_right_mono) simp_all
  ultimately show "10 ^ 12 \<le> generatePowerLawAmount ev f 6" by simp
qed

end
