(* ===== verification/Telemetry.thy ===== *)
theory Telemetry
  imports Heights Simulators
begin

section \<open>Rates, counters and the token registry (tps\_monitor.go, metrics\_methods.go, token\_registry.go, cmd/indexer/monitor.go)\<close>

text \<open>
  Small keepers of readings. The instruments of the Prometheus client are counters, gauges and lists of observations under a name
  and its label values; floating-point rates are exact rationals.
\<close>

subsection \<open>The rate of the chain (tps\_monitor.go)\<close>

text \<open>\<open>math.Round\<close> of a value that is not negative, to two decimals.\<close>

definition round2 :: "rat \<Rightarrow> rat" where
  "round2 x = of_int \<lfloor>x * 100 + 1 / 2\<rfloor> / 100"

record ChainTPS =
  lastBlockTime :: u64
  lastTPS :: rat

definition NewChainTPS :: ChainTPS where
  "NewChainTPS = \<lparr>lastBlockTime = 0, lastTPS = 0\<rparr>"

definition CalculateChainTPS :: "u64 \<Rightarrow> nat \<Rightarrow> ChainTPS \<Rightarrow> ChainTPS \<times> rat" where
  "CalculateChainTPS currentTime txCount m =
     (if lastBlockTime m = 0 then (m\<lparr>lastBlockTime := currentTime\<rparr>, 0)
      else let d = currentTime - lastBlockTime m; m1 = m\<lparr>lastBlockTime := currentTime\<rparr> in
        if d = 0 then (m1, lastTPS m1)
        else let tps = round2 (of_nat txCount / of_int (uint d)) in (m1\<lparr>lastTPS := tps\<rparr>, tps))"

definition CalculateIngestionRate :: "nat \<Rightarrow> duration \<Rightarrow> rat" where
  "CalculateIngestionRate recordCount d =
     (if d = 0 then 0 else round2 (of_nat recordCount / (of_int d / of_int second)))"

text \<open>The reported rate is within half a hundredth of the number of transactions per second between two blocks.\<close>

lemma round2_close: "\<bar>round2 x - x\<bar> \<le> 1 / 200"
proof -
  define z where "z = (of_int \<lfloor>x * 100 + 1 / 2\<rfloor> :: rat)"
  have "z \<le> x * 100 + 1 / 2" "x * 100 + 1 / 2 < z + 1" unfolding z_def by linarith+
  moreover have "round2 x = z / 100" by (simp add: round2_def z_def)
  ultimately show ?thesis by linarith
qed

lemma chain_tps_accurate:
  assumes "lastBlockTime m \<noteq> 0" "lastBlockTime m < t"
  shows "\<bar>snd (CalculateChainTPS t n m) - of_nat n / of_int (uint t - uint (lastBlockTime m))\<bar> \<le> 1 / 200"
proof -
  have "t - lastBlockTime m \<noteq> 0" using assms(2) by auto
  moreover have "uint (t - lastBlockTime m) = uint t - uint (lastBlockTime m)" using assms(2) by (simp add: uint_diff_le)
  ultimately show ?thesis using assms(1) round2_close by (simp add: CalculateChainTPS_def Let_def)
qed

text \<open>A block whose time stamp lies before its predecessor's makes the unsigned difference wrap around, and the rate vanishes.\<close>

lemma earlier_block_rate_zero:
  assumes "lastBlockTime m \<noteq> 0" "t < lastBlockTime m" "uint (lastBlockTime m) - uint t < 2 ^ 63" "n < 2 ^ 32"
  shows "snd (CalculateChainTPS t n m) = 0"
proof -
  have u: "uint (t - lastBlockTime m) = 2 ^ 64 - (uint (lastBlockTime m) - uint t)"
    using assms(2) by (simp add: uint_sub_if' word_less_def)
  then have big: "2 ^ 63 \<le> uint (t - lastBlockTime m)" using assms(3) by simp
  then have nz: "t - lastBlockTime m \<noteq> 0" by auto
  let ?d = "of_int (uint (t - lastBlockTime m)) :: rat"
  have d: "2 ^ 63 \<le> ?d" using big by (metis of_int_le_iff of_int_numeral of_int_power)
  have "of_nat n < (2 ^ 32 :: rat)" using assms(4) by (metis of_nat_less_iff of_nat_numeral of_nat_power)
  then have "of_nat n * 200 < ?d" using d by simp
  then have "of_nat n / ?d * 100 + 1 / 2 < 1" using d by (simp add: field_simps)
  moreover have "0 \<le> of_nat n / ?d * 100 + 1 / 2" using d by simp
  ultimately have "\<lfloor>of_nat n / ?d * 100 + 1 / 2\<rfloor> = 0" by (simp add: floor_eq_iff)
  then have "round2 (of_nat n / ?d) = 0" by (simp only: round2_def)
  with assms(1) nz show ?thesis by (simp add: CalculateChainTPS_def Let_def)
qed

subsection \<open>The performance monitor (cmd/indexer/monitor.go)\<close>

record perf =
  lastTx :: u64
  lastBlock :: u64
  currentTPS :: u64
  currentBPS :: u64

text \<open>One tick, with the totals that \<open>Metrics.GetSnapshot\<close> delivers.\<close>

definition perf_tick :: "Metrics \<Rightarrow> perf \<Rightarrow> perf" where
  "perf_tick m p =
     (let currTx = totalTxProcessed m; currBlock = totalBlocksProcessed m;
          p1 = (if lastTx p > 0
                then p\<lparr>currentTPS := (currTx - lastTx p) div 2, currentBPS := (currBlock - lastBlock p) div 2\<rparr> else p)
      in p1\<lparr>lastTx := currTx, lastBlock := currBlock\<rparr>)"

text \<open>As long as no transaction has been counted, the block rate is not updated either.\<close>

lemma no_block_rate_without_transactions: "lastTx p = 0 \<Longrightarrow> currentBPS (perf_tick m p) = currentBPS p"
  by (simp add: perf_tick_def Let_def)

subsection \<open>Instruments (metrics\_methods.go)\<close>

type_synonym series = "string \<times> string list"

record instruments =
  counters :: "series \<Rightarrow> rat"
  gauges :: "series \<Rightarrow> rat"
  observed :: "(series \<times> rat) list"

definition inc :: "series \<Rightarrow> instruments \<Rightarrow> instruments" where
  "inc s i = i\<lparr>counters := (counters i)(s := counters i s + 1)\<rparr>"

definition set_gauge :: "series \<Rightarrow> rat \<Rightarrow> instruments \<Rightarrow> instruments" where
  "set_gauge s v i = i\<lparr>gauges := (gauges i)(s := v)\<rparr>"

definition observe :: "series \<Rightarrow> duration \<Rightarrow> instruments \<Rightarrow> instruments" where
  "observe s d i = i\<lparr>observed := observed i @ [(s, of_int d / of_int second)]\<rparr>"

definition RecordFetcherJobCompleted :: "duration \<Rightarrow> instruments \<Rightarrow> instruments" where
  "RecordFetcherJobCompleted d i = observe (''FetchTime'', []) d (inc (''FetcherJobsComplete'', []) i)"

definition RecordRPCRequest :: "string \<Rightarrow> string \<Rightarrow> duration \<Rightarrow> bool \<Rightarrow> instruments \<Rightarrow> instruments" where
  "RecordRPCRequest node rpc_method d success i =
     (let i1 = observe (''RPCLatency'', [node, rpc_method]) d (inc (''RPCRequestsTotal'', [node, rpc_method]) i)
      in if success then i1 else inc (''RPCRequestsFailed'', [node, rpc_method]) i1)"

definition RecordDBQuery :: "string \<Rightarrow> duration \<Rightarrow> bool \<Rightarrow> instruments \<Rightarrow> instruments" where
  "RecordDBQuery operation d success i =
     (let i1 = observe (''DBQueryLatency'', [operation]) d (inc (''DBQueriesTotal'', [operation]) i)
      in if success then i1 else inc (''DBErrors'', [operation]) i1)"

definition UpdateRPCHealthyNodes :: "string \<Rightarrow> int \<Rightarrow> instruments \<Rightarrow> instruments" where
  "UpdateRPCHealthyNodes pool count i = set_gauge (''RPCHealthyNodes'', [pool]) (of_int count) i"

definition UpdateDBPoolStats :: "int \<Rightarrow> int \<Rightarrow> int \<Rightarrow> instruments \<Rightarrow> instruments" where
  "UpdateDBPoolStats maxOpen idle inUse i =
     set_gauge (''DBPoolInUse'', []) (of_int inUse) (set_gauge (''DBPoolIdleConns'', []) (of_int idle) (set_gauge (''DBPoolMaxConns'', []) (of_int maxOpen) i))"

definition SetLabMode :: "bool \<Rightarrow> instruments \<Rightarrow> instruments" where
  "SetLabMode enabled i = set_gauge (''LabModeEnabled'', []) (if enabled then 1 else 0) i"

definition UpdateDBConnections :: "int \<Rightarrow> instruments \<Rightarrow> instruments" where
  "UpdateDBConnections count i = set_gauge (''DBConnectionsActive'', []) (of_int count) i"

definition UpdateDiskFree :: "rat \<Rightarrow> instruments \<Rightarrow> instruments" where
  "UpdateDiskFree freePercent i = set_gauge (''DiskFree'', []) freePercent i"

datatype metric_call = RPCRequest string string duration bool | DBQuery string duration bool | JobCompleted duration

fun metric_run :: "metric_call list \<Rightarrow> instruments \<Rightarrow> instruments" where
  "metric_run [] i = i"
| "metric_run (RPCRequest n m d ok # cs) i = metric_run cs (RecordRPCRequest n m d ok i)"
| "metric_run (DBQuery q d ok # cs) i = metric_run cs (RecordDBQuery q d ok i)"
| "metric_run (JobCompleted d # cs) i = metric_run cs (RecordFetcherJobCompleted d i)"

text \<open>Failures never outnumber requests, for every node and RPC call and for every kind of query.\<close>

lemma failures_bounded:
  assumes "\<And>l. counters i (''RPCRequestsFailed'', l) \<le> counters i (''RPCRequestsTotal'', l)"
    and "\<And>l. counters i (''DBErrors'', l) \<le> counters i (''DBQueriesTotal'', l)"
  shows "counters (metric_run cs i) (''RPCRequestsFailed'', l) \<le> counters (metric_run cs i) (''RPCRequestsTotal'', l)
    \<and> counters (metric_run cs i) (''DBErrors'', l) \<le> counters (metric_run cs i) (''DBQueriesTotal'', l)"
  using assms
proof (induction cs i rule: metric_run.induct)
  case (2 n m d ok cs i)
  show ?case unfolding metric_run.simps
    by (rule "2.IH") (use "2.prems" in \<open>auto simp: RecordRPCRequest_def inc_def observe_def Let_def add_increasing2\<close>)
next
  case (3 q d ok cs i)
  show ?case unfolding metric_run.simps
    by (rule "3.IH") (use "3.prems" in \<open>auto simp: RecordDBQuery_def inc_def observe_def Let_def add_increasing2\<close>)
next
  case (4 d cs i)
  show ?case unfolding metric_run.simps
    by (rule "4.IH") (use "4.prems" in \<open>auto simp: RecordFetcherJobCompleted_def inc_def observe_def\<close>)
qed simp

subsection \<open>The token registry (token\_registry.go)\<close>

type_synonym TokenRegistry = "(byte_list \<times> string) list"

definition NewTokenRegistry :: TokenRegistry where
  "NewTokenRegistry = map (\<lambda>(a, s). (HexToAddress a, s))
     [(''0xA0b86991c6218b36c1d19D4a2e9Eb0cE3606eB48'', ''USDC''), (''0xdAC17F958D2ee523a2206206994597C13D831ec7'', ''USDT''),
      (''0x4ECaBa5870353805a9F068101A40E0f32ed605C6'', ''USDC.e''), (''0x94a9D9AC8a22534E3FaCa9F4e7F2E2cf85d5E4C8'', ''USDC (Bridged)''),
      (''0xC02aaA39b223FE8D0A0e5C4F27eAD9083C756Cc2'', ''WETH''), (''0x2260FAC5E5542a773Aa44fBCfeDf7C193bc2C599'', ''WBTC''),
      (''0x40D16FC0246aD3160Ccc09B8D0e3D285429740Bf'', ''WSTETH''), (''0xCa14007Eff0dB1f8135f4C25B34De49AB0d42766'', ''WMATIC''),
      (''0x6B175474E89094C44Da98b954EedeAC495271d0F'', ''DAI''), (''0x1f9840a85d5aF5bf1D1762F925BDADdC4201F984'', ''UNI''),
      (''0x7Fc66500c84A76Ad7e9c93437bFc5Ac33E2DDaE9c'', ''LINK''), (''0xD533a949740bb3306d119CC777fa900bA034c52D'', ''CRV''),
      (''0xAE78736Cd615f374D08aDFc44B9E79b9bDCeEaeE'', ''rETH''), (''0x4d9F916011233A8a94F9575c019c0C24e6D2F2b2'', ''stETH''),
      (''0x8c1EEdC876be49809e03EB08396afbc93EB376365'', ''wBETH''), (''0xF1f3eaA94e9a809B86c91baddaC0249a919C238C'', ''wsepETH''),
      (''0x7b79995e5f793A07Bc00c21412e50Ecae098E7f9'', ''sepolINK''), (''0x0000000000000000000000000000000000000000'', ''ETH''),
      (''0x4200000000000000000000000000000000000006'', ''WETH.op'')]"

text \<open>\<open>hex\<close> is the checksummed text of an address (package go-ethereum).\<close>

definition Registry_GetSymbol :: "(byte_list \<Rightarrow> string) \<Rightarrow> byte_list \<Rightarrow> TokenRegistry \<Rightarrow> string" where
  "Registry_GetSymbol hex a r = (case map_of r a of Some s \<Rightarrow> s | None \<Rightarrow> take 10 (hex a) @ ''...'')"

definition Register :: "byte_list \<Rightarrow> string \<Rightarrow> TokenRegistry \<Rightarrow> TokenRegistry" where
  "Register a s r = AList.update a s r"

lemma register_lookup: "Registry_GetSymbol hex b (Register a s r) = (if b = a then s else Registry_GetSymbol hex b r)"
  by (simp add: Registry_GetSymbol_def Register_def update_conv')

text \<open>
  Two of the registered texts have 41 digits. The address taken from them loses its first digit, so that the entry belongs to
  another address than any that starts as its text does.
\<close>

lemma registry_entry_displaced:
  "HexToAddress ''0x7Fc66500c84A76Ad7e9c93437bFc5Ac33E2DDaE9c'' = HexToAddress ''0xFc66500c84A76Ad7e9c93437bFc5Ac33E2DDaE9c''"
  by code_simp

end
