(* ===== verification/Lifecycle.thy ===== *)
theory Lifecycle
  imports Services Schema Reorg Sinks Web_Hub Limiter Telemetry Pipeline
begin

section \<open>The life of the process (cmd/indexer/main\_core.go, main\_init.go, service\_manager.go)\<close>

text \<open>
  The composition of the start-up: connection pool, schema, RPC pool, network check, service manager, alignment,
  linearity check, lazy manager, start block, parent anchor and services, in the order of \<open>initEngine\<close>, with the early
  returns, the errors that are only logged, and the panics that the recovery around the initialisation catches. Then the
  modes of the program, the reporter beside the tail follower, and the order of the shutdown.
\<close>

subsection \<open>The connection pool\<close>

record db_pool =
  dp_maxOpen :: nat
  dp_maxIdle :: nat
  dp_warm :: nat

text \<open>The warm-up opens connections until one fails and gives them back; \<open>conn i\<close> says that opening number \<open>i\<close> succeeds.\<close>

fun warm_up :: "(nat \<Rightarrow> bool) \<Rightarrow> nat \<Rightarrow> nat \<Rightarrow> nat" where
  "warm_up conn i 0 = 0"
| "warm_up conn i (Suc k) = (if conn i then Suc (warm_up conn (Suc i) k) else 0)"

definition connectDB :: "go_error option \<Rightarrow> (nat \<Rightarrow> bool) \<Rightarrow> bool \<Rightarrow> go_error + db_pool" where
  "connectDB connect_err conn isLocalAnvil =
     (case connect_err of
        Some e \<Rightarrow> Inl e
      | None \<Rightarrow>
          (let maxConns = (if isLocalAnvil then 100 else 25)
           in Inr \<lparr>dp_maxOpen = maxConns, dp_maxIdle = maxConns, dp_warm = warm_up conn 0 maxConns\<rparr>))"

subsection \<open>The service manager\<close>

record ServiceManager =
  sm_fetcher :: Fetcher
  sm_Processor :: Processor
  sm_sink :: "Lz4Sink option"
  sm_chainID :: int

text \<open>
  \<open>make(chan T, n)\<close> panics for a negative \<open>n\<close>: the job queue has ten times the concurrency, the retry queue its configured
  size. The industrial limiter is built from \<open>rps\<close>. \<open>enricher\<close> is the enricher over the pool's metadata client.
\<close>

definition NewServiceManager ::
    "(string \<Rightarrow> string) \<Rightarrow> go_error option \<times> string \<Rightarrow> MetadataEnricher option \<Rightarrow> Metrics \<Rightarrow> Config \<Rightarrow> int \<Rightarrow> ServiceManager go" where
  "NewServiceManager env recording enricher met cfg tpsLimit =
     (let lim = NewRateLimiter env tpsLimit;
          industrial = \<lparr>rl_limit = Some (of_int (rl_rate lim)), rl_burst = rl_bucket lim\<rparr>;
          f = NewFetcherWithLimiter (nat (FetchConcurrency cfg)) industrial (wrap_i64 (tpsLimit * 2)) (env ''FETCHER_RESULTS_SIZE'');
          p = NewProcessor (nat (RetryQueueSize cfg)) (ChainID cfg) (EnableSimulator cfg) (NetworkMode cfg) enricher met;
          sink = (if EnableRecording cfg \<and> RecordingPath cfg \<noteq> []
                  then (case NewLz4Sink (fst recording) (snd recording) of Inl e \<Rightarrow> None | Inr s \<Rightarrow> Some s) else None)
      in if FetchConcurrency cfg < 0 \<or> RetryQueueSize cfg < 0 then Panic
         else Ret \<lparr>sm_fetcher = f, sm_Processor = p, sm_sink = sink, sm_chainID = ChainID cfg\<rparr>)"

text \<open>The status message for each snapshot that \<open>setupSubscriptions\<close> forwards to the hub.\<close>

record status_update =
  su_latest :: u64
  su_synced :: u64
  su_transfers :: u64
  su_eco :: bool
  su_progress :: rat
  su_state :: string
  su_updated :: time
  su_sync_lag :: u64

definition snapshot_update :: "CoordinatorState \<Rightarrow> status_update" where
  "snapshot_update s =
     \<lparr>su_latest = LatestHeight s, su_synced = SyncedCursor s, su_transfers = TransferCount s, su_eco = IsEcoMode s,
      su_progress = Progress s, su_state = SystemState_String (SystemState s), su_updated = UpdatedAt s,
      su_sync_lag = LatestHeight s - SyncedCursor s\<rparr>"

subsection \<open>Initialisation of the engine\<close>

text \<open>The answers that the initialisation gets from the database, the nodes and the file system.\<close>

record init_env =
  ie_now :: time
  ie_env :: "string \<Rightarrow> string"
  ie_connect :: "go_error option"
  ie_conn :: "nat \<Rightarrow> bool"
  ie_schema :: "go_error option"
  ie_dial :: "string \<Rightarrow> bool"
  ie_probe :: "string \<Rightarrow> bool"
  ie_verify :: "nat \<Rightarrow> go_error + (go_error + int)"
  ie_recording :: "go_error option \<times> string"
  ie_enricher :: "MetadataEnricher option"
  ie_align_head :: "go_error + int"
  ie_check_head :: "go_error + int"
  ie_start_head :: "go_error + int"
  ie_tip :: "go_error + int"
  ie_stmt :: "nat \<Rightarrow> go_error option"
  ie_db_up :: bool
  ie_parent :: "int \<Rightarrow> go_error + EthBlock option"

text \<open>\<open>ie_stmt\<close>: the outcome of the statements of alignment (0 to 2), linearity check (3 to 5) and reset (6).\<close>

record engine =
  eng_pool :: db_pool
  eng_rpc :: "EnhancedRPCClientPool + RPCClientPool"
  eng_manager :: ServiceManager
  eng_lazy :: LazyManager
  eng_oracle :: HeightOracle
  eng_status :: "guard_effect list"
  eng_start :: int
  eng_services :: "Processor services"

text \<open>The effects of the linearity check on the coordinator.\<close>

definition apply_guard :: "guard_effect list \<Rightarrow> Orchestrator \<Rightarrow> Orchestrator" where
  "apply_guard effs o' = fold (\<lambda>e q. case e of ForceCursors h \<Rightarrow> ForceSetCursors h q | _ \<Rightarrow> q) effs o'"

text \<open>
  The part of \<open>initEngine\<close> behind its early returns. Failures of the alignment and of the linearity check are logged and
  ignored. Subscription and hook come before the start block is determined.
\<close>

definition start_engine ::
    "init_env \<Rightarrow> Config \<Rightarrow> string \<Rightarrow> bool \<Rightarrow> db_pool \<Rightarrow> EnhancedRPCClientPool + RPCClientPool \<Rightarrow> Metrics \<Rightarrow> HeightOracle \<Rightarrow> Orchestrator \<Rightarrow> db
      \<Rightarrow> engine go" where
  "start_engine E cfg forceFrom resetDB pool rpc met oracle o' d =
     go_bind (NewServiceManager (ie_env E) (ie_recording E) (ie_enricher E) met cfg (engine_tps cfg)) (\<lambda>sm.
       let d1 = fst (AlignInfrastructure (ie_align_head E) (ie_stmt E 0) (ie_stmt E 1) (ie_stmt E 2) d)
       in go_bind (PerformLinearityCheck (DemoMode cfg) (ie_check_head E) (ie_stmt E 3) (ie_stmt E 4) (ie_stmt E 5) d1) (\<lambda>(d2, effs, err).
         let lm = init_fetcher cfg 0 (ie_now E) (sm_fetcher sm);
             p = (sm_Processor sm)\<lparr>p_events := Some []\<rparr>;
             (d3, r) = getStartBlockFromCheckpoint cfg (ie_start_head E) (ie_stmt E 6) (ie_db_up E) (ChainID cfg) forceFrom resetDB d2;
             start = start_block_of cfg r;
             d4 = setupParentAnchor (ie_parent E) (ie_db_up E) start d3
         in Ret \<lparr>eng_pool = pool, eng_rpc = rpc, eng_manager = sm\<lparr>sm_fetcher := lm_fetcher lm, sm_Processor := p\<rparr>, eng_lazy = lm,
              eng_oracle = oracle\<lparr>HeightOracle.StrictHeightCheck := Config.StrictHeightCheck cfg, HeightOracle.DriftTolerance := Config.DriftTolerance cfg\<rparr>,
              eng_status = effs, eng_start = start,
              eng_services = initServices cfg (ie_tip E) (ie_db_up E) (ie_now E) (lm_fetcher lm) p start d4
                (Subscribe (apply_guard effs o'))\<rparr>))"

text \<open>
  \<open>initEngine\<close> with its early returns: \<open>None\<close> when connection, schema, RPC pool or network check fail. The second component
  is the schema of the database.
\<close>

definition initEngine ::
    "init_env \<Rightarrow> Config \<Rightarrow> string \<Rightarrow> bool \<Rightarrow> Metrics \<Rightarrow> HeightOracle \<Rightarrow> Orchestrator \<Rightarrow> schema \<Rightarrow> db \<Rightarrow> (schema \<times> engine option) go" where
  "initEngine E cfg forceFrom resetDB met oracle o' sch d =
     (case connectDB (ie_connect E) (ie_conn E) (ChainID cfg = anvil_chain_id) of
        Inl e \<Rightarrow> Ret (sch, None)
      | Inr pool \<Rightarrow>
          (case InitSchema (ie_schema E) sch of
             (sch1, Some e) \<Rightarrow> Ret (sch1, None)
           | (sch1, None) \<Rightarrow>
               (case setupRPC (ie_env E) (ie_dial E) (ie_probe E) (ie_now E) cfg of
                  Inl e \<Rightarrow> Ret (sch1, None)
                | Inr rpc \<Rightarrow>
                    (case verifyNetworkWithRetry (ie_verify E) (ChainID cfg) of
                       Some e \<Rightarrow> Ret (sch1, None)
                     | None \<Rightarrow> go_bind (start_engine E cfg forceFrom resetDB pool rpc met oracle o' d) (\<lambda>eng. Ret (sch1, Some eng))))))"

text \<open>\<open>WithRecoveryNamed\<close> around it: a panic is reported to the hub and the program goes on without an engine.\<close>

definition WithRecoveryNamed :: "'a go \<Rightarrow> 'a option \<times> bool" where
  "WithRecoveryNamed r = (case r of Ret a \<Rightarrow> (Some a, False) | Panic \<Rightarrow> (None, True))"

subsection \<open>Modes, reporter and shutdown\<close>

text \<open>The hub of the process: on the local chain only the plain hub inside the throttled one is used.\<close>

definition setupWebSocketHub :: "time \<Rightarrow> Config \<Rightarrow> 'd ui_event Hub" where
  "setupWebSocketHub now cfg =
     (if ChainID cfg = anvil_chain_id then th_Hub (NewThrottledHub now (500 * millisecond) :: 'd ThrottledHub) else NewHub)"

text \<open>What the replay mode sets up before it runs the loop of theory \<open>Replay\<close>.\<close>

definition startReplayMode ::
    "go_error option \<Rightarrow> (nat \<Rightarrow> bool) \<Rightarrow> Config \<Rightarrow> string \<Rightarrow> Metrics \<Rightarrow> db \<Rightarrow> Orchestrator \<Rightarrow> go_error + (Processor \<times> AsyncWriter \<times> Orchestrator)" where
  "startReplayMode connect_err conn cfg replayFile met d o' =
     (if replayFile = [] then Inl (OtherError ''replay mode requires -file parameter'')
      else case connectDB connect_err conn (ChainID cfg = anvil_chain_id) of
        Inl e \<Rightarrow> Inl e
      | Inr pool \<Rightarrow>
          (let p = NewProcessor 100 (ChainID cfg) False ''replay'' None met;
               w = NewAsyncWriter d (EphemeralMode cfg) (ChainID cfg) (LatestHeight (GetSnapshot o'))
           in Inr (p, w, SetAsyncWriter (w_taskChan w) o')))"

text \<open>
  One tick of the reporter: connections, disk space, and the notice to the lazy manager when the highest stored block has
  grown. \<open>maxBlock\<close> is \<open>None\<close> when the query fails, \<open>free\<close> when the disk cannot be read.
\<close>

record db_stats =
  ds_open :: int
  ds_maxOpen :: int
  ds_inUse :: int
  ds_idle :: int

definition reporter_tick ::
    "time \<Rightarrow> db_stats \<Rightarrow> rat option \<Rightarrow> int option \<Rightarrow> int \<times> LazyManager option \<times> instruments
      \<Rightarrow> (int \<times> LazyManager option \<times> instruments) \<times> lazy_effect list" where
  "reporter_tick now st free maxBlock s =
     (case s of (prev, lm, i) \<Rightarrow>
       (let i1 = UpdateDBPoolStats (ds_maxOpen st) (ds_idle st) (ds_inUse st) (UpdateDBConnections (ds_open st) i);
            i2 = (case free of None \<Rightarrow> i1 | Some f \<Rightarrow> UpdateDiskFree f i1)
        in case maxBlock of
             None \<Rightarrow> ((prev, lm, i2), [])
           | Some m \<Rightarrow>
               if m > prev
               then (case lm of
                       None \<Rightarrow> ((m, None, i2), [])
                     | Some l \<Rightarrow> (let (l1, effs) = NotifyBlockProcessed now l in ((m, Some l1, i2), effs)))
               else ((prev, lm, i2), [])))"

text \<open>
  The end of \<open>run\<close>: the server stops, the cancelled context ends the hub, then the coordinator is cancelled and the writer
  shut down, whose loop sees its cancelled context.
\<close>

definition graceful_shutdown :: "'e Hub \<times> Orchestrator \<times> AsyncWriter \<Rightarrow> ('e Hub \<times> Orchestrator \<times> AsyncWriter) go" where
  "graceful_shutdown s =
     (case s of (h, o', w) \<Rightarrow>
       go_bind (Hub_stop h) (\<lambda>h1. Ret (h1, o'\<lparr>ctxDone := True\<rparr>, writer_run [(WDone, True)] (Shutdown w))))"

subsection \<open>Which start-ups succeed\<close>

text \<open>The only panics of the initialisation: a negative size in the configuration, or a leap of the demo mode over more than 100000 blocks.\<close>

lemma service_manager_panics_iff:
  "NewServiceManager env recording enricher met cfg t = Panic \<longleftrightarrow> FetchConcurrency cfg < 0 \<or> RetryQueueSize cfg < 0"
  by (simp add: NewServiceManager_def Let_def)

lemma linearity_check_returns: "\<not> demo \<Longrightarrow> PerformLinearityCheck demo head db_err prune_err cursor_err d \<noteq> Panic"
  by (simp add: PerformLinearityCheck_def Let_def split: sum.split option.split)

text \<open>Outside the demo mode the engine starts exactly when all stages before the alignment succeed.\<close>

lemma engine_starts_iff:
  assumes "\<not> DemoMode cfg" and "0 \<le> FetchConcurrency cfg" and "0 \<le> RetryQueueSize cfg"
  shows "(\<exists>sch' eng. initEngine E cfg forceFrom resetDB met oracle o' sch d = Ret (sch', Some eng)) \<longleftrightarrow>
    ie_connect E = None \<and> ie_schema E = None \<and> (\<exists>rpc. setupRPC (ie_env E) (ie_dial E) (ie_probe E) (ie_now E) cfg = Inr rpc)
    \<and> (\<exists>j < 15. ie_verify E j = Inr (Inr (ChainID cfg)))"
proof -
  have "\<exists>eng. start_engine E cfg forceFrom resetDB pool rpc met oracle o' d = Ret eng" for pool rpc
  proof -
    obtain sm where "NewServiceManager (ie_env E) (ie_recording E) (ie_enricher E) met cfg (engine_tps cfg) = Ret sm"
      using assms(2,3) service_manager_panics_iff [of "ie_env E" "ie_recording E" "ie_enricher E" met cfg "engine_tps cfg"]
      by (metis go.exhaust not_less)
    moreover obtain c where "PerformLinearityCheck (DemoMode cfg) (ie_check_head E) (ie_stmt E 3) (ie_stmt E 4) (ie_stmt E 5)
        (fst (AlignInfrastructure (ie_align_head E) (ie_stmt E 0) (ie_stmt E 1) (ie_stmt E 2) d)) = Ret c"
      using linearity_check_returns [OF assms(1)] by (metis go.exhaust)
    ultimately show ?thesis by (cases c) (simp add: start_engine_def Let_def split_beta)
  qed
  then obtain start where start: "\<And>pool rpc. start_engine E cfg forceFrom resetDB pool rpc met oracle o' d = Ret (start pool rpc)"
    by metis
  have checked: "verifyNetworkWithRetry (ie_verify E) (ChainID cfg) = None \<longleftrightarrow> (\<exists>j < 15. ie_verify E j = Inr (Inr (ChainID cfg)))"
    by (rule network_check_exact)
  show ?thesis
    unfolding initEngine_def start checked [symmetric]
    by (cases "verifyNetworkWithRetry (ie_verify E) (ChainID cfg)"; cases "ie_connect E"; cases "ie_schema E";
        cases "setupRPC (ie_env E) (ie_dial E) (ie_probe E) (ie_now E) cfg")
      (simp_all add: connectDB_def InitSchema_def Let_def)
qed

subsection \<open>Where the engine starts\<close>

lemma max_stored_anchor:
  assumes "GetMaxStoredBlock d \<le> h" and "start - 1 \<le> h"
  shows "GetMaxStoredBlock (setupParentAnchor answer up start d) \<le> h"
proof -
  have "GetMaxStoredBlock (insert_block r d) \<le> h" if "br_number r \<le> h" for r
    using assms(1) that by (auto simp: GetMaxStoredBlock_def insert_block_def split: if_splits)
  then show ?thesis
    using assms by (auto simp: setupParentAnchor_def anchor_row_def split: sum.splits option.splits)
qed

lemma checkpoints_anchor [simp]: "db_checkpoints (setupParentAnchor answer up start d) = db_checkpoints d"
  by (simp add: setupParentAnchor_def insert_block_def split: sum.split option.split)

text \<open>A database at most 1000 blocks behind the node and not ahead of it is left as it is by alignment and linearity check.\<close>

lemma alignment_idle:
  assumes "GetMaxStoredBlock d \<le> h" and "h \<le> GetMaxStoredBlock d + 1000" and "0 \<le> h" and "h \<le> max_i64"
  shows "fst (AlignInfrastructure (Inr h) db_err prune_err cursor_err d) = d"
    and "\<exists>effs err. PerformLinearityCheck demo (Inr h) db_err prune_err cursor_err d = Ret (d, effs, err) \<and> (\<forall>c. ForceCursors c \<notin> set effs)"
proof -
  have h: "wrap_i64 h = h" "wrap_i64 (h - GetMaxStoredBlock d) = h - GetMaxStoredBlock d"
    using assms by (simp_all add: wrap_i64_id min_i64_def max_i64_def)
  show "fst (AlignInfrastructure (Inr h) db_err prune_err cursor_err d) = d"
    using assms h by (simp add: AlignInfrastructure_def Let_def split: option.split)
  show "\<exists>effs err. PerformLinearityCheck demo (Inr h) db_err prune_err cursor_err d = Ret (d, effs, err) \<and> (\<forall>c. ForceCursors c \<notin> set effs)"
    using assms h by (simp add: PerformLinearityCheck_def Let_def split: option.split)
qed

lemma apply_guard_idle: "(\<forall>c. ForceCursors c \<notin> set effs) \<Longrightarrow> apply_guard effs o' = o'"
  by (induction effs) (auto simp: apply_guard_def split: guard_effect.split)

lemma anvil_alignment_idle:
  assumes "GetMaxStoredBlock d \<le> h" and "0 \<le> h" and "h \<le> max_i64"
  shows "AlignAnvilData (Inr h) q del upd d = d"
proof -
  have "uint (num_u64 h) = h" using assms(2,3) by (intro uint_num_u64) (simp_all add: max_i64_def)
  then show ?thesis
    using assms(1) by (auto simp: AlignAnvilData_def Let_def word_less_def u64_of_nat_uint)
qed


text \<open>An environment in which everything works and every node is at block 9.\<close>

definition sample_init :: init_env where
  "sample_init = \<lparr>ie_now = 0, ie_env = (\<lambda>_. []), ie_connect = None, ie_conn = (\<lambda>_. True), ie_schema = None, ie_dial = (\<lambda>_. True),
     ie_probe = (\<lambda>_. True), ie_verify = (\<lambda>_. Inr (Inr 1)), ie_recording = (None, []), ie_enricher = None, ie_align_head = Inr 9,
     ie_check_head = Inr 9, ie_start_head = Inr 9, ie_tip = Inr 9, ie_stmt = (\<lambda>_. None), ie_db_up = True, ie_parent = (\<lambda>_. Inr None)\<rparr>"

definition mainnet_config :: Config where
  "mainnet_config = plain_config\<lparr>IsTestnet := False\<rparr>"

lemma mainnet_config_fields:
  "ChainID mainnet_config = 1" "FetchConcurrency mainnet_config = 10" "RetryQueueSize mainnet_config = 500"
  "StartBlockStr mainnet_config = ''0''" "StartBlock mainnet_config = 0" "\<not> IsTestnet mainnet_config" "RPCURLs mainnet_config \<noteq> []"
  by (simp_all add: mainnet_config_def plain_config_def Load_def load_base_def split_list_def getEnv_def getEnvAsInt64_def ToLower_def Let_def)


subsection \<open>Gaps\<close>

text \<open>
  The gap check before the tail follower never finds a gap when the parent of the first block has been stored: the anchor is
  the highest block of the table.
\<close>

lemma anchor_hides_gap:
  assumes "answer (start - 1) = Inr (Some b)" and "0 < start" and "start \<le> max_i64" and "GetMaxStoredBlock d < max_i64"
  shows "catchup_range (Some (GetMaxStoredBlock (setupParentAnchor answer True start d))) start = None"
proof -
  let ?d = "setupParentAnchor answer True start d"
  have "start - 1 \<in> br_number ` set (db_blocks ?d)"
    using assms(1,2) by (auto simp: setupParentAnchor_def insert_block_def anchor_row_def)
  then have "start - 1 \<le> GetMaxStoredBlock ?d" by (auto simp: GetMaxStoredBlock_def)
  moreover have "GetMaxStoredBlock ?d \<le> max_i64 - 1"
    using assms(3,4) by (intro max_stored_anchor) simp_all
  ultimately show ?thesis
    using assms(2,3) by (simp add: catchup_range_def Let_def wrap_i64_id min_i64_def max_i64_def)
qed

text \<open>
  So a database more than 1000 blocks behind the node loses the gap for good, in every mode: the alignment moves the
  checkpoint to the block before the node's height, indexing starts at that height, no block between the highest stored one
  and the anchor is stored, and no catch-up is scheduled.
\<close>

lemma large_gap_never_indexed:
  assumes eng: "initEngine E cfg [] False met oracle o' sch d = Ret (sch', Some eng)"
    and plain: "StartBlockStr cfg \<noteq> ''latest''" "StartBlock cfg \<le> 0" "\<not> DemoMode cfg"
    and ans: "ie_align_head E = Inr h" "ie_check_head E = Inr h" "ie_tip E = Inr h" "ie_stmt E 0 = None" "ie_stmt E 2 = None"
      "ie_db_up E" "ie_parent E (h - 1) = Inr (Some b)"
    and gap: "0 \<le> GetMaxStoredBlock d" "GetMaxStoredBlock d + 1000 < h" "h \<le> max_i64"
    and ck: "map_of (db_checkpoints d) (ChainID cfg) = Some n"
  shows "eng_start eng = h \<and> expectedBlock (svc_sequencer (eng_services eng)) = h
    \<and> br_number ` set (db_blocks (svc_db (eng_services eng))) \<inter> {GetMaxStoredBlock d<..<h - 1} = {}
    \<and> catchup_range (Some (GetMaxStoredBlock (svc_db (eng_services eng)))) (eng_start eng) = None"
proof -
  let ?d1 = "UpdateSyncCursor (h - 1) d" and ?d4 = "setupParentAnchor (ie_parent E) True h (UpdateSyncCursor (h - 1) d)"
  have w: "wrap_i64 h = h" using gap by (simp add: wrap_i64_id min_i64_def)
  have m1: "GetMaxStoredBlock ?d1 = GetMaxStoredBlock d" "db_blocks ?d1 = db_blocks d"
    by (simp_all add: GetMaxStoredBlock_def UpdateSyncCursor_def set_all_checkpoints_def)
  have al: "fst (AlignInfrastructure (Inr h) None prune_err None d) = ?d1" for prune_err
    using gap w by (simp add: AlignInfrastructure_def Let_def)
  have chk: "\<exists>effs err. PerformLinearityCheck False (Inr h) db_err prune_err cursor_err ?d1 = Ret (?d1, effs, err)" for db_err prune_err cursor_err
    using gap w m1 by (simp add: PerformLinearityCheck_def Let_def split: option.split)
  then obtain effs err where chk: "PerformLinearityCheck False (Inr h) (ie_stmt E 3) (ie_stmt E 4) (ie_stmt E 5) ?d1 = Ret (?d1, effs, err)"
    by metis
  have "map_of (db_checkpoints ?d1) (ChainID cfg) = Some (h - 1)"
  proof -
    have "map_of (map (\<lambda>(c, m). (c, h - 1)) xs) (ChainID cfg) = Some (h - 1)" if "map_of xs (ChainID cfg) = Some n" for xs :: "(int \<times> int) list"
      using that by (induction xs) (auto split: if_splits)
    with ck show ?thesis by (simp add: UpdateSyncCursor_def set_all_checkpoints_def)
  qed
  then have start: "getStartBlockFromCheckpoint cfg latest reset_err True (ChainID cfg) [] False ?d1 = (?d1, Inr h)" for latest reset_err
    using start_from_checkpoint [OF plain(1,2)] by simp
  have max4: "GetMaxStoredBlock ?d4 \<le> h" using gap m1 by (intro max_stored_anchor) simp_all
  have parts: "eng_start eng = h" "expectedBlock (svc_sequencer (eng_services eng)) = h" "svc_db (eng_services eng) = ?d4"
    using eng anvil_alignment_idle [OF max4] gap
    by (auto simp: initEngine_def start_engine_def ans plain(3) al chk start start_block_of_def initServices_def NewSequencerWithFetcher_def Let_def
        split: sum.splits option.splits prod.splits)
  have "k \<le> GetMaxStoredBlock d" if "k \<in> br_number ` set (db_blocks d)" for k
    using that by (auto simp: GetMaxStoredBlock_def)
  moreover have "br_number ` set (db_blocks ?d4) \<subseteq> insert (h - 1) (br_number ` set (db_blocks d))"
    using ans(7) gap m1 by (auto simp: setupParentAnchor_def insert_block_def anchor_row_def)
  ultimately have "br_number ` set (db_blocks ?d4) \<inter> {GetMaxStoredBlock d<..<h - 1} = {}" by fastforce
  with parts anchor_hides_gap [of "ie_parent E" h b ?d1] ans(7) gap m1 show ?thesis by simp
qed

lemma replay_writer_mode:
  "startReplayMode connect_err conn cfg file met d o' = Inr (p, w, q) \<Longrightarrow> w_ephemeralMode w = EphemeralMode cfg"
  by (auto simp: startReplayMode_def NewAsyncWriter_def Let_def split: if_splits sum.splits)

text \<open>Every chain gets the plain hub.\<close>

lemma throttling_unused: "setupWebSocketHub now cfg = NewHub"
  by (simp add: setupWebSocketHub_def NewThrottledHub_def)

text \<open>After a rollback the blocks up to the highest one seen before are no activity for the lazy manager.\<close>

lemma reindexed_blocks_unnoticed:
  "m \<le> prev \<Longrightarrow> snd (reporter_tick now st free (Some m) (prev, lm, i)) = [] \<and> fst (snd (fst (reporter_tick now st free (Some m) (prev, lm, i)))) = lm"
  by (simp add: reporter_tick_def Let_def split: option.split)

text \<open>The lag of a status message is a huge number while the cursor is ahead of the known height.\<close>

lemma status_lag_wraps: "LatestHeight s < SyncedCursor s \<Longrightarrow> su_sync_lag (snapshot_update s) > LatestHeight s"
  using uint_lt2p [of "SyncedCursor s"] by (simp add: snapshot_update_def word_less_def uint_sub_if')

end
