(* ===== verification/Background.thy ===== *)
theory Background
  imports Lifecycle
begin

section \<open>Background goroutines and small operations of the components\<close>

text \<open>
  The loops that drive modelled operations from tickers (orchestrator\_api.go, self\_healing.go, watchdog\_deadlock.go,
  reconciler.go, rpc\_pool\_health.go), each as a fold over its events, the way of a snapshot from the coordinator to the
  clients of the hub, and readings and statements of components that their own theories do not need.
\<close>

subsection \<open>The broadcaster (orchestrator\_api.go)\<close>

datatype broadcast_event = TakeSnapshot | BroadcastTick

text \<open>
  The newest snapshot taken from the channel is kept, a tick offers it to all subscribers. Receiving from an empty channel
  waits, so the event does nothing then.
\<close>

fun broadcaster_step :: "broadcast_event \<Rightarrow> CoordinatorState \<times> Orchestrator \<Rightarrow> CoordinatorState \<times> Orchestrator" where
  "broadcaster_step TakeSnapshot (lastSnapshot, o') =
     (case items (broadcastCh o') of
        [] \<Rightarrow> (lastSnapshot, o')
      | s # rest \<Rightarrow> (s, o'\<lparr>broadcastCh := (broadcastCh o')\<lparr>items := rest\<rparr>\<rparr>))"
| "broadcaster_step BroadcastTick (lastSnapshot, o') =
     (lastSnapshot, if length (subscribers o') > 0 then broadcastSnapshot lastSnapshot o' else o')"

definition broadcaster :: "broadcast_event list \<Rightarrow> Orchestrator \<Rightarrow> CoordinatorState \<times> Orchestrator" where
  "broadcaster es o' = fold broadcaster_step es (zero_state, o')"

text \<open>What the hub gets: the goroutine of \<open>setupSubscriptions\<close> takes from subscription \<open>i\<close> and broadcasts a status message.\<close>

definition forward_snapshot ::
    "nat \<Rightarrow> Orchestrator \<times> status_update ui_event Hub \<Rightarrow> Orchestrator \<times> status_update ui_event Hub" where
  "forward_snapshot i s =
     (case s of (o', h) \<Rightarrow>
       (case items (subscribers o' ! i) of
          [] \<Rightarrow> (o', h)
        | snap # rest \<Rightarrow>
            (o'\<lparr>subscribers := (subscribers o')[i := (subscribers o' ! i)\<lparr>items := rest\<rparr>]\<rparr>,
             Broadcast (WSEvent ''status_update'' (snapshot_update snap)) h)))"

text \<open>A subscriber with room gets the newest snapshot that has been taken; one whose channel is full keeps the old ones.\<close>

lemma tick_reaches_subscribers:
  assumes "ch \<in> set (subscribers o')" and "chan_len ch < capacity ch"
  shows "ch\<lparr>items := items ch @ [s]\<rparr> \<in> set (subscribers (snd (broadcaster_step BroadcastTick (s, o'))))"
proof -
  have "fst (chan_try_send s ch) = ch\<lparr>items := items ch @ [s]\<rparr>" using assms(2) by (simp add: chan_try_send_def)
  with assms(1) show ?thesis by (auto simp: broadcastSnapshot_def image_iff intro!: bexI [of _ ch])
qed

lemma full_subscriber_keeps_old:
  "ch \<in> set (subscribers o') \<Longrightarrow> \<not> chan_len ch < capacity ch \<Longrightarrow> ch \<in> set (subscribers (snd (broadcaster_step BroadcastTick (s, o'))))"
  by (auto simp: broadcastSnapshot_def chan_try_send_def image_iff intro!: bexI [of _ ch])

text \<open>A tick before the first snapshot announces a state of zeros.\<close>

lemma zero_snapshot_announced:
  "snapshot_update (fst (broadcaster (replicate n BroadcastTick) o')) = snapshot_update zero_state"
proof -
  have "fst (fold broadcaster_step (replicate n BroadcastTick) (s, q)) = s" for s q
    by (induction n arbitrary: q) auto
  then show ?thesis by (simp add: broadcaster_def)
qed

subsection \<open>Healer, watchdog, audit and health check\<close>

definition selfheal_run :: "nat \<Rightarrow> Orchestrator \<Rightarrow> Orchestrator" where
  "selfheal_run ticks = auditAndHeal ^^ ticks"

text \<open>The first audit does everything: more of them change nothing until the state is changed by others.\<close>

lemma selfheal_idempotent: "selfheal_run (Suc n) o' = auditAndHeal o'"
proof -
  have idem: "auditAndHeal (auditAndHeal q) = auditAndHeal q" for q by (simp add: auditAndHeal_def Let_def)
  show ?thesis unfolding selfheal_run_def by (induction n) (simp_all add: idem)
qed

record watchdog_tick =
  wt_now :: time
  wt_rpc :: "go_error + int"
  wt_query_err :: "go_error option"
  wt_update_err :: "go_error option"
  wt_pd :: bool

text \<open>\<open>Start\<close> does nothing for a watchdog that is not enabled; an error of a check is logged only.\<close>

fun watchdog_run :: "watchdog_tick list \<Rightarrow> 'p heal_state \<Rightarrow> 'p heal_state" where
  "watchdog_run [] h = h"
| "watchdog_run (t # ts) h = watchdog_run ts (fst (checkAndHeal (wt_now t) (wt_rpc t) (wt_query_err t) (wt_update_err t) (wt_pd t) h))"

definition Watchdog_Start :: "watchdog_tick list \<Rightarrow> 'p heal_state \<Rightarrow> 'p heal_state" where
  "Watchdog_Start ts h = (if \<not> dw_enabled (h_dog h) then h else watchdog_run ts h)"

text \<open>The watchdog leaves a sequencer alone that has made progress within the threshold, healing included.\<close>

lemma watchdog_waits:
  assumes "\<forall>t \<in> set ts. GetIdleTime (wt_now t) (h_seq h) < stallThreshold (h_dog h)"
  shows "Watchdog_Start ts h = h"
proof -
  have "watchdog_run ts h = h" using assms by (induction ts) (auto simp: checkAndHeal_def Let_def)
  then show ?thesis by (simp add: Watchdog_Start_def)
qed

definition StartPeriodicAudit :: "((int \<Rightarrow> go_error + string) \<times> bool \<times> db) list \<Rightarrow> int \<Rightarrow> audit_finding list" where
  "StartPeriodicAudit ticks lookback = concat (map (\<lambda>(rpc, query_ok, d). performAudit rpc query_ok lookback d) ticks)"

definition StartHealthCheck :: "(time \<times> (nat \<Rightarrow> bool)) list \<Rightarrow> EnhancedRPCClientPool \<Rightarrow> EnhancedRPCClientPool" where
  "StartHealthCheck ticks p = fold (\<lambda>(now, alive). checkHealth now alive) ticks p"

subsection \<open>Token metadata (internal/database/repository.go, processor\_core.go)\<close>

text \<open>The address is stored in lower case and is the key of the table.\<close>

definition SaveTokenMetadata :: "bool \<Rightarrow> TokenMetadata \<Rightarrow> string \<Rightarrow> (string \<times> TokenMetadata) list \<Rightarrow> (string \<times> TokenMetadata) list" where
  "SaveTokenMetadata exec_ok meta address rows = (if exec_ok then AList.update (ToLower address) meta rows else rows)"

fun save_run :: "(string \<times> TokenMetadata) list \<Rightarrow> (string \<times> TokenMetadata) list \<Rightarrow> (string \<times> TokenMetadata) list" where
  "save_run [] rows = rows"
| "save_run ((a, m) # ops) rows = save_run ops (SaveTokenMetadata True m a rows)"

lemma load_lower:
  assumes "distinct (map fst rows)" and "\<forall>(a, m) \<in> set rows. ToLower a = a"
  shows "map_of (LoadAllMetadata rows) = map_of rows"
proof -
  have "map_of (fold (\<lambda>(a, m) acc. AList.update (ToLower a) m acc) rows acc) = map_of acc ++ map_of rows" for acc
    using assms
  proof (induction rows arbitrary: acc)
    case (Cons r rows)
    then have "fst r \<notin> dom (map_of rows)" by (auto simp: dom_map_of_conv_image_fst)
    with Cons show ?case by (cases r) (auto simp: update_conv' map_add_def fun_eq_iff dom_def split: option.splits)
  qed simp
  then show ?thesis by (simp add: LoadAllMetadata_def)
qed

text \<open>
  What was saved last for an address, in whatever case it was written, is what loading returns, under the address in lower
  case.
\<close>

lemma metadata_round_trip:
  assumes "distinct (map fst rows)" and "\<forall>(a, m) \<in> set rows. ToLower a = a"
  shows "map_of (LoadAllMetadata (save_run ops rows)) = map_of rows ++ map_of (rev (map (\<lambda>(a, m). (ToLower a, m)) ops))"
  using assms
proof (induction ops arbitrary: rows)
  case Nil
  then show ?case using load_lower by simp
next
  case (Cons op ops)
  obtain a m where op: "op = (a, m)" by fastforce
  let ?r = "AList.update (ToLower a) m rows"
  have "distinct (map fst ?r)" using Cons.prems(1) by (rule distinct_update)
  moreover have "\<forall>(a, m) \<in> set ?r. ToLower a = a" using Cons.prems(2) by (induction rows) (auto split: if_splits)
  ultimately have "map_of (LoadAllMetadata (save_run ops ?r)) =
      (map_of rows)(ToLower a \<mapsto> m) ++ map_of (rev (map (\<lambda>(a, m). (ToLower a, m)) ops))"
    using Cons.IH [of ?r] by (simp only: update_conv')
  then show ?case by (simp add: op SaveTokenMetadata_def)
qed

subsection \<open>Readings of the quota guard (rpc\_quota\_guard.go)\<close>

fun QuotaMode_String :: "QuotaMode \<Rightarrow> string" where
  "QuotaMode_String QuotaModeNormal = ''NORMAL''"
| "QuotaMode_String QuotaModeThrottling = ''THROTTLING''"
| "QuotaMode_String QuotaModeStrict = ''STRICT''"
| "QuotaMode_String QuotaModeExhausted = ''EXHAUSTED''"

text \<open>
  \<open>GetMetrics\<close> takes the read lock a second time in \<open>GetUsageRatio\<close>. A writer that has asked for the lock in between goes
  first, and both wait forever: \<open>writer_waiting\<close>.
\<close>

definition GetUsageRatio :: "bool \<Rightarrow> QuotaGuard \<Rightarrow> rat option" where
  "GetUsageRatio writer_waiting g =
     (if writer_waiting then None else map_option (\<lambda>_. of_int (CurrentUsed g) / of_int (DailyLimit g)) (rw_rlock (qg_mu g)))"

record quota_metrics =
  qm_daily_limit :: int
  qm_current_used :: int
  qm_remaining :: int
  qm_usage_ratio :: rat
  qm_mode :: string
  qm_denied :: int

definition QuotaGuard_GetMetrics :: "bool \<Rightarrow> QuotaGuard \<Rightarrow> quota_metrics option" where
  "QuotaGuard_GetMetrics writer_waiting g =
     (case rw_rlock (qg_mu g) of
        None \<Rightarrow> None
      | Some m \<Rightarrow>
          map_option (\<lambda>r. \<lparr>qm_daily_limit = DailyLimit g, qm_current_used = CurrentUsed g, qm_remaining = wrap_i64 (DailyLimit g - CurrentUsed g),
              qm_usage_ratio = r, qm_mode = QuotaMode_String (qg_mode g), qm_denied = requestsDenied g\<rparr>)
            (GetUsageRatio writer_waiting (g\<lparr>qg_mu := m\<rparr>)))"

lemma quota_metrics_returns_iff: "qg_mu g \<noteq> Writer \<Longrightarrow> QuotaGuard_GetMetrics writer_waiting g \<noteq> None \<longleftrightarrow> \<not> writer_waiting"
  by (cases "qg_mu g") (auto simp: QuotaGuard_GetMetrics_def GetUsageRatio_def)

subsection \<open>Single blocks (fetcher\_block.go)\<close>

text \<open>Three attempts; \<open>done i\<close> says that the context fires in the pause behind attempt \<open>i\<close>, \<open>ctx_err\<close> is its error.\<close>

fun header_attempts :: "(nat \<Rightarrow> go_error + 'h) \<Rightarrow> (nat \<Rightarrow> bool) \<Rightarrow> go_error \<Rightarrow> nat \<Rightarrow> nat \<Rightarrow> go_error \<Rightarrow> go_error + 'h" where
  "header_attempts call ctx_done ctx_err i 0 err = Inl err"
| "header_attempts call ctx_done ctx_err i (Suc k) err =
     (case call i of
        Inr h \<Rightarrow> Inr h
      | Inl e \<Rightarrow> if ctx_done i then Inl ctx_err else header_attempts call ctx_done ctx_err (Suc i) k e)"

definition fetchHeaderWithRetry :: "(nat \<Rightarrow> go_error + 'h) \<Rightarrow> (nat \<Rightarrow> bool) \<Rightarrow> go_error \<Rightarrow> go_error + 'h" where
  "fetchHeaderWithRetry call ctx_done ctx_err = header_attempts call ctx_done ctx_err 0 3 (OtherError [])"

definition header_backoff :: "nat \<Rightarrow> go_error \<Rightarrow> duration" where
  "header_backoff i e = (if contains (error_text e) ''429'' then 1000 * 2 ^ i * millisecond else 100 * 2 ^ i * millisecond)"

definition fetchBlockWithLogs :: "(nat \<Rightarrow> go_error + 'h) \<Rightarrow> (nat \<Rightarrow> bool) \<Rightarrow> go_error \<Rightarrow> go_error + Log list \<Rightarrow> go_error + 'h \<times> Log list" where
  "fetchBlockWithLogs call ctx_done ctx_err logs =
     (case fetchHeaderWithRetry call ctx_done ctx_err of
        Inl e \<Rightarrow> Inl e
      | Inr h \<Rightarrow> Inr (h, case logs of Inl e \<Rightarrow> [] | Inr ls \<Rightarrow> ls))"

text \<open>A failed query of the logs looks like a block without logs.\<close>

lemma failed_logs_look_empty:
  "fetchBlockWithLogs call ctx_done ctx_err (Inl e) = fetchBlockWithLogs call ctx_done ctx_err (Inr [])"
  by (simp add: fetchBlockWithLogs_def split: sum.split)

lemma header_answer_authentic: "fetchHeaderWithRetry call ctx_done ctx_err = Inr h \<Longrightarrow> \<exists>i < 3. call i = Inr h"
proof -
  have "header_attempts call ctx_done ctx_err i k err = Inr h \<Longrightarrow> \<exists>j < k. call (i + j) = Inr h" for i k err
  proof (induction k arbitrary: i err)
    case (Suc k)
    show ?case
    proof (cases "call i")
      case (Inl e)
      with Suc.prems have "header_attempts call ctx_done ctx_err (Suc i) k e = Inr h" by (auto split: if_splits)
      from Suc.IH [OF this] obtain j where "j < k" and "call (Suc i + j) = Inr h" by blast
      then show ?thesis by (intro exI [of _ "Suc j"]) simp
    qed (use Suc.prems in \<open>auto intro: exI [of _ 0]\<close>)
  qed simp
  from this [of 0] show "fetchHeaderWithRetry call ctx_done ctx_err = Inr h \<Longrightarrow> ?thesis"
    by (simp add: fetchHeaderWithRetry_def)
qed

end
