(* ===== verification/Integrity_Audit.thy ===== *)
theory Integrity_Audit
  imports Http_Api
begin

section \<open>The audit of the stored chain (scripts/verify\_integrity.go)\<close>

text \<open>
  The script reads the newest 1000 blocks and compares each with its predecessor in the list. It exits with 1 when it finds a
  broken hash chain or a gap, or when database or report file cannot be opened. A number that does not fit the \<open>int64\<close> field
  is an error of the query.
\<close>

datatype audit_message = HashChainBroken int int | SequenceGap int int

fun audit_pairs :: "BlockRow list \<Rightarrow> audit_message list" where
  "audit_pairs (current # previous # rest) =
     (if br_parent_hash current \<noteq> br_hash previous then [HashChainBroken (br_number current) (br_number previous)] else [])
     @ (if br_number current \<noteq> wrap_i64 (br_number previous + 1) then [SequenceGap (br_number current) (br_number previous)] else [])
     @ audit_pairs (previous # rest)"
| "audit_pairs _ = []"

datatype audit_report = InsufficientData | Fatal string | Report (report_status: string) (report_blocks: nat) (report_head: int)

definition audit_status :: "nat \<Rightarrow> string" where
  "audit_status errors = (if errors > 0 then ''FAIL ('' @ big_string (int errors) @ '' errors)'' else ''PASS'')"

text \<open>The messages, the report line and the exit code.\<close>

definition verify_integrity :: "bool \<Rightarrow> bool \<Rightarrow> bool \<Rightarrow> db \<Rightarrow> audit_message list \<times> audit_report \<times> nat" where
  "verify_integrity connect_ok query_ok report_ok d =
     (if \<not> connect_ok then ([], Fatal ''Integrity Check Failed: Database connection error'', 1)
      else
        let blocks = latest_blocks 1000 d in
        if \<not> query_ok \<or> list_ex (\<lambda>r. \<not> in_i64 (br_number r)) blocks then ([], Fatal ''Failed to fetch blocks'', 1)
        else if length blocks < 2 then ([], InsufficientData, 0)
        else
          let msgs = audit_pairs blocks in
          if \<not> report_ok then (msgs, Fatal ''Failed to open report file'', 1)
          else (msgs, Report (audit_status (length msgs)) (length blocks) (br_number (hd blocks)), if length msgs > 0 then 1 else 0))"

subsection \<open>The audit finds exactly the broken chains\<close>

definition linked :: "BlockRow \<Rightarrow> BlockRow \<Rightarrow> bool" where
  "linked a b \<longleftrightarrow> br_parent_hash a = br_hash b \<and> br_number a = br_number b + 1"

lemma audit_pairs_Nil_iff:
  assumes "\<forall>r \<in> set rs. in_i64 (br_number r)" and "sorted_wrt (\<lambda>a b. br_number a > br_number b) rs"
  shows "audit_pairs rs = [] \<longleftrightarrow> (\<forall>i. Suc i < length rs \<longrightarrow> linked (rs ! i) (rs ! Suc i))"
  using assms
proof (induction rs rule: audit_pairs.induct)
  case (1 c p rest)
  then have "wrap_i64 (br_number p + 1) = br_number p + 1" by (simp add: wrap_i64_id)
  with 1 show ?case by (auto simp: linked_def less_Suc_eq_0_disj nth_Cons' split: if_splits)
qed simp_all

lemma latest_blocks_strict:
  assumes "db_wf d"
  shows "sorted_wrt (\<lambda>a b. br_number a > br_number b) (latest_blocks n d)"
proof -
  let ?l = "sort_key (\<lambda>r. - br_number r) (db_blocks d)"
  have "distinct (map br_number ?l)"
    using assms by (metis db_wf_def distinct_map inj_on_cong distinct_sort set_sort)
  then have "distinct (map (\<lambda>r. - br_number r) ?l)" by (simp add: distinct_map inj_on_def)
  then have "sorted_wrt (<) (map (\<lambda>r. - br_number r) ?l)" by (simp add: strict_sorted_iff)
  then have "sorted_wrt (\<lambda>a b. br_number a > br_number b) ?l" by (simp add: sorted_wrt_map)
  then show ?thesis unfolding latest_blocks_def by (rule sorted_wrt_take)
qed

lemma latest_blocks_stored: "set (latest_blocks n d) \<subseteq> set (db_blocks d)"
  using set_take_subset [of n "sort_key (\<lambda>r. - br_number r) (db_blocks d)"] by (simp add: latest_blocks_def)

lemma same_row: "db_wf d \<Longrightarrow> a \<in> set (db_blocks d) \<Longrightarrow> b \<in> set (db_blocks d) \<Longrightarrow> br_number a = br_number b \<Longrightarrow> a = b"
  by (auto simp: db_wf_def distinct_map inj_on_def)

lemma stored_le_max: "r \<in> set (db_blocks d) \<Longrightarrow> br_number r \<le> GetMaxStoredBlock d"
  by (auto simp: GetMaxStoredBlock_def)

lemma left_out_older:
  assumes "db_wf d" and "r \<in> set (db_blocks d)" and "r \<notin> set (latest_blocks n d)" and "a \<in> set (latest_blocks n d)"
  shows "br_number r < br_number a"
proof -
  have "r \<in># mset (db_blocks d) - mset (latest_blocks n d)"
    using assms(2,3) by (simp add: in_diff_count count_eq_zero_iff [THEN iffD2])
  then have "br_number r \<le> br_number a" using latest_blocks_newest [of n d] assms(4) by blast
  moreover have "br_number r \<noteq> br_number a"
    using same_row [OF assms(1,2)] assms(3,4) latest_blocks_stored by blast
  ultimately show ?thesis by simp
qed

lemma head_is_max:
  assumes "db_wf d" and "0 < length (latest_blocks n d)"
  shows "br_number (latest_blocks n d ! 0) = GetMaxStoredBlock d"
proof -
  let ?L = "latest_blocks n d"
  have mem: "?L ! 0 \<in> set ?L" using assms(2) by (intro nth_mem)
  have "br_number r \<le> br_number (?L ! 0)" if "r \<in> set (db_blocks d)" for r
  proof (cases "r \<in> set ?L")
    case True
    then obtain i where "i < length ?L" "r = ?L ! i" by (metis in_set_conv_nth)
    then show ?thesis using sorted_wrt_nth_less [OF latest_blocks_strict [OF assms(1)], of 0 i n] by (cases "i = 0") force+
  next
    case False
    then show ?thesis using left_out_older [OF assms(1) that _ mem] by simp
  qed
  moreover have "br_number (?L ! 0) \<in> br_number ` set (db_blocks d)" using mem latest_blocks_stored by blast
  ultimately show ?thesis by (auto simp: GetMaxStoredBlock_def intro!: Max_eqI [symmetric])
qed

lemma linked_numbers:
  assumes "\<forall>i. Suc i < length rs \<longrightarrow> linked (rs ! i) (rs ! Suc i)" and "j < length rs"
  shows "br_number (rs ! j) = br_number (rs ! 0) - int j"
  using assms(2)
proof (induction j)
  case (Suc j)
  then show ?case using assms(1) by (auto simp: linked_def)
qed simp

text \<open>When no height of the newest stretch is missing, the list runs through it downwards.\<close>

lemma gapless_numbers:
  assumes "db_wf d" and "k = length (latest_blocks n d)" and "{GetMaxStoredBlock d - int k<..GetMaxStoredBlock d} \<subseteq> br_number ` set (db_blocks d)"
    and "j < k"
  shows "br_number (latest_blocks n d ! j) = GetMaxStoredBlock d - int j"
proof -
  let ?L = "latest_blocks n d" and ?m = "GetMaxStoredBlock d"
  let ?N = "br_number ` set ?L"
  have strict: "sorted_wrt (>) (map br_number ?L)" using latest_blocks_strict [OF assms(1)] by (simp add: sorted_wrt_map)
  then have "sorted_wrt (<) (rev (map br_number ?L))" by (simp add: sorted_wrt_rev)
  then have dist: "distinct (map br_number ?L)" and asc: "sorted (rev (map br_number ?L))" by (auto simp: strict_sorted_iff)
  have card: "card ?N = k" using distinct_card [OF dist] by (simp add: assms(2))
  have "{?m - int k<..?m} \<subseteq> ?N"
  proof
    fix s
    assume s: "s \<in> {?m - int k<..?m}"
    then obtain r where r: "r \<in> set (db_blocks d)" "br_number r = s" using assms(3) by blast
    show "s \<in> ?N"
    proof (rule ccontr)
      assume "s \<notin> ?N"
      then have "r \<notin> set ?L" using r(2) by blast
      then have "?N \<subseteq> {s<..?m}"
        using left_out_older [OF assms(1) r(1)] r(2) latest_blocks_stored [of n d] by (fastforce simp: GetMaxStoredBlock_def)
      then have "k \<le> card {s<..?m}" using card_mono [of "{s<..?m}" ?N] card by simp
      then have "k \<le> nat (?m - s)" by simp
      moreover have "s \<le> ?m" "?m - int k < s" using s by simp_all
      ultimately show False by linarith
    qed
  qed
  then have "{?m - int k<..?m} = ?N" using card by (intro card_subset_eq) simp_all
  moreover have "set [?m - int k + 1..?m] = {?m - int k<..?m}" by auto
  ultimately have "set (rev (map br_number ?L)) = set [?m - int k + 1..?m]" by simp
  then have "rev (map br_number ?L) = [?m - int k + 1..?m]"
    using dist asc by (intro sorted_distinct_set_unique) simp_all
  then have "map br_number ?L = rev [?m - int k + 1..?m]" by (simp flip: rev_swap)
  then have "map br_number ?L ! j = rev [?m - int k + 1..?m] ! j" by simp
  then show ?thesis using assms(2,4) by (simp add: rev_nth)
qed

text \<open>The newest rows as a chain and the stored rows above the lower end, in both directions.\<close>

lemma linked_chain:
  fixes d :: db and k :: nat
  defines "L \<equiv> latest_blocks 1000 d" and "m \<equiv> GetMaxStoredBlock d"
  assumes "db_wf d" and len: "length L = k" and l: "\<forall>i. Suc i < k \<longrightarrow> linked (L ! i) (L ! Suc i)"
  shows "{m - int k<..m} \<subseteq> br_number ` set (db_blocks d)"
    and "\<forall>a \<in> set (db_blocks d). \<forall>b \<in> set (db_blocks d). m - int k < br_number b \<and> br_number a = br_number b + 1 \<longrightarrow> br_parent_hash a = br_hash b"
proof -
  have num: "br_number (L ! j) = m - int j" if "j < k" for j
    using linked_numbers [of L j] head_is_max [OF assms(3), of 1000] l len that by (cases "latest_blocks 1000 d = []") (simp_all add: m_def L_def)
  have row: "\<exists>j < k. j = nat (m - n) \<and> br_number (L ! j) = n \<and> L ! j \<in> set (db_blocks d)" if "n \<in> {m - int k<..m}" for n
  proof -
    have "nat (m - n) < k" "int (nat (m - n)) = m - n" using that by auto
    then show ?thesis using num len latest_blocks_stored [of 1000 d] unfolding L_def by (intro exI [of _ "nat (m - n)"]) auto
  qed
  then show "{m - int k<..m} \<subseteq> br_number ` set (db_blocks d)" by (metis image_eqI subsetI)
  show "\<forall>a \<in> set (db_blocks d). \<forall>b \<in> set (db_blocks d). m - int k < br_number b \<and> br_number a = br_number b + 1 \<longrightarrow> br_parent_hash a = br_hash b"
  proof (intro ballI impI)
    fix a b
    assume ab: "a \<in> set (db_blocks d)" "b \<in> set (db_blocks d)" "m - int k < br_number b \<and> br_number a = br_number b + 1"
    then have le: "br_number a \<le> m" unfolding m_def by (intro stored_le_max)
    have at: "nat (m - br_number r) < k \<and> L ! nat (m - br_number r) = r"
      if "r \<in> set (db_blocks d)" "m - int k < br_number r" "br_number r \<le> m" for r
    proof -
      have "br_number r \<in> {m - int k<..m}" using that by simp
      from row [OF this] same_row [OF assms(3) _ that(1)] show ?thesis by blast
    qed
    have b: "nat (m - br_number b) < k" "L ! nat (m - br_number b) = b" using at [OF ab(2)] ab(3) le by simp_all
    have a: "L ! nat (m - br_number a) = a" using at [OF ab(1)] ab(3) le by simp
    have "nat (m - br_number b) = Suc (nat (m - br_number a))" using ab(3) le by linarith
    with l a b show "br_parent_hash a = br_hash b" by (metis linked_def)
  qed
qed

lemma chain_linked:
  fixes d :: db and k :: nat
  defines "L \<equiv> latest_blocks 1000 d" and "m \<equiv> GetMaxStoredBlock d"
  assumes "db_wf d" and len: "length L = k" and gap: "{m - int k<..m} \<subseteq> br_number ` set (db_blocks d)"
    and chain: "\<forall>a \<in> set (db_blocks d). \<forall>b \<in> set (db_blocks d). m - int k < br_number b \<and> br_number a = br_number b + 1 \<longrightarrow> br_parent_hash a = br_hash b"
  shows "\<forall>i. Suc i < k \<longrightarrow> linked (L ! i) (L ! Suc i)"
proof (intro allI impI)
  fix i
  assume i: "Suc i < k"
  have num: "br_number (L ! j) = m - int j" if "j < k" for j
    using gapless_numbers [OF assms(3) len [unfolded L_def, symmetric]] gap that by (simp add: m_def L_def)
  have "L ! i \<in> set (db_blocks d)" "L ! Suc i \<in> set (db_blocks d)" using i len latest_blocks_stored [of 1000 d] unfolding L_def by auto
  then show "linked (L ! i) (L ! Suc i)" using chain num [of i] num [of "Suc i"] i by (auto simp: linked_def)
qed

text \<open>
  (C35) The audit is exact. With at least two blocks stored and database and report file at hand, the script exits with 0
  exactly if among the newest 1000 blocks (all, if there are fewer) no height is missing and every block carries the hash of
  its predecessor as its parent hash.
\<close>

theorem integrity_audit_exact:
  assumes "db_wf d" and "\<forall>r \<in> set (db_blocks d). in_i64 (br_number r)" and "2 \<le> length (db_blocks d)"
  defines "m \<equiv> GetMaxStoredBlock d" and "k \<equiv> min 1000 (length (db_blocks d))"
  shows "snd (snd (verify_integrity True True True d)) = 0 \<longleftrightarrow>
    {m - int k<..m} \<subseteq> br_number ` set (db_blocks d)
    \<and> (\<forall>a \<in> set (db_blocks d). \<forall>b \<in> set (db_blocks d). m - int k < br_number b \<and> br_number a = br_number b + 1 \<longrightarrow> br_parent_hash a = br_hash b)"
    (is "?exit \<longleftrightarrow> ?gapless \<and> ?chain")
proof -
  let ?L = "latest_blocks 1000 d"
  have len: "length ?L = k" using latest_blocks_newest [of 1000 d] by (simp add: k_def)
  then have len2: "2 \<le> length ?L" using assms(3) by (simp add: k_def)
  have i64: "\<forall>r \<in> set ?L. in_i64 (br_number r)" using assms(2) latest_blocks_stored by blast
  have "?exit \<longleftrightarrow> (\<forall>i. Suc i < k \<longrightarrow> linked (?L ! i) (?L ! Suc i))"
    using len2 i64 audit_pairs_Nil_iff [OF i64 latest_blocks_strict [OF assms(1)]] len
    by (auto simp: verify_integrity_def Let_def list_ex_iff)
  also have "\<dots> \<longleftrightarrow> ?gapless \<and> ?chain"
    using linked_chain [OF assms(1) len] chain_linked [OF assms(1) len] unfolding m_def by blast
  finally show ?thesis .
qed

definition audited_row :: "int \<Rightarrow> string \<Rightarrow> string \<Rightarrow> BlockRow" where
  "audited_row n h p = \<lparr>br_number = n, br_hash = h, br_parent_hash = p, br_timestamp = 0, br_gas_limit = 0, br_gas_used = 0,
     br_base_fee = None, br_tx_count = 0\<rparr>"

theorem integrity_audit_exact_witness:
  "snd (snd (verify_integrity True True True (empty_db\<lparr>db_blocks := [audited_row 5 ''b'' ''a'', audited_row 6 ''c'' ''b'']\<rparr>))) = 0
   \<and> snd (snd (verify_integrity True True True (empty_db\<lparr>db_blocks := [audited_row 5 ''b'' ''a'', audited_row 7 ''c'' ''b'']\<rparr>))) \<noteq> 0"
proof -
  let ?d = "\<lambda>n. empty_db\<lparr>db_blocks := [audited_row 5 ''b'' ''a'', audited_row n ''c'' ''b'']\<rparr>"
  have wf: "db_wf (?d 6)" "db_wf (?d 7)" by (simp_all add: db_wf_def empty_db_def audited_row_def)
  have i64: "\<forall>r \<in> set (db_blocks (?d n)). in_i64 (br_number r)" if "n \<in> {6, 7}" for n
    using that by (auto simp: audited_row_def min_i64_def max_i64_def)
  have m: "GetMaxStoredBlock (?d 6) = 6" "GetMaxStoredBlock (?d 7) = 7" by (simp_all add: GetMaxStoredBlock_def audited_row_def)
  have "{4<..6 :: int} = {5, 6}" by auto
  moreover have "\<not> {5<..7 :: int} \<subseteq> {5, 7}" using subsetD [of "{5<..7}" "{5, 7 :: int}" 6] by auto
  ultimately show ?thesis
    using integrity_audit_exact [OF wf(1) i64] integrity_audit_exact [OF wf(2) i64]
    unfolding m by (auto simp: audited_row_def)
qed

end
