(* ===== verification/Api_Server.thy ===== *)
theory Api_Server
  imports Http_Api Simulators
begin

section \<open>The server of the HTTP interface (api\_server.go, signer.go, internal/web/static.go)\<close>

text \<open>
  The server starts before the engine, so its dependencies are injected later; until then the data routes answer with 503.
  The status is signed with a key pair made at the start.

  \<^item> The signature scheme (\<open>crypto/ed25519\<close>), the JSON encoder and the template engine are arguments.
  \<^item> \<open>http.ServeMux\<close> takes an exact pattern before the subtree \<open>/static/\<close> and that before \<open>/\<close>; paths are taken as clean.
\<close>

subsection \<open>The signer (signer.go)\<close>

record 'k SignerMachine =
  sg_privKey :: 'k
  sg_pubKey :: byte_list
  sg_signerID :: string

record 'd SignedPayload =
  sp_Type :: string
  sp_Data :: 'd
  sp_Signature :: string
  sp_PubKey :: string
  sp_SignerID :: string

definition NewSignerMachine :: "go_error + 'k \<times> byte_list \<Rightarrow> string \<Rightarrow> 'k SignerMachine option" where
  "NewSignerMachine generated signerID =
     (case generated of
        Inl e \<Rightarrow> None
      | Inr (priv, pub) \<Rightarrow> Some \<lparr>sg_privKey = priv, sg_pubKey = pub, sg_signerID = signerID\<rparr>)"

definition hex_char :: "nat \<Rightarrow> char" where
  "hex_char n = ''0123456789abcdef'' ! n"

text \<open>\<open>hex.EncodeToString\<close>.\<close>

definition EncodeToString :: "byte_list \<Rightarrow> string" where
  "EncodeToString bs = concat (map (\<lambda>b. [hex_char (unat b div 16), hex_char (unat b mod 16)]) bs)"

definition Signer_Sign ::
    "('d \<Rightarrow> go_error + byte_list) \<Rightarrow> ('k \<Rightarrow> byte_list \<Rightarrow> byte_list) \<Rightarrow> string \<Rightarrow> 'd \<Rightarrow> 'k SignerMachine \<Rightarrow> go_error + 'd SignedPayload" where
  "Signer_Sign marshal sign msgType payload s =
     (case marshal payload of
        Inl e \<Rightarrow> Inl e
      | Inr msgBytes \<Rightarrow>
          Inr \<lparr>sp_Type = msgType, sp_Data = payload, sp_Signature = EncodeToString (sign (sg_privKey s) msgBytes),
               sp_PubKey = EncodeToString (sg_pubKey s), sp_SignerID = sg_signerID s\<rparr>)"

definition GetPublicKeyHex :: "'k SignerMachine \<Rightarrow> string" where
  "GetPublicKeyHex s = EncodeToString (sg_pubKey s)"

subsection \<open>The pages (static.go)\<close>

record DashboardData =
  dd_Title :: string
  dd_Environment :: string
  dd_PostgresDS :: string
  dd_GrafanaHost :: string
  dd_Version :: string

definition dashboard_data :: "(string \<Rightarrow> string) \<Rightarrow> string \<Rightarrow> DashboardData" where
  "dashboard_data env hostname =
     (let sepolia = (env ''CHAIN_ID'' = ''11155111'')
      in \<lparr>dd_Title = (if env ''APP_TITLE'' = [] then map char_of [240, 159, 154, 128 :: nat] @ '' Web3 Indexer Dashboard'' else env ''APP_TITLE''),
          dd_Environment = (if sepolia then ''sepolia'' else ''demo''),
          dd_PostgresDS = (if sepolia then ''Web3-sepolia-DB'' else ''Web3-demo-DB''),
          dd_GrafanaHost = (if env ''GRAFANA_HOST'' \<noteq> [] then env ''GRAFANA_HOST'' else if hostname = [] then ''localhost'' else hostname),
          dd_Version = ''v2.2.0-intelligence-engine''\<rparr>)"

text \<open>\<open>asset\<close> is an embedded file; \<open>parse\<close> and \<open>execute\<close> are the template engine.\<close>

definition RenderDashboard ::
    "(string \<Rightarrow> string option) \<Rightarrow> (string \<Rightarrow> 't option) \<Rightarrow> ('t \<Rightarrow> DashboardData \<Rightarrow> string) \<Rightarrow> (string \<Rightarrow> string) \<Rightarrow> string \<Rightarrow> string http" where
  "RenderDashboard asset parse execute env hostname =
     (case asset ''dashboard.html'' of
        None \<Rightarrow> HttpError 404 ''Dashboard template not found''
      | Some content \<Rightarrow>
          (case parse content of
             None \<Rightarrow> HttpError 500 ''Template parsing error''
           | Some tmpl \<Rightarrow> HttpOk (execute tmpl (dashboard_data env hostname))))"

definition RenderSecurity :: "(string \<Rightarrow> string option) \<Rightarrow> string http" where
  "RenderSecurity asset =
     (case asset ''security.html'' of None \<Rightarrow> HttpError 404 ''Security page not found'' | Some content \<Rightarrow> HttpOk content)"

subsection \<open>The server (api\_server.go)\<close>

record 'k Server =
  srv_db :: bool
  srv_rpcPool :: bool
  srv_lazyManager :: "LazyManager option"
  srv_processor :: bool
  srv_chainID :: int
  srv_port :: string
  srv_title :: string
  srv_signer :: "'k SignerMachine option"
  srv_listening :: bool

definition NewServer :: "go_error + 'k \<times> byte_list \<Rightarrow> bool \<Rightarrow> string \<Rightarrow> string \<Rightarrow> 'k Server" where
  "NewServer generated db port title =
     \<lparr>srv_db = db, srv_rpcPool = False, srv_lazyManager = None, srv_processor = False, srv_chainID = 0, srv_port = port,
      srv_title = title, srv_signer = NewSignerMachine generated ''Yokohama-Lab-Primary'', srv_listening = False\<rparr>"

definition SetDependencies :: "bool \<Rightarrow> bool \<Rightarrow> LazyManager option \<Rightarrow> bool \<Rightarrow> int \<Rightarrow> 'k Server \<Rightarrow> 'k Server" where
  "SetDependencies db rpc lazy proc chain s =
     s\<lparr>srv_db := db, srv_rpcPool := rpc, srv_lazyManager := lazy, srv_processor := proc, srv_chainID := chain\<rparr>"

datatype page = BlocksPage | TransfersPage | StatusPage | DebugPage | WebSocket | Dashboard | Security | MetricsPage | StaticFile string | NotFound

definition route :: "string \<Rightarrow> page" where
  "route path =
     (if path = ''/api/blocks'' then BlocksPage
      else if path = ''/api/transfers'' then TransfersPage
      else if path = ''/api/status'' then StatusPage
      else if path = ''/api/debug/snapshot'' then DebugPage
      else if path = ''/ws'' then WebSocket
      else if path = ''/security'' then Security
      else if path = ''/metrics'' then MetricsPage
      else if take 8 path = ''/static/'' then StaticFile (drop 8 path)
      else if path = ''/'' then Dashboard
      else NotFound)"

text \<open>What a request reads besides the server: tables, the processor's pool, coordinator, rates and the answers of queries.\<close>

record request_env =
  re_now :: time
  re_db :: db
  re_hot :: HotBuffer
  re_query :: "go_error option"
  re_tps :: rat
  re_bps :: rat
  re_counted :: "int option"
  re_global :: GlobalState
  re_orchestrator :: Orchestrator
  re_latest :: "go_error + int option"
  re_samples :: "bool \<times> bool"

record status_headers =
  h_Signature :: string
  h_SignerID :: string
  h_PublicKey :: string

datatype reply =
    ReplyError int string
  | ReplyBlocks "(string \<times> string \<times> string \<times> string) list http"
  | ReplyTransfers "api_transfer list http"
  | ReplyInitial "string \<times> string" string
  | ReplyStatus UIStatusDTO "status_headers option"
  | ReplyDebug debug_snapshot
  | ReplyOther page

text \<open>The headers of the status: absent without a signer or when the encoding fails.\<close>

definition sign_status ::
    "(UIStatusDTO \<Rightarrow> go_error + byte_list) \<Rightarrow> ('k \<Rightarrow> byte_list \<Rightarrow> byte_list) \<Rightarrow> UIStatusDTO \<Rightarrow> 'k SignerMachine option \<Rightarrow> status_headers option" where
  "sign_status marshal sign status signer =
     (case signer of
        None \<Rightarrow> None
      | Some sg \<Rightarrow>
          (case Signer_Sign marshal sign ''status'' status sg of
             Inl e \<Rightarrow> None
           | Inr pl \<Rightarrow> Some \<lparr>h_Signature = sp_Signature pl, h_SignerID = sp_SignerID pl, h_PublicKey = sp_PubKey pl\<rparr>))"

text \<open>The body of the answer: \<open>json.Encoder\<close> writes the encoding and a line feed.\<close>

definition status_body :: "(UIStatusDTO \<Rightarrow> go_error + byte_list) \<Rightarrow> UIStatusDTO \<Rightarrow> byte_list" where
  "status_body marshal status = (case marshal status of Inl e \<Rightarrow> [] | Inr m \<Rightarrow> m @ [10])"

definition serve_page ::
    "(UIStatusDTO \<Rightarrow> go_error + byte_list) \<Rightarrow> ('k \<Rightarrow> byte_list \<Rightarrow> byte_list) \<Rightarrow> request_env \<Rightarrow> page \<Rightarrow> 'k Server
      \<Rightarrow> ('k Server \<times> lazy_effect list \<times> reply) go" where
  "serve_page marshal sign E p s =
     (let db = (if srv_db s then Some (re_db E) else None); uninitialised = (\<not> srv_db s \<or> \<not> srv_rpcPool s)
      in case p of
           BlocksPage \<Rightarrow> Ret (s, [], ReplyBlocks (route_blocks (re_query E) db))
         | TransfersPage \<Rightarrow>
             go_bind (route_transfers (re_query E) db (if srv_processor s then Some (re_hot E) else None)) (\<lambda>r. Ret (s, [], ReplyTransfers r))
         | StatusPage \<Rightarrow>
             if uninitialised then Ret (s, [], ReplyInitial (handleInitialStatus (Some (re_orchestrator E))) (srv_title s))
             else (case handleGetStatus (re_now E) (re_tps E) (re_bps E) (re_counted E) (re_global E) (re_orchestrator E) (srv_lazyManager s) of
                     (lm, effs, status) \<Rightarrow>
                       Ret (s\<lparr>srv_lazyManager := lm\<rparr>, effs, ReplyStatus status (sign_status marshal sign status (srv_signer s))))
         | DebugPage \<Rightarrow>
             if uninitialised then Ret (s, [], ReplyError 503 ''System Initializing...'')
             else Ret (s, [], ReplyDebug (handleGetDebugSnapshot (re_latest E) (fst (re_samples E)) (snd (re_samples E)) (re_db E) (re_orchestrator E)))
         | NotFound \<Rightarrow> Ret (s, [], ReplyError 404 ''404 page not found'')
         | _ \<Rightarrow> Ret (s, [], ReplyOther p))"

definition Server_Start :: "'k Server \<Rightarrow> 'k Server" where
  "Server_Start s = s\<lparr>srv_listening := True\<rparr>"

text \<open>\<open>Shutdown\<close> stops a server that has been started; \<open>err\<close> is the answer of the HTTP package.\<close>

definition Server_Shutdown :: "go_error option \<Rightarrow> 'k Server \<Rightarrow> go_error option" where
  "Server_Shutdown err s = (if srv_listening s then err else None)"

subsection \<open>Before and after the injection\<close>

lemma no_data_before_injection:
  "serve_page marshal sign E BlocksPage (NewServer gen False port title)
     = Ret (NewServer gen False port title, [], ReplyBlocks (HttpError 503 ''System Initializing...''))"
  "serve_page marshal sign E TransfersPage (NewServer gen False port title)
     = Ret (NewServer gen False port title, [], ReplyTransfers (HttpError 503 ''System Initializing...''))"
  "serve_page marshal sign E DebugPage (NewServer gen False port title)
     = Ret (NewServer gen False port title, [], ReplyError 503 ''System Initializing...'')"
  by (simp_all add: serve_page_def NewServer_def route_blocks_def route_transfers_def)

text \<open>Requests change nothing but the lazy manager, so a server that is ready stays ready.\<close>

lemma serving_keeps_server:
  "serve_page marshal sign E p s = Ret (s', effs, r) \<Longrightarrow> s'\<lparr>srv_lazyManager := srv_lazyManager s\<rparr> = s"
  by (auto simp: serve_page_def Let_def split: page.splits if_splits prod.splits)

text \<open>A ready server answers every status request with the projection, and with 503 only when the query of a list is at fault.\<close>

lemma ready_status:
  assumes "srv_db s" and "srv_rpcPool s"
  shows "\<exists>s' effs. serve_page marshal sign E StatusPage s = Ret (s', effs,
    ReplyStatus (GetUIStatus (re_tps E) (re_bps E) (re_counted E) (re_global E) (re_orchestrator E))
      (sign_status marshal sign (GetUIStatus (re_tps E) (re_bps E) (re_counted E) (re_global E) (re_orchestrator E)) (srv_signer s)))"
  using assms by (auto simp: serve_page_def handleGetStatus_def Let_def split: option.split prod.split)

subsection \<open>The signature\<close>

lemma hex_char_value: "n < 16 \<Longrightarrow> hex_value (hex_char n) = n"
proof -
  assume "n < 16"
  then have "n \<in> {0, 1, 2, 3, 4, 5, 6, 7, 8, 9, 10, 11, 12, 13, 14, 15}" by (simp, arith)
  then show ?thesis by (auto simp: hex_value_def hex_char_def hex_digit_def)
qed

lemma hex_round_trip: "hex_pairs (EncodeToString bs) = bs"
proof (induction bs)
  case (Cons b bs)
  have "unat b < 256" using unsigned_less [of b] by simp
  then have "16 * hex_value (hex_char (unat b div 16)) + hex_value (hex_char (unat b mod 16)) = unat b"
    by (simp add: hex_char_value div_less_iff_less_mult)
  with Cons show ?case by (simp add: EncodeToString_def)
qed (simp add: EncodeToString_def)

text \<open>
  A client that decodes the headers can verify the signature over the encoding of the status, whatever scheme in which what
  the private key signs verifies under the public key. Verified over the body it would be another message: the body has a
  line feed more.
\<close>

lemma status_signature_verifies:
  assumes "\<And>m. verify (sg_pubKey sg) m (sign (sg_privKey sg) m)" and "marshal status = Inr m"
    and "sign_status marshal sign status (Some sg) = Some h"
  shows "verify (hex_pairs (h_PublicKey h)) m (hex_pairs (h_Signature h)) \<and> h_SignerID h = sg_signerID sg"
  using assms by (auto simp: sign_status_def Signer_Sign_def hex_round_trip)

lemma body_is_not_signed: "marshal status = Inr m \<Longrightarrow> status_body marshal status \<noteq> m"
  by (simp add: status_body_def)

end
