(* ===== verification/Dev_Tools.thy ===== *)
theory Dev_Tools
  imports Config Simulators
begin

section \<open>The tools beside the indexer (cmd/demo, tools)\<close>

text \<open>
  The demo deployment, the traffic injector, the stress test and the generator of the documentation index. Node, signer,
  clock, random source and file system are arguments; key handling is go-ethereum's.
\<close>

subsection \<open>The demo deployment (cmd/demo/deploy.go)\<close>

record demo_env =
  de_keyed :: "go_error option"
  de_signed :: "go_error option"
  de_sent :: "go_error option"
  de_mined :: "go_error + byte_list"

definition first_error :: "go_error option list \<Rightarrow> go_error option" where
  "first_error es = (case filter (\<lambda>e. e \<noteq> None) es of [] \<Rightarrow> None | e # _ \<Rightarrow> e)"

text \<open>The transaction the node has accepted, if any, and the contract's address or the error.\<close>

definition demo_deployContract :: "demo_env \<Rightarrow> byte_list \<Rightarrow> u64 \<Rightarrow> int \<Rightarrow> Transaction option \<times> (go_error + byte_list)" where
  "demo_deployContract E bytecode nonce gasPrice =
     (let tx = \<lparr>tx_nonce = nonce, tx_to = None, tx_gas = 3000000, tx_gas_price = gasPrice, tx_data = bytecode\<rparr>
      in case first_error [de_keyed E, de_signed E, de_sent E] of
           Some e \<Rightarrow> (None, Inl e)
         | None \<Rightarrow> (Some tx, de_mined E))"

definition demo_data :: "byte_list \<Rightarrow> byte_list" where
  "demo_data toAddr =
     (let b = [0xa9, 0x05, 0x9c, 0xbb] @ toAddr @ replicate 32 0 in b[length b - 1 := 100])"

definition demo_sendTransfer :: "demo_env \<Rightarrow> u64 \<Rightarrow> int \<Rightarrow> byte_list \<Rightarrow> byte_list \<Rightarrow> go_error + Transaction" where
  "demo_sendTransfer E nonce gasPrice contractAddr toAddr =
     (let tx = \<lparr>tx_nonce = nonce, tx_to = Some contractAddr, tx_gas = 100000, tx_gas_price = gasPrice, tx_data = demo_data toAddr\<rparr>
      in case first_error [de_keyed E, de_signed E, de_sent E] of Some e \<Rightarrow> Inl e | None \<Rightarrow> Inr tx)"

text \<open>The ten transfers: a failed one is skipped, its nonce too.\<close>

fun demo_transfers :: "(nat \<Rightarrow> demo_env) \<Rightarrow> u64 \<Rightarrow> int \<Rightarrow> byte_list \<Rightarrow> byte_list \<Rightarrow> nat \<Rightarrow> nat \<Rightarrow> Transaction list" where
  "demo_transfers E nonce gasPrice contract to i 0 = []"
| "demo_transfers E nonce gasPrice contract to i (Suc k) =
     (case demo_sendTransfer (E i) (nonce + of_nat i) gasPrice contract to of
        Inl e \<Rightarrow> demo_transfers E nonce gasPrice contract to (Suc i) k
      | Inr tx \<Rightarrow> tx # demo_transfers E nonce gasPrice contract to (Suc i) k)"

definition demo_recipient :: byte_list where
  "demo_recipient = HexToAddress ''0x70997970C51812e339D9B73b0245ad59e5E05a77''"

text \<open>The program: the transactions it has sent. \<open>key_ok\<close>: the key parses and is an ECDSA key.\<close>

definition demo_main ::
    "go_error + int \<Rightarrow> bool \<Rightarrow> go_error + u64 \<Rightarrow> go_error + int \<Rightarrow> demo_env \<Rightarrow> byte_list \<Rightarrow> (nat \<Rightarrow> demo_env) \<Rightarrow> Transaction list" where
  "demo_main chainID key_ok nonce gasPrice D bytecode E =
     (case (chainID, nonce, gasPrice) of
        (Inr c, Inr n, Inr p) \<Rightarrow>
          if \<not> key_ok then []
          else (case demo_deployContract D bytecode n p of
                  (tx, Inl e) \<Rightarrow> (case tx of None \<Rightarrow> [] | Some t \<Rightarrow> [t])
                | (tx, Inr contract) \<Rightarrow> (case tx of None \<Rightarrow> [] | Some t \<Rightarrow> [t]) @ demo_transfers E (n + 1) p contract demo_recipient 0 10)
      | _ \<Rightarrow> [])"

lemma bytes_nat_zeros: "bytes_nat (bs @ replicate n 0) = bytes_nat bs * 256 ^ n"
proof (induction n)
  case (Suc n)
  have "bytes_nat (bs @ replicate n 0 @ [0]) = bytes_nat (bs @ replicate n 0) * 256" by (simp add: bytes_nat_def)
  with Suc show ?case by (simp flip: replicate_append_same)
qed simp

text \<open>
  The call data of the demo is not that of a token transfer: the recipient is not padded to 32 bytes. Read as the contract
  reads it, with zeros behind the end, the recipient's word does not start with twelve zeros and the amount is
  \<open>100 * 256 ^ 12\<close>.
\<close>

lemma demo_transfer_malformed:
  assumes "length to = 20"
  defines "word i \<equiv> take 32 (drop (4 + 32 * i) (demo_data to @ replicate 64 0))"
  shows "length (demo_data to) = 56" and "word 0 = to @ replicate 12 0" and "bytes_nat (word 1) = 100 * 256 ^ 12"
    and "demo_data to \<noteq> transfer_data to 100"
proof -
  have data: "demo_data to = [0xa9, 0x05, 0x9c, 0xbb] @ to @ replicate 31 0 @ [100]"
  proof -
    have "replicate 32 (0 :: 8 word) = replicate 31 0 @ [0]" by (simp add: replicate_append_same flip: replicate_Suc)
    then show ?thesis using assms(1) by (simp add: demo_data_def Let_def list_update_append)
  qed
  show len: "length (demo_data to) = 56" using assms(1) by (simp add: data)
  show "word 0 = to @ replicate 12 0" using assms(1) by (simp add: word_def data)
  have "word 1 = replicate 19 0 @ [100] @ replicate 12 0" using assms(1) by (simp add: word_def data)
  then have "bytes_nat (word 1) = bytes_nat ([100] @ replicate 12 0)"
    using bytes_nat_pad [of "[100] @ replicate 12 0" 32] by (simp add: LeftPadBytes_def)
  also have "\<dots> = 100 * 256 ^ 12" unfolding bytes_nat_zeros by (simp add: bytes_nat_def)
  finally show "bytes_nat (word 1) = 100 * 256 ^ 12" .
  show "demo_data to \<noteq> transfer_data to 100"
    using len transfer_data_decodes [of to 100] assms(1) by fastforce
qed

lemma demo_nonces:
  "map tx_nonce (demo_transfers E nonce p c to i k) = map (\<lambda>j. nonce + of_nat j)
     (filter (\<lambda>j. first_error [de_keyed (E j), de_signed (E j), de_sent (E j)] = None) [i..<i + k])"
proof (induction k arbitrary: i)
  case (Suc k)
  have "[i..<i + Suc k] = i # [Suc i..<Suc i + k]" by (simp add: upt_conv_Cons)
  with Suc show ?case by (simp add: demo_sendTransfer_def Let_def del: upt_Suc split: option.split)
qed simp

subsection \<open>The traffic injector (tools/chaos)\<close>

record tool_account =
  ta_addr :: byte_list
  ta_nonce :: u64

text \<open>
  One round: the account and action drawn, the recipient, the random bytes (\<open>None\<close>: the source fails) and whether signing and
  sending succeed. A transaction that could not be signed is nil, and sending it panics.
\<close>

record tool_round =
  tr_account :: nat
  tr_action :: nat
  tr_to :: nat
  tr_bytes :: "byte_list option"
  tr_gas_price :: int
  tr_sign_ok :: bool
  tr_send_ok :: bool

definition chaos_secureIntn :: "nat option \<Rightarrow> int \<Rightarrow> int" where
  "chaos_secureIntn val n = (if n \<le> 0 then 0 else case val of None \<Rightarrow> 0 | Some v \<Rightarrow> int v mod n)"

definition tool_call :: "u64 \<Rightarrow> byte_list option \<Rightarrow> int \<Rightarrow> u64 \<Rightarrow> int \<Rightarrow> byte_list \<Rightarrow> pro_tx" where
  "tool_call nonce to value gas price data =
     \<lparr>tx_nonce = nonce, tx_to = to, tx_gas = gas, tx_gas_price = price, tx_data = data, tx_value = value\<rparr>"

definition tool_tx :: "tool_account list \<Rightarrow> tool_round \<Rightarrow> u64 \<Rightarrow> pro_tx option" where
  "tool_tx accs r nonce =
     (let to = Some (ta_addr (accs ! tr_to r)); p = tr_gas_price r
      in if tr_action r = 0 then Some (tool_call nonce to (10 ^ 15) 21000 p [])
         else if tr_action r = 1
         then Some (tool_call nonce (Some (HexToAddress ''0xA0b86991c6218b36c1d19D4a2e9Eb0cE3606eB48'')) 0 100000 p
                (transfer_data (HexToAddress ''0x70997970c51812dc3a010c7d01b50e0d17dc79ee'') 1))
         else if tr_action r = 2
         then Some (tool_call nonce (Some (HexToAddress ''0xdAC17F958D2ee523a2206206994597C13D831ec7'')) 0 100000 p
                (approve_data (HexToAddress ''0x3c44cdddb6a900fa2b585dd299e03d12fa4293bc'')))
         else if tr_action r = 3
         then Some (tool_call nonce None 0 500000 p
                (hex_pairs ''6080604052348015600f57600080fd5b50603e80601d6000396000f3fe6080604052600080fdfea2646970667358221220ec73696c6c7920636f6e7472616374206279206169206167656e7464736f6c63430008120033''))
         else map_option (\<lambda>b. tool_call nonce to 0 1000000 p b) (tr_bytes r))"

text \<open>The lock of the account makes a round atomic. The result is the new accounts and the accepted transaction.\<close>

definition tool_step :: "tool_round \<Rightarrow> tool_account list \<Rightarrow> (tool_account list \<times> (nat \<times> pro_tx) list) go" where
  "tool_step r accs =
     (let acc = accs ! tr_account r in
      case tool_tx accs r (ta_nonce acc) of
        None \<Rightarrow> Ret (accs, [])
      | Some tx \<Rightarrow>
          if \<not> tr_sign_ok r then Panic
          else if tr_send_ok r then Ret (accs[tr_account r := acc\<lparr>ta_nonce := ta_nonce acc + 1\<rparr>], [(tr_account r, tx)])
          else Ret (accs, []))"

fun tool_run :: "tool_round list \<Rightarrow> tool_account list \<Rightarrow> (tool_account list \<times> (nat \<times> pro_tx) list) go" where
  "tool_run [] accs = Ret (accs, [])"
| "tool_run (r # rs) accs =
     go_bind (tool_step r accs) (\<lambda>(a1, t1). go_bind (tool_run rs a1) (\<lambda>(a2, t2). Ret (a2, t1 @ t2)))"

lemma tool_tx_nonce: "tool_tx accs r n = Some tx \<Longrightarrow> tx_nonce tx = n"
  by (auto simp: tool_tx_def tool_call_def Let_def split: if_splits)

lemma tool_step_cases:
  assumes "tool_step r accs = Ret (a1, t1)"
  obtains "a1 = accs" "t1 = []"
  | t where "t1 = [(tr_account r, t)]" "tx_nonce t = ta_nonce (accs ! tr_account r)"
      "a1 = accs[tr_account r := (accs ! tr_account r)\<lparr>ta_nonce := ta_nonce (accs ! tr_account r) + 1\<rparr>]"
proof (cases "tool_tx accs r (ta_nonce (accs ! tr_account r))")
  case None
  with assms have "a1 = accs" "t1 = []" by (simp_all add: tool_step_def Let_def)
  then show thesis by (rule that(1))
next
  case (Some tx)
  show thesis
  proof (cases "tr_sign_ok r \<and> tr_send_ok r")
    case True
    with assms Some show thesis by (intro that(2) [of tx]) (simp_all add: tool_step_def Let_def tool_tx_nonce [OF Some])
  next
    case False
    with assms Some have "a1 = accs" "t1 = []" by (simp_all add: tool_step_def Let_def split: if_splits)
    then show thesis by (rule that(1))
  qed
qed

text \<open>The accepted transactions of every account carry consecutive nonces from its first one on, whatever sends fail.\<close>

lemma tool_nonces_consecutive:
  assumes "tool_run rs accs = Ret (accs', txs)" and "i < length accs" and "\<forall>r \<in> set rs. tr_account r < length accs"
  shows "let own = map snd (filter (\<lambda>(a, t). a = i) txs)
    in map tx_nonce own = map (\<lambda>j. ta_nonce (accs ! i) + of_nat j) [0..<length own]
      \<and> ta_nonce (accs' ! i) = ta_nonce (accs ! i) + of_nat (length own)"
  using assms
proof (induction rs arbitrary: accs accs' txs)
  case (Cons r rs)
  from Cons.prems(1) obtain a1 t1 t2 where s: "tool_step r accs = Ret (a1, t1)" and run: "tool_run rs a1 = Ret (accs', t2)"
    and txs: "txs = t1 @ t2" by auto
  from s have len: "length a1 = length accs" by (cases rule: tool_step_cases) simp_all
  let ?own = "map snd (filter (\<lambda>(a, t). a = i) t2)"
  have IH: "map tx_nonce ?own = map (\<lambda>j. ta_nonce (a1 ! i) + of_nat j) [0..<length ?own]"
    "ta_nonce (accs' ! i) = ta_nonce (a1 ! i) + of_nat (length ?own)"
    using Cons.IH [OF run] Cons.prems(2,3) len by (simp_all add: Let_def)
  from s show ?case
  proof (cases rule: tool_step_cases)
    case 1
    with IH show ?thesis by (simp add: txs Let_def)
  next
    case (2 t)
    show ?thesis
    proof (cases "tr_account r = i")
      case True
      then have a1: "ta_nonce (a1 ! i) = ta_nonce (accs ! i) + 1" using 2(3) Cons.prems(2) by simp
      have "map (\<lambda>j. ta_nonce (accs ! i) + of_nat j) [0..<Suc n] = ta_nonce (accs ! i) # map (\<lambda>j. ta_nonce (a1 ! i) + of_nat j) [0..<n]" for n
        by (simp add: map_upt_Suc a1 add_ac del: upt_Suc)
      with 2(1,2) True IH a1 show ?thesis by (simp add: txs Let_def add_ac del: upt_Suc)
    next
      case False
      with 2(1,3) IH show ?thesis by (simp add: txs Let_def)
    qed
  qed
qed simp

subsection \<open>The documentation index (tools/docs\_index)\<close>

record DocFileInfo =
  doc_Path :: string
  doc_Title :: string
  doc_Description :: string
  doc_Category :: string

definition has_prefix :: "string \<Rightarrow> string \<Rightarrow> bool" where
  "has_prefix p s \<longleftrightarrow> take (length p) s = p"

definition has_suffix :: "string \<Rightarrow> string \<Rightarrow> bool" where
  "has_suffix q s \<longleftrightarrow> length q \<le> length s \<and> drop (length s - length q) s = q"

definition trim_quotes :: "string \<Rightarrow> string" where
  "trim_quotes s = rev (dropWhile (\<lambda>c. c = CHR 0x22) (rev (dropWhile (\<lambda>c. c = CHR 0x22) s)))"

text \<open>The scan of the lines, up to the end of the front matter: the title so far and the front matter.\<close>

fun scan_doc :: "bool \<Rightarrow> string \<Rightarrow> string list \<Rightarrow> string \<Rightarrow> string list \<Rightarrow> string \<times> string list" where
  "scan_doc inFrontMatter rel [] title front = (title, front)"
| "scan_doc inFrontMatter rel (l # ls) title front =
     (if l = ''---'' then (if \<not> inFrontMatter then scan_doc True rel ls title front else (title, front))
      else if inFrontMatter then scan_doc True rel ls title (front @ [l])
      else if has_prefix ''# '' l \<and> title = rel then scan_doc False rel ls (drop 2 l) front
      else scan_doc False rel ls title front)"

definition front_matter :: "string \<Rightarrow> DocFileInfo \<Rightarrow> DocFileInfo" where
  "front_matter l info =
     (let info1 = (if has_prefix ''title:'' l then info\<lparr>doc_Title := trim_quotes (TrimSpace (drop 6 l))\<rparr> else info)
      in if has_prefix ''ai_context:'' l then info1\<lparr>doc_Description := trim_quotes (TrimSpace (drop 11 l))\<rparr> else info1)"

text \<open>\<open>None\<close>: the file cannot be opened. Lines are shorter than the limit of the scanner.\<close>

definition extractDocInfo :: "string list option \<Rightarrow> string \<Rightarrow> DocFileInfo" where
  "extractDocInfo content relPath =
     (let info = \<lparr>doc_Path = relPath, doc_Title = relPath, doc_Description = [], doc_Category = []\<rparr>
      in case content of
           None \<Rightarrow> info
         | Some ls \<Rightarrow> (case scan_doc False relPath ls relPath [] of (title, front) \<Rightarrow> fold front_matter front (info\<lparr>doc_Title := title\<rparr>)))"

definition doc_categories :: "string list" where
  "doc_categories = [''01-Architecture'', ''02-Database'', ''03-Web3-RPC'', ''04-Observability'', ''99-Operations'']"

text \<open>A directory entry is its name and whether it is a directory; \<open>dir\<close> is \<open>None\<close> for a directory that cannot be read.\<close>

definition docs_of :: "(string \<Rightarrow> (string \<times> bool) list option) \<Rightarrow> (string \<Rightarrow> string list option) \<Rightarrow> string \<Rightarrow> DocFileInfo list" where
  "docs_of dir content cat =
     (case dir cat of
        None \<Rightarrow> []
      | Some files \<Rightarrow>
          map (\<lambda>(name, d). let path = cat @ ''/'' @ name in (extractDocInfo (content path) path)\<lparr>doc_Category := cat\<rparr>)
            (filter (\<lambda>(name, d). \<not> d \<and> has_suffix ''.md'' name) files))"

definition doc_entry :: "DocFileInfo \<Rightarrow> string" where
  "doc_entry doc =
     ''- ['' @ doc_Title doc @ ''](''  @ doc_Path doc @ '')'' @ (if doc_Description doc \<noteq> [] then '' - '' @ doc_Description doc else []) @ [CHR 10]"

definition summary_section :: "string \<Rightarrow> DocFileInfo list \<Rightarrow> string list" where
  "summary_section cat docs = (if docs = [] then [] else [''## '' @ cat @ [CHR 10]] @ map doc_entry docs @ [[CHR 10]])"

text \<open>The strings written to the summary file, in order.\<close>

definition generateSummary :: "string list \<Rightarrow> (string \<Rightarrow> DocFileInfo list) \<Rightarrow> string list" where
  "generateSummary categories docsByCat =
     [''# Documentation Index'' @ [CHR 10, CHR 10],
      ''Welcome to the Web3 Indexer documentation. This index is automatically generated.'' @ [CHR 10, CHR 10]]
     @ concat (map (\<lambda>cat. summary_section cat (docsByCat cat)) categories)
     @ [''---'' @ [CHR 10], ''*Last Updated: Sunday, February 15, 2026*'' @ [CHR 10]]"

definition docs_index :: "(string \<Rightarrow> (string \<times> bool) list option) \<Rightarrow> (string \<Rightarrow> string list option) \<Rightarrow> string list" where
  "docs_index dir content = generateSummary doc_categories (docs_of dir content)"

lemma scan_front: "''---'' \<notin> set front \<Longrightarrow> scan_doc True rel (front @ ''---'' # rest) title acc = (title, acc @ front)"
  by (induction front arbitrary: acc) auto

text \<open>Behind the front matter nothing counts: neither headings nor further lines change the entry.\<close>

lemma front_matter_decides:
  assumes "''---'' \<notin> set front"
  shows "extractDocInfo (Some (''---'' # front @ ''---'' # rest)) rel =
    fold front_matter front \<lparr>doc_Path = rel, doc_Title = rel, doc_Description = [], doc_Category = []\<rparr>"
  using scan_front [OF assms, of rel rest rel "[]"] by (simp add: extractDocInfo_def Let_def)

text \<open>Every Markdown file of the listed categories is in the index.\<close>

lemma listed_docs_indexed:
  assumes "cat \<in> set doc_categories" and "dir cat = Some files" and "(name, False) \<in> set files" and "has_suffix ''.md'' name"
  shows "doc_entry ((extractDocInfo (content (cat @ ''/'' @ name)) (cat @ ''/'' @ name))\<lparr>doc_Category := cat\<rparr>) \<in> set (docs_index dir content)"
proof -
  let ?doc = "(extractDocInfo (content (cat @ ''/'' @ name)) (cat @ ''/'' @ name))\<lparr>doc_Category := cat\<rparr>"
  have "?doc \<in> set (docs_of dir content cat)"
    using assms(2-4) by (force simp: docs_of_def Let_def)
  then have "doc_entry ?doc \<in> set (summary_section cat (docs_of dir content cat))" by (auto simp: summary_section_def)
  with assms(1) show ?thesis by (auto simp: docs_index_def generateSummary_def)
qed

text \<open>Other directories do not matter, so the documents of, say, \<open>02-Logic\<close> and \<open>03-Operations\<close> are in no index.\<close>

lemma other_docs_ignored:
  assumes "\<And>cat. cat \<in> set doc_categories \<Longrightarrow> dir cat = dir' cat"
  shows "docs_index dir content = docs_index dir' content"
proof -
  have "docs_of dir content cat = docs_of dir' content cat" if "cat \<in> set doc_categories" for cat
    using assms [OF that] by (simp add: docs_of_def)
  then show ?thesis by (simp add: docs_index_def generateSummary_def cong: map_cong)
qed

subsection \<open>The stress test (tools/stress)\<close>

text \<open>The loop counts blocks; \<open>elapsed i\<close> is the time at its \<open>i\<close>-th check.\<close>

fun stress_loop :: "(nat \<Rightarrow> duration) \<Rightarrow> nat \<Rightarrow> nat \<Rightarrow> nat \<Rightarrow> nat" where
  "stress_loop elapsed i 0 cnt = cnt"
| "stress_loop elapsed i (Suc k) cnt =
     (if i mod 1000 = 0 \<and> elapsed i > 30 * second then cnt + 1 else stress_loop elapsed (Suc i) k (cnt + 1))"

definition generateMockTransactions :: "nat \<Rightarrow> Transaction list" where
  "generateMockTransactions n =
     map (\<lambda>i. \<lparr>tx_nonce = of_nat i, tx_to = Some (replicate 20 0), tx_gas = 21000, tx_gas_price = 1, tx_data = []\<rparr>) [0..<n]"

text \<open>Blocks per second, printed as transactions per second.\<close>

definition stress_rate :: "nat \<Rightarrow> duration \<Rightarrow> rat" where
  "stress_rate cnt totalTime = of_nat cnt / (of_int totalTime / of_int second)"

lemma stress_stops: "cnt \<le> stress_loop elapsed i k cnt \<and> stress_loop elapsed i k cnt \<le> cnt + k"
  by (induction elapsed i k cnt rule: stress_loop.induct) auto

lemma stress_time_bound:
  assumes "i \<le> m" and "m mod 1000 = 0" and "elapsed m > 30 * second" and "m < i + k"
  shows "stress_loop elapsed i k cnt \<le> cnt + (m - i) + 1"
  using assms
proof (induction elapsed i k cnt rule: stress_loop.induct)
  case (2 elapsed i k cnt)
  then show ?case by (cases "i = m") auto
qed simp

end
