(* ===== verification/Metrics_Registry.thy ===== *)
theory Metrics_Registry
  imports Telemetry Global_State
begin

section \<open>The instruments and their registration (metrics\_core.go, metrics\_methods.go, quota\_monitor.go)\<close>

text \<open>
  Every instrument of the program is registered once under its name; a second registration of a name panics, and so does
  the use of an instrument with another number of labels than it was registered with. Help texts are left out.
\<close>

subsection \<open>Registration\<close>

datatype instrument_kind = KCounter | KGauge | KHistogram

record instrument =
  in_field :: string
  in_kind :: instrument_kind
  in_name :: string
  in_labels :: "string list"

definition instr :: "string \<Rightarrow> instrument_kind \<Rightarrow> string \<Rightarrow> string list \<Rightarrow> instrument" where
  "instr f k n ls = \<lparr>in_field = f, in_kind = k, in_name = n, in_labels = ls\<rparr>"

text \<open>The instruments that \<open>NewMetrics\<close> makes, in the order of the code.\<close>

definition metric_table :: "instrument list" where
  "metric_table =
    [
instr ''BlocksProcessed'' KCounter ''indexer_blocks_processed_total'' [],
     instr ''BlocksFailed'' KCounter ''indexer_blocks_failed_total'' [],
     instr ''BlocksSkipped'' KCounter ''indexer_blocks_skipped_total'' [],
     instr ''ProcessingTime'' KHistogram ''indexer_block_processing_duration_seconds'' [],
     instr ''ReorgsDetected'' KCounter ''indexer_reorgs_detected_total'' [],
     instr ''ReorgsHandled'' KCounter ''indexer_reorgs_handled_total'' [],
     instr ''TransfersProcessed'' KCounter ''indexer_transfers_processed_total'' [],
     instr ''TransfersFailed'' KCounter ''indexer_transfers_failed_total'' [],
     instr ''FetcherJobsQueued'' KCounter ''indexer_fetcher_jobs_queued_total'' [],
     instr ''FetcherJobsComplete'' KCounter ''indexer_fetcher_jobs_completed_total'' [],
     instr ''FetcherJobsFailed'' KCounter ''indexer_fetcher_jobs_failed_total'' [],
     instr ''FetcherRateLimited'' KCounter ''indexer_fetcher_rate_limited_total'' [],
     instr ''FetcherJobsQueueDepth'' KGauge ''indexer_fetcher_jobs_queue_depth'' [],
     instr ''FetcherResultsDepth'' KGauge ''indexer_fetcher_results_depth'' [],
     instr ''FetchTime'' KHistogram ''indexer_fetch_duration_seconds'' [],
     instr ''SequencerBufferSize'' KGauge ''indexer_sequencer_buffer_size'' [],
     instr ''SequencerBufferFull'' KCounter ''indexer_sequencer_buffer_full_total'' [],
     instr ''BroadcastDropped'' KCounter ''indexer_broadcast_dropped_total'' [],
     instr ''RPCRequestsTotal'' KCounter ''indexer_rpc_requests_total'' [''node'', ''method''],
     instr ''RPCRequestsFailed'' KCounter ''indexer_rpc_requests_failed_total'' [''node'', ''method''],
     instr ''RPCLatency'' KHistogram ''indexer_rpc_request_duration_seconds'' [''node'', ''method''],
     instr ''RPCHealthyNodes'' KGauge ''indexer_rpc_healthy_nodes'' [''pool''],
     instr ''DBConnectionsActive'' KGauge ''indexer_db_connections_active'' [],
     instr ''DBQueriesTotal'' KCounter ''indexer_db_queries_total'' [''operation''],
     instr ''DBQueryLatency'' KHistogram ''indexer_db_query_duration_seconds'' [''operation''],
     instr ''DBErrors'' KCounter ''indexer_db_errors_total'' [''operation''],
     instr ''DBPoolMaxConns'' KGauge ''indexer_db_pool_max_connections'' [],
     instr ''DBPoolIdleConns'' KGauge ''indexer_db_pool_idle_connections'' [],
     instr ''DBPoolInUse'' KGauge ''indexer_db_pool_in_use'' [],
     instr ''LabModeEnabled'' KGauge ''indexer_lab_mode_enabled'' [],
     instr ''CheckpointUpdates'' KCounter ''indexer_checkpoint_updates_total'' [],
     instr ''StartTime'' KGauge ''indexer_start_time_seconds'' [],
     instr ''SystemState'' KGauge ''indexer_system_state_code'' [],
     instr ''CurrentSyncHeight'' KGauge ''indexer_current_sync_height'' [],
     instr ''CurrentChainHeight'' KGauge ''indexer_current_chain_height'' [],
     instr ''SyncLag'' KGauge ''indexer_sync_lag_blocks'' [],
     instr ''E2ELatency'' KGauge ''indexer_e2e_latency_seconds'' [],
     instr ''RealtimeTPS'' KGauge ''indexer_realtime_tps'' [],
     instr ''RealtimeBPS'' KGauge ''indexer_realtime_bps'' [],
     instr ''DiskFree'' KGauge ''indexer_disk_free_percent'' [],
     instr ''TransactionTypesTotal'' KCounter ''indexer_transaction_types_total'' [''type''],
     instr ''TokenTransferVolume'' KCounter ''indexer_token_transfer_volume_total'' [''symbol''],
     instr ''TokenTransferCount'' KCounter ''indexer_token_transfer_count_total'' [''symbol''],
     instr ''ReplayProgress'' KGauge ''indexer_replay_progress_percentage'' [],
     instr ''SelfHealingTriggered'' KCounter ''indexer_self_healing_triggered_total'' [],
     instr ''SelfHealingSuccess'' KCounter ''indexer_self_healing_success_total'' [],
     instr ''SelfHealingFailure'' KCounter ''indexer_self_healing_failure_total'' []
    ]"

text \<open>The two gauges of the quota monitor share the registry.\<close>

definition quota_table :: "instrument list" where
  "quota_table =
    [instr ''usageGauge'' KGauge ''rpc_quota_usage_percent'' [], instr ''statusGauge'' KGauge ''rpc_quota_status'' []]"

fun register_all :: "instrument list \<Rightarrow> string list \<Rightarrow> string list go" where
  "register_all [] names = Ret names"
| "register_all (x # xs) names = (if in_name x \<in> set names then Panic else register_all xs (in_name x # names))"

lemma register_all_distinct:
  "distinct (map in_name xs) \<Longrightarrow> in_name ` set xs \<inter> set names = {} \<Longrightarrow> register_all xs names = Ret (rev (map in_name xs) @ names)"
  by (induction xs arbitrary: names) auto

lemma instrument_names_distinct: "distinct (map in_name (metric_table @ quota_table))"
  by code_simp

text \<open>No name is used twice, so neither singleton panics when it is created, in whatever order they are.\<close>

lemma registration_returns:
  "register_all (metric_table @ quota_table) [] \<noteq> Panic" "register_all (quota_table @ metric_table) [] \<noteq> Panic"
proof -
  have "distinct (map in_name (quota_table @ metric_table))" using instrument_names_distinct by (auto simp: Int_commute)
  then show "register_all (metric_table @ quota_table) [] \<noteq> Panic" "register_all (quota_table @ metric_table) [] \<noteq> Panic"
    using instrument_names_distinct register_all_distinct [of _ "[]"] by (metis Int_empty_right empty_set go.distinct(1))+
qed

subsection \<open>The methods\<close>

text \<open>The values of the constants of \<open>SystemStateEnum\<close>, in the order of their declaration.\<close>

fun state_code :: "SystemStateEnum \<Rightarrow> nat" where
  "state_code SystemStateUnknown = 0"
| "state_code SystemStateIdle = 1"
| "state_code SystemStateActive = 2"
| "state_code SystemStateCatchingUp = 3"
| "state_code SystemStateStalled = 4"
| "state_code SystemStateHealing = 5"
| "state_code SystemStateDegraded = 6"
| "state_code SystemStateRunning = 7"
| "state_code SystemStateOptimizing = 8"
| "state_code SystemStateThrottled = 9"

definition RecordBlockFailed :: "instruments \<Rightarrow> instruments" where
  "RecordBlockFailed i = inc (''BlocksFailed'', []) i"

definition RecordBlockSkipped :: "instruments \<Rightarrow> instruments" where
  "RecordBlockSkipped i = inc (''BlocksSkipped'', []) i"

definition RecordReorgDetected :: "instruments \<Rightarrow> instruments" where
  "RecordReorgDetected i = inc (''ReorgsDetected'', []) i"

definition RecordReorgHandled :: "instruments \<Rightarrow> instruments" where
  "RecordReorgHandled i = inc (''ReorgsHandled'', []) i"

definition RecordTransferFailed :: "instruments \<Rightarrow> instruments" where
  "RecordTransferFailed i = inc (''TransfersFailed'', []) i"

definition RecordFetcherJobQueued :: "instruments \<Rightarrow> instruments" where
  "RecordFetcherJobQueued i = inc (''FetcherJobsQueued'', []) i"

definition RecordFetcherJobFailed :: "instruments \<Rightarrow> instruments" where
  "RecordFetcherJobFailed i = inc (''FetcherJobsFailed'', []) i"

definition RecordFetcherRateLimited :: "instruments \<Rightarrow> instruments" where
  "RecordFetcherRateLimited i = inc (''FetcherRateLimited'', []) i"

definition RecordSequencerBufferFull :: "instruments \<Rightarrow> instruments" where
  "RecordSequencerBufferFull i = inc (''SequencerBufferFull'', []) i"

definition UpdateSequencerBufferSize :: "int \<Rightarrow> instruments \<Rightarrow> instruments" where
  "UpdateSequencerBufferSize v i = set_gauge (''SequencerBufferSize'', []) (of_int v) i"

definition UpdateSystemState :: "SystemStateEnum \<Rightarrow> instruments \<Rightarrow> instruments" where
  "UpdateSystemState v i = set_gauge (''SystemState'', []) (of_nat (state_code v)) i"

definition RecordStartTime :: "time \<Rightarrow> instruments \<Rightarrow> instruments" where
  "RecordStartTime v i = set_gauge (''StartTime'', []) (of_int v / of_int second) i"

definition UpdateRealtimeTPS :: "rat \<Rightarrow> instruments \<Rightarrow> instruments" where
  "UpdateRealtimeTPS v i = set_gauge (''RealtimeTPS'', []) (v) i"

definition UpdateRealtimeBPS :: "rat \<Rightarrow> instruments \<Rightarrow> instruments" where
  "UpdateRealtimeBPS v i = set_gauge (''RealtimeBPS'', []) (v) i"

definition UpdateReplayProgress :: "rat \<Rightarrow> instruments \<Rightarrow> instruments" where
  "UpdateReplayProgress v i = set_gauge (''ReplayProgress'', []) (v) i"

text \<open>A counter refuses to fall: a negative amount panics.\<close>

definition add_counter :: "series \<Rightarrow> rat \<Rightarrow> instruments \<Rightarrow> instruments go" where
  "add_counter s v i = (if v < 0 then Panic else Ret (i\<lparr>counters := (counters i)(s := counters i s + v)\<rparr>))"

definition RecordTokenTransfer :: "string \<Rightarrow> rat \<Rightarrow> instruments \<Rightarrow> instruments go" where
  "RecordTokenTransfer symbol amount i =
     go_bind (add_counter (''TokenTransferVolume'', [symbol]) amount i) (\<lambda>i1. Ret (inc (''TokenTransferCount'', [symbol]) i1))"

definition RecordTransferProcessed :: "Metrics \<Rightarrow> Metrics" where
  "RecordTransferProcessed m = m\<lparr>TransfersProcessed := TransfersProcessed m + 1, totalTxProcessed := totalTxProcessed m + 1\<rparr>"

definition RecordCheckpointUpdate :: "Metrics \<Rightarrow> Metrics" where
  "RecordCheckpointUpdate m = m\<lparr>CheckpointUpdates := CheckpointUpdates m + 1\<rparr>"

definition UpdateSyncLag :: "int \<Rightarrow> Metrics \<Rightarrow> Metrics" where
  "UpdateSyncLag lag m = m\<lparr>SyncLagGauge := lag\<rparr>"

definition UpdateE2ELatency :: "rat \<Rightarrow> Metrics \<Rightarrow> Metrics" where
  "UpdateE2ELatency seconds m = m\<lparr>E2ELatency := seconds\<rparr>"

definition GetWindowBPS :: "time \<Rightarrow> Metrics \<Rightarrow> rat" where
  "GetWindowBPS now m = GetTPS now (bpsMonitor m)"

definition Metrics_GetSnapshot :: "Metrics \<Rightarrow> u64 \<times> u64 \<times> u64 \<times> u64" where
  "Metrics_GetSnapshot m = (totalTxProcessed m, totalBlocksProcessed m, 0, 0)"

text \<open>A height that arrives after a manual lag replaces it: nothing of it remains.\<close>

lemma manual_lag_is_overwritten:
  "UpdateChainHeight h (UpdateSyncLag lag m) = UpdateChainHeight h m"
  "UpdateCurrentSyncHeight h (UpdateSyncLag lag m) = UpdateCurrentSyncHeight h m"
  by (simp_all add: UpdateChainHeight_def UpdateCurrentSyncHeight_def UpdateSyncLag_def recalculateLag_def Let_def)

subsection \<open>Labels\<close>

definition label_count :: "instrument_kind \<Rightarrow> string \<Rightarrow> nat option" where
  "label_count k f = map_option (\<lambda>x. length (in_labels x)) (find (\<lambda>x. in_field x = f \<and> in_kind x = k) metric_table)"

definition well_labelled :: "instrument_kind \<Rightarrow> series \<Rightarrow> bool" where
  "well_labelled k s \<longleftrightarrow> label_count k (fst s) = Some (length (snd s))"

text \<open>Only registered series of the right kind and with the right number of labels have been touched.\<close>

definition registered :: "instruments \<Rightarrow> bool" where
  "registered i \<longleftrightarrow> (\<forall>s. counters i s \<noteq> 0 \<longrightarrow> well_labelled KCounter s) \<and> (\<forall>s. gauges i s \<noteq> 0 \<longrightarrow> well_labelled KGauge s)
     \<and> (\<forall>(s, v) \<in> set (observed i). well_labelled KHistogram s)"

datatype metrics_op =
    OpBlockFailed | OpBlockSkipped | OpReorgDetected | OpReorgHandled | OpTransferFailed | OpJobQueued | OpJobFailed
  | OpRateLimited | OpBufferFull | OpJobCompleted duration | OpRPCRequest string string duration bool
  | OpDBQuery string duration bool | OpHealthyNodes string int | OpDBPoolStats int int int | OpDBConnections int | OpLabMode bool
  | OpDiskFree rat | OpBufferSize int | OpSystemState SystemStateEnum | OpStartTime time | OpRealtimeTPS rat | OpRealtimeBPS rat
  | OpReplayProgress rat | OpTokenTransfer string rat

fun apply_op :: "metrics_op \<Rightarrow> instruments \<Rightarrow> instruments go" where
  "apply_op OpBlockFailed i = Ret (RecordBlockFailed i)"
| "apply_op OpBlockSkipped i = Ret (RecordBlockSkipped i)"
| "apply_op OpReorgDetected i = Ret (RecordReorgDetected i)"
| "apply_op OpReorgHandled i = Ret (RecordReorgHandled i)"
| "apply_op OpTransferFailed i = Ret (RecordTransferFailed i)"
| "apply_op OpJobQueued i = Ret (RecordFetcherJobQueued i)"
| "apply_op OpJobFailed i = Ret (RecordFetcherJobFailed i)"
| "apply_op OpRateLimited i = Ret (RecordFetcherRateLimited i)"
| "apply_op OpBufferFull i = Ret (RecordSequencerBufferFull i)"
| "apply_op (OpJobCompleted d) i = Ret (RecordFetcherJobCompleted d i)"
| "apply_op (OpRPCRequest n m d ok) i = Ret (RecordRPCRequest n m d ok i)"
| "apply_op (OpDBQuery q d ok) i = Ret (RecordDBQuery q d ok i)"
| "apply_op (OpHealthyNodes p n) i = Ret (UpdateRPCHealthyNodes p n i)"
| "apply_op (OpDBPoolStats a b c) i = Ret (UpdateDBPoolStats a b c i)"
| "apply_op (OpDBConnections n) i = Ret (UpdateDBConnections n i)"
| "apply_op (OpLabMode b) i = Ret (SetLabMode b i)"
| "apply_op (OpDiskFree v) i = Ret (UpdateDiskFree v i)"
| "apply_op (OpBufferSize n) i = Ret (UpdateSequencerBufferSize n i)"
| "apply_op (OpSystemState st) i = Ret (UpdateSystemState st i)"
| "apply_op (OpStartTime t) i = Ret (RecordStartTime t i)"
| "apply_op (OpRealtimeTPS v) i = Ret (UpdateRealtimeTPS v i)"
| "apply_op (OpRealtimeBPS v) i = Ret (UpdateRealtimeBPS v i)"
| "apply_op (OpReplayProgress v) i = Ret (UpdateReplayProgress v i)"
| "apply_op (OpTokenTransfer s v) i = RecordTokenTransfer s v i"

lemma label_counts [simp]:
  "label_count KCounter ''BlocksFailed'' = Some 0"
  "label_count KCounter ''BlocksSkipped'' = Some 0"
  "label_count KCounter ''ReorgsDetected'' = Some 0"
  "label_count KCounter ''ReorgsHandled'' = Some 0"
  "label_count KCounter ''TransfersFailed'' = Some 0"
  "label_count KCounter ''FetcherJobsQueued'' = Some 0"
  "label_count KCounter ''FetcherJobsFailed'' = Some 0"
  "label_count KCounter ''FetcherRateLimited'' = Some 0"
  "label_count KCounter ''SequencerBufferFull'' = Some 0"
  "label_count KCounter ''FetcherJobsComplete'' = Some 0"
  "label_count KCounter ''RPCRequestsTotal'' = Some (Suc (Suc 0))"
  "label_count KCounter ''RPCRequestsFailed'' = Some (Suc (Suc 0))"
  "label_count KCounter ''DBQueriesTotal'' = Some (Suc 0)"
  "label_count KCounter ''DBErrors'' = Some (Suc 0)"
  "label_count KCounter ''TokenTransferVolume'' = Some (Suc 0)"
  "label_count KCounter ''TokenTransferCount'' = Some (Suc 0)"
  "label_count KGauge ''SequencerBufferSize'' = Some 0"
  "label_count KGauge ''SystemState'' = Some 0"
  "label_count KGauge ''StartTime'' = Some 0"
  "label_count KGauge ''RealtimeTPS'' = Some 0"
  "label_count KGauge ''RealtimeBPS'' = Some 0"
  "label_count KGauge ''ReplayProgress'' = Some 0"
  "label_count KGauge ''RPCHealthyNodes'' = Some (Suc 0)"
  "label_count KGauge ''DBPoolInUse'' = Some 0"
  "label_count KGauge ''DBPoolIdleConns'' = Some 0"
  "label_count KGauge ''DBPoolMaxConns'' = Some 0"
  "label_count KGauge ''DBConnectionsActive'' = Some 0"
  "label_count KGauge ''LabModeEnabled'' = Some 0"
  "label_count KGauge ''DiskFree'' = Some 0"
  "label_count KHistogram ''FetchTime'' = Some 0"
  "label_count KHistogram ''RPCLatency'' = Some (Suc (Suc 0))"
  "label_count KHistogram ''DBQueryLatency'' = Some (Suc 0)"
  by code_simp+

lemma registered_inc: "registered i \<Longrightarrow> well_labelled KCounter s \<Longrightarrow> registered (inc s i)"
  by (auto simp: registered_def inc_def)

lemma registered_gauge: "registered i \<Longrightarrow> well_labelled KGauge s \<Longrightarrow> registered (set_gauge s v i)"
  by (auto simp: registered_def set_gauge_def)

lemma registered_observe: "registered i \<Longrightarrow> well_labelled KHistogram s \<Longrightarrow> registered (observe s d i)"
  by (auto simp: registered_def observe_def)

lemma registered_add: "registered i \<Longrightarrow> well_labelled KCounter s \<Longrightarrow> add_counter s v i = Ret i' \<Longrightarrow> registered i'"
  by (auto simp: registered_def add_counter_def split: if_splits)

lemmas method_defs =
  RecordBlockFailed_def RecordBlockSkipped_def RecordReorgDetected_def RecordReorgHandled_def RecordTransferFailed_def
  RecordFetcherJobQueued_def RecordFetcherJobFailed_def RecordFetcherRateLimited_def RecordSequencerBufferFull_def
  RecordFetcherJobCompleted_def RecordRPCRequest_def RecordDBQuery_def UpdateRPCHealthyNodes_def UpdateDBPoolStats_def
  UpdateDBConnections_def SetLabMode_def UpdateDiskFree_def UpdateSequencerBufferSize_def UpdateSystemState_def
  RecordStartTime_def UpdateRealtimeTPS_def UpdateRealtimeBPS_def UpdateReplayProgress_def RecordTokenTransfer_def

text \<open>No method uses an instrument in another way than it is registered, so the only panic is a negative token amount.\<close>

lemma methods_use_registered_series: "registered i \<Longrightarrow> apply_op c i = Ret i' \<Longrightarrow> registered i'"
  by (cases c)
    (auto simp: method_defs Let_def well_labelled_def intro!: registered_inc registered_gauge registered_observe
      dest!: registered_add [rotated 2] split: if_splits)

lemma methods_panic_iff: "apply_op c i = Panic \<longleftrightarrow> (\<exists>s v. c = OpTokenTransfer s v \<and> v < 0)"
  by (cases c) (auto simp: RecordTokenTransfer_def add_counter_def)

text \<open>Counters never fall.\<close>

lemma counters_grow: "apply_op c i = Ret i' \<Longrightarrow> counters i s \<le> counters i' s"
  by (cases c) (auto simp: method_defs inc_def set_gauge_def observe_def add_counter_def Let_def split: if_splits)

text \<open>Counter and total of the processed transfers agree, up to the width of the total.\<close>

lemma transfer_totals_agree:
  "totalTxProcessed m = of_nat (TransfersProcessed m) \<Longrightarrow>
     totalTxProcessed ((RecordTransferProcessed ^^ n) m) = of_nat (TransfersProcessed ((RecordTransferProcessed ^^ n) m))"
  by (induction n) (simp_all add: RecordTransferProcessed_def)

end
