(* ===== verification/Tool_Config.thy ===== *)
theory Tool_Config
  imports Simulators
begin

section \<open>Durations, the emulator's configuration, the injector's loop and texts\<close>

text \<open>
  \<open>time.ParseDuration\<close> of the standard library with the configuration of the emulator that rests on it
  (internal/emulator/config.go, emulator\_config.go), the loop of the transfer injector (simulator\_factory.go), the name of a
  network (pkg/network/verify.go) and the progress bar of the replay (cmd/indexer/replay.go). The fraction of a duration is
  scaled with exact numbers, where Go uses floats.
\<close>

subsection \<open>Durations\<close>

definition is_digit :: "char \<Rightarrow> bool" where
  "is_digit c \<longleftrightarrow> char_digit c \<noteq> None"

definition duration_unit :: "string \<Rightarrow> nat option" where
  "duration_unit = map_of
     [(''ns'', 1), (''us'', 10 ^ 3), ([CHR 0xC2, CHR 0xB5, CHR ''s''], 10 ^ 3), ([CHR 0xCE, CHR 0xBC, CHR ''s''], 10 ^ 3),
      (''ms'', 10 ^ 6), (''s'', 10 ^ 9), (''m'', 60 * 10 ^ 9), (''h'', 3600 * 10 ^ 9)]"

text \<open>The digits behind the point and their scale; digits that do not fit are dropped.\<close>

fun frac_digits :: "string \<Rightarrow> nat \<Rightarrow> nat \<Rightarrow> nat \<times> nat" where
  "frac_digits [] f scale = (f, scale)"
| "frac_digits (c # cs) f scale =
     (let y = f * 10 + (case char_digit c of None \<Rightarrow> 0 | Some d \<Rightarrow> d)
      in if f > (2 ^ 63 - 1) div 10 \<or> y > 2 ^ 63 then (f, scale) else frac_digits cs y (scale * 10))"

text \<open>A number: the digits before the point, those behind it, and the rest.\<close>

definition split_number :: "string \<Rightarrow> string \<times> string \<times> string" where
  "split_number s =
     (let r = dropWhile is_digit s
      in case r of
           c # r1 \<Rightarrow> if c = CHR ''.'' then (takeWhile is_digit s, takeWhile is_digit r1, dropWhile is_digit r1) else (takeWhile is_digit s, [], r)
         | [] \<Rightarrow> (takeWhile is_digit s, [], []))"

lemma split_number_shorter: "split_number s = (ds, fs, r) \<Longrightarrow> length r \<le> length s"
  using length_dropWhile_le [of is_digit s]
  by (auto simp: split_number_def Let_def split: list.splits if_splits intro: order.trans [OF length_dropWhile_le])

abbreviation unit_char :: "char \<Rightarrow> bool" where
  "unit_char c \<equiv> c \<noteq> CHR ''.'' \<and> \<not> is_digit c"

lemma unit_not_Nil: "duration_unit u = Some n \<Longrightarrow> u \<noteq> []"
  by (auto simp: duration_unit_def split: if_splits)

lemma unit_consumed:
  assumes "split_number s = (ds, fs, r)" and "duration_unit (takeWhile unit_char r) = Some n"
  shows "length (dropWhile unit_char r) < length s"
proof -
  have "takeWhile unit_char r \<noteq> []" using assms(2) by (rule unit_not_Nil)
  then obtain c r1 where "r = c # r1" "unit_char c" by (cases r) (auto split: if_splits)
  then have "length (dropWhile unit_char r) < length r" using length_dropWhile_le [of unit_char r1] by (simp add: less_Suc_eq_le)
  with split_number_shorter [OF assms(1)] show ?thesis by simp
qed

text \<open>The parts with their units; the sum \<open>d\<close> is a \<open>uint64\<close>.\<close>

function parse_parts :: "nat \<Rightarrow> string \<Rightarrow> nat option" where
  "parse_parts d s =
     (if s = [] then Some d
      else if unit_char (hd s) then None
      else case split_number s of (ds, fs, r) \<Rightarrow>
        let v = the (parse_digits 0 ds) in
        if v > 2 ^ 63 \<or> (ds = [] \<and> fs = []) then None
        else
          (case duration_unit (takeWhile unit_char r) of
             None \<Rightarrow> None
           | Some unit \<Rightarrow>
               if v > 2 ^ 63 div unit then None
               else
                 (case frac_digits fs 0 1 of (f, scale) \<Rightarrow>
                    let w = v * unit + f * unit div scale; d1 = (d + w) mod 2 ^ 64
                    in if w > 2 ^ 63 \<or> d1 > 2 ^ 63 then None else parse_parts d1 (dropWhile unit_char r))))"
  by pat_completeness auto

termination
  by (relation "measure (\<lambda>(d, s). length s)") (auto dest!: unit_consumed sym [of "(_, _, _)"] simp: Let_def)

declare parse_parts.simps [simp del]

definition ParseDuration :: "string \<Rightarrow> duration option" where
  "ParseDuration s =
     (case split_sign s of (neg, t) \<Rightarrow>
        if t = ''0'' then Some 0
        else if t = [] then None
        else
          (case parse_parts 0 t of
             None \<Rightarrow> None
           | Some d \<Rightarrow> if neg then Some (- int d) else if d > 2 ^ 63 - 1 then None else Some (int d)))"

text \<open>A parsed duration fits into its \<open>int64\<close>.\<close>

lemma parse_parts_step:
  assumes "parse_parts d s = Some e" and "s \<noteq> []"
  obtains d1 ds fs r n where "split_number s = (ds, fs, r)" "duration_unit (takeWhile unit_char r) = Some n"
    "parse_parts d1 (dropWhile unit_char r) = Some e" "d1 \<le> 2 ^ 63"
  using assms by (subst (asm) (1) parse_parts.simps) (auto simp: Let_def not_less split: if_splits option.splits prod.splits)

lemma parse_parts_bound: "parse_parts d s = Some e \<Longrightarrow> d \<le> 2 ^ 63 \<Longrightarrow> e \<le> 2 ^ 63"
proof (induction s arbitrary: d rule: measure_induct_rule [of length])
  case (less s)
  show ?case
  proof (cases "s = []")
    case True
    with less.prems show ?thesis by (simp add: parse_parts.simps)
  next
    case False
    from parse_parts_step [OF less.prems(1) False] obtain d1 ds fs r n where
      "split_number s = (ds, fs, r)" "duration_unit (takeWhile unit_char r) = Some n"
      "parse_parts d1 (dropWhile unit_char r) = Some e" "d1 \<le> 2 ^ 63" .
    with less.IH unit_consumed show ?thesis by blast
  qed
qed

lemma ParseDuration_in_i64: "ParseDuration s = Some d \<Longrightarrow> in_i64 d"
proof -
  assume p: "ParseDuration s = Some d"
  obtain neg t where t: "split_sign s = (neg, t)" by fastforce
  show ?thesis
  proof (cases "t = ''0''")
    case True
    with p t show ?thesis by (simp add: ParseDuration_def min_i64_def max_i64_def)
  next
    case False
    with p t obtain e where e: "parse_parts 0 t = Some e" "d = (if neg then - int e else int e)" "neg \<or> e \<le> 2 ^ 63 - 1"
      by (auto simp: ParseDuration_def not_less split: if_splits option.splits)
    from parse_parts_bound [OF e(1)] have "e \<le> 2 ^ 63" by simp
    with e show ?thesis by (auto simp: min_i64_def max_i64_def split: if_splits)
  qed
qed

text \<open>A whole number with a unit is read as what it says.\<close>

lemma digits_of_dec_nat: "\<forall>c \<in> set (dec_nat n). is_digit c"
  using set_dec_nat by (fastforce simp: is_digit_def)

lemma parse_duration_text:
  assumes "duration_unit u = Some unit" and "\<forall>c \<in> set u. unit_char c" and "n * unit \<le> 2 ^ 63 - 1"
  shows "ParseDuration (dec_nat n @ u) = Some (int (n * unit))"
proof -
  obtain c cs where d: "dec_nat n = c # cs" by (cases "dec_nat n") auto
  have c: "is_digit (hd (dec_nat n))" using digits_of_dec_nat [of n] by (simp add: d)
  obtain u0 us where u: "u = u0 # us" using unit_not_Nil [OF assms(1)] by (cases u) auto
  have u0: "unit_char u0" using assms(2) by (simp add: u)
  have "takeWhile is_digit (dec_nat n @ u) = dec_nat n \<and> dropWhile is_digit (dec_nat n @ u) = u"
    unfolding u using digits_of_dec_nat u0 by (intro takeWhile_plain) auto
  then have sn: "split_number (dec_nat n @ u) = (dec_nat n, [], u)" using u0 by (simp add: split_number_def u)
  have w: "takeWhile unit_char u = u" "dropWhile unit_char u = []" using assms(2) by (simp_all add: takeWhile_eq_all_conv dropWhile_eq_Nil_conv)
  have pos: "0 < unit" using assms(1) by (auto simp: duration_unit_def split: if_splits)
  have le: "n \<le> n * unit" using pos by simp
  have small: "n \<le> 2 ^ 63" "n \<le> 2 ^ 63 div unit"
    using order.trans [OF le assms(3)] assms(3) pos by (simp_all add: less_eq_div_iff_mult_less_eq)
  have "parse_parts 0 (dec_nat n @ u) = Some (n * unit)"
    using assms(1,3) small c by (subst parse_parts.simps) (simp add: sn w parse_digits_dec_nat Let_def parse_parts.simps [of _ "[]"])
  moreover have "dec_nat n @ u \<noteq> ''0''" by (auto simp: d u)
  ultimately show ?thesis using assms(3) by (simp add: ParseDuration_def split_sign_dec_nat)
qed

subsection \<open>The emulator's configuration (config.go, emulator\_config.go)\<close>

record EmulatorConfig =
  ec_Enabled :: bool
  ec_PrivateKey :: string
  ec_TxAmount :: string
  ec_RPCURL :: string
  ec_BlockInterval :: duration
  ec_TxInterval :: duration

definition interval_from :: "string \<Rightarrow> string \<Rightarrow> duration \<Rightarrow> duration" where
  "interval_from text default_text fallback =
     (case ParseDuration (if text = [] then default_text else text) of None \<Rightarrow> fallback | Some d \<Rightarrow> d)"

definition LoadConfig :: "(string \<Rightarrow> string) \<Rightarrow> EmulatorConfig" where
  "LoadConfig env =
     (let enabled = (ToLower (env ''EMULATOR_ENABLED'') = ''true'');
          key = env ''EMULATOR_PRIVATE_KEY''
      in \<lparr>ec_Enabled = enabled,
          ec_PrivateKey = (if key = [] \<and> enabled then ''0xac0974bec39a17e36ba4a6b4d238ff944bacb478cbed5efcae784d7bf4f2ff80'' else key),
          ec_TxAmount = env ''EMULATOR_TX_AMOUNT'', ec_RPCURL = env ''EMULATOR_RPC_URL'',
          ec_BlockInterval = interval_from (env ''EMULATOR_BLOCK_INTERVAL'') ''3s'' (3 * second),
          ec_TxInterval = interval_from (env ''EMULATOR_TX_INTERVAL'') ''5s'' (5 * second)\<rparr>)"

definition IsValid :: "EmulatorConfig \<Rightarrow> bool" where
  "IsValid c \<longleftrightarrow> ec_RPCURL c \<noteq> [] \<and> ec_PrivateKey c \<noteq> []"

definition SetTxInterval :: "duration \<Rightarrow> Emulator \<Rightarrow> Emulator" where
  "SetTxInterval interval e = e\<lparr>txInterval := interval\<rparr>"

definition SetSecurityConfig :: "int \<Rightarrow> u64 \<Rightarrow> Emulator \<Rightarrow> Emulator" where
  "SetSecurityConfig price margin e = e\<lparr>maxGasPrice := price, gasSafetyMargin := margin\<rparr>"

text \<open>\<open>time.NewTicker\<close> panics for a period that is not positive.\<close>

definition NewTicker :: "duration \<Rightarrow> duration go" where
  "NewTicker d = (if d \<le> 0 then Panic else Ret d)"

definition tx_ticker :: "Emulator \<Rightarrow> duration go" where
  "tx_ticker e = NewTicker (txInterval e)"

lemma enabled_config_valid_iff: "ToLower (env ''EMULATOR_ENABLED'') = ''true'' \<Longrightarrow> IsValid (LoadConfig env) \<longleftrightarrow> env ''EMULATOR_RPC_URL'' \<noteq> []"
  by (simp add: IsValid_def LoadConfig_def Let_def)

lemma dec_nat_3: "dec_nat 3 = ''3''" and dec_nat_5: "dec_nat 5 = ''5''"
  by (code_simp, code_simp)

lemma default_intervals:
  assumes "env ''EMULATOR_BLOCK_INTERVAL'' = []" and "env ''EMULATOR_TX_INTERVAL'' = []"
  shows "ec_BlockInterval (LoadConfig env) = 3 * second \<and> ec_TxInterval (LoadConfig env) = 5 * second"
proof -
  have "ParseDuration ''3s'' = Some (3 * second)" "ParseDuration ''5s'' = Some (5 * second)"
    using parse_duration_text [of "''s''" "10 ^ 9" 3] parse_duration_text [of "''s''" "10 ^ 9" 5]
    by (simp_all add: duration_unit_def dec_nat_3 dec_nat_5 is_digit_def char_digit_def)
  with assms show ?thesis by (simp add: LoadConfig_def interval_from_def Let_def)
qed

text \<open>
  The interval of the environment is not checked: the option \<open>WithTxInterval\<close> refuses one that is not positive, \<open>SetTxInterval\<close>
  takes it, and the ticker of \<open>Start\<close> panics.
\<close>

lemma option_interval_safe: "tx_ticker e \<noteq> Panic \<Longrightarrow> tx_ticker (WithTxInterval d e) \<noteq> Panic"
  by (simp add: tx_ticker_def NewTicker_def WithTxInterval_def split: if_splits)

lemma zero_interval_panics:
  "env ''EMULATOR_TX_INTERVAL'' = ''0'' \<Longrightarrow> tx_ticker (SetTxInterval (ec_TxInterval (LoadConfig env)) e) = Panic"
  by (simp add: LoadConfig_def interval_from_def ParseDuration_def split_sign_def tx_ticker_def NewTicker_def SetTxInterval_def Let_def)

subsection \<open>The injector's loop (simulator\_factory.go)\<close>

record Injector =
  ij_enabled :: bool
  ij_rateLimit :: duration

definition NewSyntheticTransferInjector :: "go_error option \<Rightarrow> bool \<Rightarrow> go_error + Injector" where
  "NewSyntheticTransferInjector dial enabled =
     (case dial of Some e \<Rightarrow> Inl e | None \<Rightarrow> Inr \<lparr>ij_enabled = enabled, ij_rateLimit = 500 * millisecond\<rparr>)"

definition Injector_SetRateLimit :: "duration \<Rightarrow> Injector \<Rightarrow> Injector" where
  "Injector_SetRateLimit dur s = s\<lparr>ij_rateLimit := dur\<rparr>"

text \<open>
  A tick brings the answer of the node and the random numbers. The result is the channel's transfers; a tick whose draws never
  differ from the sender does not end, and nothing comes after it.
\<close>

fun injector_loop :: "((go_error + u64) \<times> nat list) list \<Rightarrow> int \<Rightarrow> SynthesizedTransfer list" where
  "injector_loop [] seqNum = []"
| "injector_loop ((header, rs) # ts) seqNum =
     (case generateMockTransfer header seqNum rs of
        None \<Rightarrow> []
      | Some None \<Rightarrow> injector_loop ts seqNum
      | Some (Some t) \<Rightarrow> t # injector_loop ts (wrap_i64 (seqNum + 1)))"

definition Injector_Start :: "((go_error + u64) \<times> nat list) list \<Rightarrow> Injector \<Rightarrow> SynthesizedTransfer list go" where
  "Injector_Start ts s = (if \<not> ij_enabled s then Ret [] else go_bind (NewTicker (ij_rateLimit s)) (\<lambda>period. Ret (injector_loop ts 0)))"

text \<open>The transfers are numbered without gaps, whatever the node answers, and every 256 of them the hashes repeat.\<close>

lemma injector_loop_hash:
  assumes "0 \<le> n" and "n + int (length ts) \<le> max_i64" and "i < length (injector_loop ts n)"
  shows "sy_TxHash (injector_loop ts n ! i) = BytesToHash [0, word_of_int (n + int i)]"
  using assms
proof (induction ts arbitrary: n i)
  case (Cons ev ts)
  obtain header rs where ev: "ev = (header, rs)" by fastforce
  show ?case
  proof (cases "generateMockTransfer header n rs")
    case None
    with Cons.prems show ?thesis by (simp add: ev)
  next
    case (Some r)
    have nx: "wrap_i64 (n + 1) = n + 1" using Cons.prems(1,2) by (intro wrap_i64_id) (simp add: min_i64_def)
    show ?thesis
    proof (cases r)
      case None
      with Some Cons show ?thesis by (simp add: ev)
    next
      fix t
      assume r: "r = Some t"
      have "sy_TxHash t = BytesToHash [0, word_of_int n]"
        using Some by (auto simp: r generateMockTransfer_def split: prod.splits option.splits sum.splits)
      with Some Cons nx show ?thesis by (cases i) (auto simp: ev r algebra_simps)
    qed
  qed
qed simp

lemma injector_hashes_repeat:
  assumes "int (length ts) \<le> max_i64" and "i + 256 < length (injector_loop ts 0)"
  shows "sy_TxHash (injector_loop ts 0 ! (i + 256)) = sy_TxHash (injector_loop ts 0 ! i)"
proof -
  have w: "word_of_int (0 + int (i + 256)) = (word_of_int (0 + int i) :: 8 word)" by (simp add: of_int_add word_of_int_eq_iff take_bit_eq_mod)
  show ?thesis
    using injector_loop_hash [of 0 ts "i + 256"] injector_loop_hash [of 0 ts i] assms unfolding w by simp
qed

subsection \<open>Names and texts\<close>

definition network_Name :: "int \<Rightarrow> string" where
  "network_Name chainID =
     (if chainID = 1 then ''Ethereum Mainnet''
      else if chainID = 11155111 then ''Sepolia Testnet''
      else if chainID = 31337 then ''Anvil Local''
      else if chainID = 5 then ''Goerli Testnet''
      else if chainID = 17000 then ''Holesky Testnet''
      else ''Unknown Network (Chain ID: '' @ big_string chainID @ '')'')"

text \<open>The bar of the replay: how many full and how many empty cells. The conversion to \<open>int\<close> truncates.\<close>

definition progress_cells :: "rat \<Rightarrow> nat \<times> nat" where
  "progress_cells progress =
     (let x = 40 * progress / 100; filled = min 40 (if x < 0 then \<lceil>x\<rceil> else \<lfloor>x\<rfloor>)
      in (nat filled, nat (40 - filled)))"

lemma progress_bar_length: "- 5 / 2 < p \<Longrightarrow> fst (progress_cells p) + snd (progress_cells p) = 40"
proof -
  assume p: "- 5 / 2 < p"
  define c where "c = (if 40 * p / 100 < 0 then \<lceil>40 * p / 100\<rceil> else \<lfloor>40 * p / 100\<rfloor>)"
  have "0 \<le> c" using p by (simp add: c_def le_ceiling_iff)
  then have "nat (min 40 c) + nat (40 - min 40 c) = 40" by simp
  then show ?thesis by (simp only: progress_cells_def Let_def fst_conv snd_conv flip: c_def)
qed

end
