(* ===== verification/Spec2Isabelle.thy ===== *)
theory Spec2Isabelle
  imports
    Commit_Path
    Reorg
    Hot_Buffer
    Limiter
    Rpc_Pool_Props
    Services
    Backpressure
    Replay
    Web_Hub
    Emulator
    Schema
    Sinks
    Checkpoint_Service
    Wss_Listener
    Indexer_Config
    Http_Api
    Visitors
    Health_Admin
    Lifecycle
    Background
    Integrity_Audit
    Api_Server
    Dev_Tools
    Metrics_Registry
    Tool_Config
begin

text \<open>
  \<^bold>\<open>A verification development of web3-indexer-go.\<close>

  The program reads the blocks of an Ethereum chain from RPC nodes and stores blocks and token
  activities in PostgreSQL. Its core is a pipeline of concurrent components under
  src/internal/engine, which communicate over channels and through one coordinating actor:

    Fetcher --results--> Sequencer --calls--> Processor --commands--> Orchestrator
      --tasks--> AsyncWriter --SQL--> tables

  The fetcher's workers report blocks in any order, the sequencer restores the order, the
  processor extracts the activities and dispatches one commit task per block, the orchestrator
  keeps the cursors and hands the task to the writer, which stores it in batches and announces
  the committed height. Beside the pipeline stand the rollback of chain reorganisations and the
  start-up alignment, the metadata enricher, the height and rate readings, and an in-memory
  pool of recent transfers. Around it stand the RPC pool with its limits, the state manager and the
  watchdogs, the web hub, and the emulator that produces traffic on a local chain.

  \<^bold>\<open>Theories, in the order of their imports.\<close>

  \<^item> \<open>Prelude\<close>: Go values and effects shared by all components (machine integers, panics,
    errors, mutexes, bounded channels) with the \<open>named_theorems\<close> collections.
  \<^item> \<open>Go_Utils\<close> (utils.go): the saturating height arithmetic, and the string comparison of the
    standard library.
  \<^item> \<open>Models\<close>, \<open>Columns\<close> (internal/models/types.go): rows and numbers; the decimal text of a column,
    with \<open>Scan\<close> of every driver type.
  \<^item> \<open>Chain_Data\<close>: what travels through the pipeline (\<open>BlockData\<close>, \<open>FetchJob\<close>, \<open>PersistTask\<close>).
  \<^item> \<open>Hot_Buffer\<close> (hot\_buffer.go): the pool of recent transfers refines a window of the newest.
  \<^item> \<open>Global_State\<close> (global\_state.go): the shared snapshot with its mutex; an operation that
    would wait for its own lock is the value \<open>None\<close>.
  \<^item> \<open>Orchestrator\<close>, \<open>Orchestrator_Props\<close> (orchestrator\_*.go, self\_healing.go): the
    actor's state, one definition per command handler, the tickers and the administrative calls;
    the step relation \<open>orch_step\<close>, its invariant, and the locale \<open>watermark\<close>, interpreted on the
    synced and the fetched cursor.
  \<^item> \<open>Sequencer\<close>, \<open>Sequencer_Props\<close>, \<open>Sequencer_Delivery\<close> (sequencer\_*.go): the
    ordering component over an arbitrary processor. The locale \<open>block_processor\<close> states what the
    sequencer relies on (a successful call commits exactly its blocks, a failed one none) and
    proves that blocks are committed in order; \<open>reliable_processor\<close> extends it by progress and
    proves that everything delivered is committed.
  \<^item> \<open>Heights\<close> (internal/monitor/stats.go, metrics\_methods.go, height\_oracle.go): the rate ring
    refines a sliding window; the two keepers of heights agree.
  \<^item> \<open>Enricher\<close> (metadata\_enricher.go): cache, queue and batch worker as a step relation.
  \<^item> \<open>Processor\<close>, \<open>Processor_Props\<close> (processor\_*.go, labels.go, signatures.go): the single and
    the batch path; both locales of the sequencer are interpreted on this model, so the ordering
    theorems hold for the program's own processor.
  \<^item> \<open>Fetcher\<close>, \<open>Fetcher_Props\<close> (fetcher\_*.go): scheduling and range fetching.
  \<^item> \<open>Pipeline\<close>: a property of fetcher, sequencer and processor together.
  \<^item> \<open>Storage\<close> (bulk\_inserter.go, the repository adapters, internal/database/repository.go): the
    tables with their keys, the statements of the engine as functions, and their integrity.
    \<open>Schema\<close> (internal/database/schema.go): the tables that the program itself creates.
  \<^item> \<open>Async_Writer\<close> (async\_writer\_*.go): the writer's loop as a step function over the events
    of its \<open>select\<close>.
  \<^item> \<open>Reorg\<close> (processor\_reorg.go, processor\_checkpoint.go, integrity.go, consistency.go,
    reconciler.go): ancestor search, rollback, alignment, consistency check and audit.
  \<^item> \<open>Commit_Path\<close>: processor, coordinator and writer together, from a dispatched task to the
    disk and back to the synced cursor; with the tail follower and the fetcher in front it is the
    whole way of a block through the program.
  \<^item> \<open>Limiter\<close> (internal/limiter), \<open>Quota\<close> (rpc\_quota\_guard.go, quota\_monitor.go), \<open>Rpc_Pool\<close>,
    \<open>Rpc_Pool_Props\<close> (rpc\_*.go): rate limits, daily budget, node selection, failover and health.
  \<^item> \<open>Config\<close>, \<open>Indexer_Config\<close>, \<open>Startup\<close>, \<open>Tail_Follow\<close>, \<open>Wss_Listener\<close>, \<open>Services\<close> (internal/config,
    pkg/network, strategy.go, performance\_profile.go, indexer\_config.go, wss\_listener.go, cmd/indexer):
    configuration and its manager, start block, alignment at the start, following of the head by polling
    and by subscription, and the wiring of the services.
  \<^item> \<open>Lifecycle\<close>, \<open>Background\<close> (main\_core.go, main\_init.go, service\_manager.go): the initialisation as one
    function from environment and database to the running engine, modes and shutdown; the loops that drive
    modelled operations from tickers.
  \<^item> \<open>State_Manager\<close>, \<open>Activity\<close>, \<open>Backpressure\<close>, \<open>Watchdog\<close> (state\_manager\_*.go, lazy\_manager.go,
    eco\_strategy.go, dynamic\_backpressure.go, watchdog\_deadlock.go): the components that pause,
    throttle and repair the pipeline.
  \<^item> \<open>Sinks\<close>, \<open>Replay\<close> (sink\_*.go, recorder.go, storage\_guard.go, source\_lz4\_replay.go,
    cmd/indexer/replay.go): sinks and recorder, the recorded source and its loop; \<open>Checkpoint_Service\<close>
    (checkpoint\_service.go).
  \<^item> \<open>Web_Hub\<close> (internal/web): the WebSocket hub with its clients' pumps, and its throttled variant.
  \<^item> \<open>Http_Api\<close>, \<open>Visitors\<close>, \<open>Health_Admin\<close>, \<open>Api_Server\<close> (api\_*.go, ui\_projection.go, health\_*.go,
    admin\_server.go, signer.go, static.go): the handlers as functions from the modelled state to the answer,
    visitor statistics, health and administration, and the server with its routes and signatures.
  \<^item> \<open>Telemetry\<close>, \<open>Metrics_Registry\<close> (tps\_monitor.go, token\_registry.go, metrics\_*.go): throughput, and the
    Prometheus instruments with every method that writes them.
  \<^item> \<open>Emulator\<close>, \<open>Simulators\<close>, \<open>Tool_Config\<close> (internal/emulator, pro\_simulator.go, defi\_simulator\_*.go,
    simulator\_factory.go): nonce manager, contract deployment, transfers and configuration, and the generators
    of traffic inside the process.
  \<^item> \<open>Integrity_Audit\<close> (scripts/verify\_integrity.go), \<open>Dev_Tools\<close> (cmd/demo, tools): the audit script and
    the tools beside the indexer.

  \<^bold>\<open>How the code is represented.\<close> Structs are records and enumerations datatypes with the
  source's names (a prefix keeps field names apart). A pointer that may be nil is an \<open>option\<close>. A
  function that can panic returns a \<open>go\<close> value, errors are values of \<open>go_error\<close>. \<open>uint64\<close> is
  \<^typ>\<open>64 word\<close> and \<open>Uint256\<close> \<^typ>\<open>256 word\<close>; \<open>int64\<close> is \<^typ>\<open>int\<close> with \<open>wrap_i64\<close> where the code can
  leave the range. A blocking \<open>select\<close> is resolved by an argument that says which branch fires,
  the clock, the random source, the database server, go-ethereum and the RPC nodes are arguments
  as well. Floating-point rates are exact rationals. Log lines are left out.

  \<^bold>\<open>Loops and bounds.\<close> Every loop is a total function: the buffer drain terminates because each
  round removes a buffered block, the scheduling loop because the current block grows to the
  end of the range, the ancestor search because the number falls to zero, the retry loops
  because of their bound. A loop that waits for events is a function of the list of events. No
  definition uses fuel.

  \<^bold>\<open>What is shown.\<close> The properties are numbered C1, C2, ... in the text before each theorem.

  \<^item> C1 to C3, C5, C7, C8, C11, C12: order, completeness and hash-chain integrity of the pipeline,
    up to the end-to-end theorem C5.
  \<^item> C4, C6, C18: rollback of reorganisations and resumption after a stop.
  \<^item> C9, C13: durability and integrity of the storage.
  \<^item> C10, C14, C17: the coordinator.
  \<^item> C15, C16: the two extraction paths and the indices of activities.
  \<^item> C19 to C23: readings, pool of recent transfers, enricher and the column of numbers.
  \<^item> C24 to C29: RPC pool, limiter, quota and the configuration at run time.
  \<^item> C30 to C34: watchdog, state manager, the initialised engine, web hub and emulator.
  \<^item> C35: the audit script finds exactly the broken chains.
  \<^item> From C36 on: behaviour that departs from what the code intends, proved for all inputs of the
    stated form.

  \<^bold>\<open>What is not modelled.\<close> Log lines and their set-up (logger.go); the encoding of answers as JSON, the template
  engine, compression, signature schemes and key handling, which are arguments; the constant tables of
  addresses of internal/config; help texts and bucket bounds of the Prometheus instruments; the bookkeeping
  of goroutines (wait groups, the arrival of signals) and getters. The pipeline's theorems take the answers of
  the RPC pool as arguments and hold for every pool.
\<close>

end
